(* ===== verification/Prelude.thy ===== *)
theory Prelude
  imports Main "HOL-Library.Word" "HOL-Library.AList"
begin

text \<open>
  What every component shares: the result type of Go functions (a value, an error value, or a
  run-time panic), checked slicing and indexing, Go maps as lists of bindings, and the generic
  lemmas about them that the component proofs rely on.
\<close>

section \<open>Results: values, error values and panics\<close>

text \<open>
  A Go function that returns \<open>(T, error)\<close> is a function into \<open>('e, 'a) result\<close>: \<open>Ok v\<close> for a nil
  error, \<open>Failed e\<close> for an error value and \<open>Panics p\<close> where the Go run-time aborts the goroutine
  (and with it the server, as nothing in the sources recovers on these paths).
\<close>

datatype panic =
    IndexOutOfRange
  | SliceBoundsOutOfRange
  | NilDereference
  | CloseOfNilChannel
  | SendOnClosedChannel
  | NonPositiveTickerInterval
  | TypeAssertion

datatype 'e exn = Panic panic | Err 'e

type_synonym ('e, 'a) result = "'e exn + 'a"

abbreviation Ok :: "'a \<Rightarrow> ('e, 'a) result" where
  "Ok v \<equiv> Inr v"

abbreviation Failed :: "'e \<Rightarrow> ('e, 'a) result" where
  "Failed e \<equiv> Inl (Err e)"

abbreviation Panics :: "panic \<Rightarrow> ('e, 'a) result" where
  "Panics p \<equiv> Inl (Panic p)"

definition no_panic :: "('e, 'a) result \<Rightarrow> bool" where
  "no_panic r = (case r of Inl (Panic _) \<Rightarrow> False | _ \<Rightarrow> True)"

lemma no_panic_simps [simp]:
  "no_panic (Ok v)"
  "no_panic (Failed e)"
  "\<not> no_panic (Panics p)"
  by (simp_all add: no_panic_def)

lemma no_panic_iff: "no_panic r \<longleftrightarrow> (\<forall>p. r \<noteq> Panics p)"
  by (auto simp: no_panic_def split: sum.splits exn.splits)

named_theorems slice_simps "checked slices and indices that are in bounds"
named_theorems gomap_simps "lookups and updates of Go maps"

section \<open>Slices and indices\<close>

text \<open>\<open>s[b:e]\<close> and \<open>s[i]\<close>, with the bound checks of the Go run-time.\<close>

definition slice :: "'a list \<Rightarrow> nat \<Rightarrow> nat \<Rightarrow> ('e, 'a list) result" where
  "slice s b e = (if b \<le> e \<and> e \<le> length s then Ok (take (e - b) (drop b s))
                  else Panics SliceBoundsOutOfRange)"

definition index_at :: "'a list \<Rightarrow> nat \<Rightarrow> ('e, 'a) result" where
  "index_at s i = (if i < length s then Ok (s ! i) else Panics IndexOutOfRange)"

lemma slice_ok [slice_simps]: "b \<le> e \<Longrightarrow> e \<le> length s \<Longrightarrow> slice s b e = Ok (take (e - b) (drop b s))"
  by (simp add: slice_def)

lemma index_ok [slice_simps]: "i < length s \<Longrightarrow> index_at s i = Ok (s ! i)"
  by (simp add: index_at_def)

lemma take_drop_Suc:
  assumes "b \<le> e" "e < length s"
  shows "take (Suc e - b) (drop b s) = take (e - b) (drop b s) @ [s ! e]"
  using assms by (simp add: Suc_diff_le take_Suc_conv_app_nth)

section \<open>Go maps\<close>

text \<open>
  A Go map is the list of its bindings, with distinct keys, in the order in which a \<open>range\<close> over it
  visits them. Go leaves that order open; the theorems hold for every such list, hence for every
  order. A nil map and an empty map are both \<open>[]\<close> (the sources never distinguish them by anything
  but the number of bindings).
\<close>

type_synonym ('k, 'v) gomap = "('k \<times> 'v) list"

definition map_ok :: "('k, 'v) gomap \<Rightarrow> bool" where
  "map_ok m = distinct (map fst m)"

abbreviation map_get :: "('k, 'v) gomap \<Rightarrow> 'k \<Rightarrow> 'v option" where
  "map_get m k \<equiv> map_of m k"

definition map_put :: "'k \<Rightarrow> 'v \<Rightarrow> ('k, 'v) gomap \<Rightarrow> ('k, 'v) gomap" where
  "map_put k v m = AList.update k v m"

definition map_del :: "'k \<Rightarrow> ('k, 'v) gomap \<Rightarrow> ('k, 'v) gomap" where
  "map_del k m = AList.delete k m"

lemma map_put_code [simp]:
  "map_put k v [] = [(k, v)]"
  "map_put k v ((k', v') # m) = (if k' = k then (k, v) # m else (k', v') # map_put k v m)"
  by (simp_all add: map_put_def)

lemma map_del_code [simp]:
  "map_del k [] = []"
  "map_del k ((k', v') # m) = (if k' = k then map_del k m else (k', v') # map_del k m)"
  by (simp_all add: map_del_def)

lemma map_get_put [gomap_simps]: "map_get (map_put k v m) = (map_get m)(k \<mapsto> v)"
  by (simp add: map_put_def update_conv' fun_eq_iff)

lemma map_get_del [gomap_simps]: "map_get (map_del k m) = (map_get m)(k := None)"
  by (simp add: map_del_def delete_conv' fun_eq_iff)

lemma map_ok_empty [simp, intro]: "map_ok []"
  by (simp add: map_ok_def)

lemma map_ok_put [simp, intro]: "map_ok m \<Longrightarrow> map_ok (map_put k v m)"
  by (simp add: map_ok_def map_put_def distinct_update)

lemma map_ok_del [simp, intro]: "map_ok m \<Longrightarrow> map_ok (map_del k m)"
  by (simp add: map_ok_def map_del_def distinct_delete)

lemma map_put_fresh: "k \<notin> fst ` set m \<Longrightarrow> map_put k v m = m @ [(k, v)]"
  by (induction m) (auto simp: image_iff)

lemma map_put_nonempty [simp]: "map_put k v m \<noteq> []"
  by (cases m) (auto simp: split_paired_all)

lemma map_get_in: "map_ok m \<Longrightarrow> (k, v) \<in> set m \<longleftrightarrow> map_get m k = Some v"
  by (simp add: map_ok_def)

lemma map_put_back [gomap_simps]: "map_get m k = Some v \<Longrightarrow> map_put k v (map_put k w m) = m"
  by (induction m) (auto split: if_splits)

lemma map_put_same: "map_get m k = Some v \<Longrightarrow> map_put k v m = m"
  by (induction m) (auto split: if_splits)

lemma map_del_fresh: "map_get m k = None \<Longrightarrow> map_del k m = m"
  by (induction m) (auto split: if_splits)

lemma map_del_put_fresh [gomap_simps]: "map_get m k = None \<Longrightarrow> map_del k (map_put k v m) = m"
  by (induction m) (auto simp: map_del_fresh split: if_splits)

section \<open>Lists\<close>

lemma concat_map_singleton: "concat (map (\<lambda>x. [f x]) xs) = map f xs"
  by (induction xs) auto

lemma list_all_in: "list_all P xs \<Longrightarrow> x \<in> set xs \<Longrightarrow> P x"
  by (auto simp: list_all_iff)

lemma list_all2_weaken: "list_all P xs \<Longrightarrow> (\<And>x. P x \<Longrightarrow> Q x) \<Longrightarrow> list_all Q xs"
  by (auto simp: list_all_iff)

end
