(* ===== verification/GoStrings.thy ===== *)
theory GoStrings
  imports Prelude
begin

text \<open>
  The functions of Go's \<open>strings\<close> package that the sources call, on strings as lists of bytes
  (\<open>string\<close> is \<open>char list\<close> and a \<open>char\<close> is a byte), and the lemmas on them that printing and
  parsing of paths need.
\<close>

section \<open>Searching\<close>

definition HasPrefix :: "string \<Rightarrow> string \<Rightarrow> bool" where
  "HasPrefix s p = (take (length p) s = p)"

fun IndexByte :: "string \<Rightarrow> char \<Rightarrow> nat option" where
  "IndexByte [] c = None"
| "IndexByte (x # xs) c = (if x = c then Some 0 else map_option Suc (IndexByte xs c))"

fun LastIndexByte :: "string \<Rightarrow> char \<Rightarrow> nat option" where
  "LastIndexByte [] c = None"
| "LastIndexByte (x # xs) c =
     (case LastIndexByte xs c of Some i \<Rightarrow> Some (Suc i)
      | None \<Rightarrow> if x = c then Some 0 else None)"

fun Contains :: "string \<Rightarrow> string \<Rightarrow> bool" where
  "Contains [] p = (p = [])"
| "Contains (x # xs) p = (HasPrefix (x # xs) p \<or> Contains xs p)"

lemma IndexByte_None: "IndexByte s c = None \<longleftrightarrow> c \<notin> set s"
  by (induction s) auto

lemma IndexByte_append: "c \<notin> set s \<Longrightarrow> IndexByte (s @ c # t) c = Some (length s)"
  by (induction s) auto

lemma IndexByte_Some:
  "IndexByte s c = Some i \<Longrightarrow> i < length s \<and> s ! i = c \<and> c \<notin> set (take i s)"
  by (induction s arbitrary: i) (auto split: if_splits simp: nth_Cons split: nat.splits)

lemma HasPrefix_append [simp]: "HasPrefix (p @ s) p"
  by (simp add: HasPrefix_def)

lemma Contains_self [simp]: "Contains p p"
  by (cases p) (auto simp: HasPrefix_def)

lemma Contains_infix: "Contains s p \<longleftrightarrow> (\<exists>a b. s = a @ p @ b)"
proof (induction s)
  case Nil
  then show ?case by simp
next
  case (Cons x xs)
  have "Contains (x # xs) p \<longleftrightarrow> (\<exists>b. x # xs = p @ b) \<or> (\<exists>a b. xs = a @ p @ b)"
    using Cons by (auto simp: HasPrefix_def) (metis append_take_drop_id)
  also have "\<dots> \<longleftrightarrow> (\<exists>a b. x # xs = a @ p @ b)" (is "?l = ?r")
  proof
    assume ?l
    then show ?r by (metis append_Cons append_Nil)
  next
    assume ?r
    then obtain a b where "x # xs = a @ p @ b" by blast
    then show ?l by (cases a) auto
  qed
  finally show ?case .
qed

section \<open>Joining, splitting, replacing\<close>

fun Join :: "string list \<Rightarrow> string \<Rightarrow> string" where
  "Join [] sep = []"
| "Join [x] sep = x"
| "Join (x # y # xs) sep = x @ sep @ Join (y # xs) sep"

fun SplitByte :: "string \<Rightarrow> char \<Rightarrow> string list" where
  "SplitByte [] c = [[]]"
| "SplitByte (x # xs) c =
     (if x = c then [] # SplitByte xs c
      else (case SplitByte xs c of [] \<Rightarrow> [[x]] | y # ys \<Rightarrow> (x # y) # ys))"

text \<open>\<open>strings.Replace(s, old, new, -1)\<close> for a non-empty \<open>old\<close>: left to right, without overlap.\<close>

function ReplaceAll :: "string \<Rightarrow> string \<Rightarrow> string \<Rightarrow> string" where
  "ReplaceAll [] p r = []"
| "ReplaceAll (x # xs) p r =
     (if p \<noteq> [] \<and> HasPrefix (x # xs) p then r @ ReplaceAll (drop (length p) (x # xs)) p r
      else x # ReplaceAll xs p r)"
  by pat_completeness auto
termination
  by (relation "measure (\<lambda>(s, _, _). length s)") (auto simp: length_greater_0_conv)

lemma Join_cons: "xs \<noteq> [] \<Longrightarrow> Join (x # xs) sep = x @ sep @ Join xs sep"
  by (cases xs) auto

lemma Join_empty_sep: "Join xs [] = concat xs"
  by (induction xs "[] :: string" rule: Join.induct) auto

lemma Join_rooted: "Join ([] # xs) sep = concat (map (\<lambda>x. sep @ x) xs)"
  by (induction xs) (auto simp: Join_cons neq_Nil_conv, case_tac xs, auto)

lemma ReplaceAll_absent: "hd p \<notin> set s \<Longrightarrow> p \<noteq> [] \<Longrightarrow> ReplaceAll s p r = s"
  by (induction s p r rule: ReplaceAll.induct) (auto simp: HasPrefix_def neq_Nil_conv)

lemma ReplaceAll_absent_snd:
  "c \<notin> set s \<Longrightarrow> ReplaceAll s [b, c] r = s"
proof (induction s)
  case Nil
  then show ?case by simp
next
  case (Cons x xs)
  then have "\<not> HasPrefix (x # xs) [b, c]"
    by (cases xs) (auto simp: HasPrefix_def)
  with Cons show ?case by simp
qed

lemma SplitByte_nonempty [simp]: "SplitByte s c \<noteq> []"
  by (induction s) (auto split: list.splits)

lemma SplitByte_absent: "c \<notin> set s \<Longrightarrow> SplitByte s c = [s]"
  by (induction s) auto

lemma Join_SplitByte: "Join (SplitByte s c) [c] = s"
proof (induction s)
  case Nil
  then show ?case by simp
next
  case (Cons x xs)
  show ?case
  proof (cases "x = c")
    case True
    with Cons show ?thesis by (simp add: Join_cons)
  next
    case False
    obtain y ys where y: "SplitByte xs c = y # ys"
      by (cases "SplitByte xs c") auto
    with Cons False show ?thesis by (cases ys) auto
  qed
qed

section \<open>Decimal numbers\<close>

text \<open>The \<open>%d\<close> of \<open>fmt.Sprintf\<close> on an unsigned number.\<close>

definition digit_char :: "nat \<Rightarrow> char" where
  "digit_char d = char_of (48 + d)"

fun show_nat :: "nat \<Rightarrow> string" where
  "show_nat n = (if n < 10 then [digit_char n] else show_nat (n div 10) @ [digit_char (n mod 10)])"

declare show_nat.simps [simp del]

definition show_bool :: "bool \<Rightarrow> string" where
  "show_bool b = (if b then ''true'' else ''false'')"

lemma digit_char_code: "d < 10 \<Longrightarrow> (of_char (digit_char d) :: nat) = 48 + d"
  unfolding digit_char_def by (subst of_char_of) simp

lemma digit_char_simps [simp]:
  "digit_char 0 = CHR ''0''" "digit_char 1 = CHR ''1''" "digit_char (Suc 0) = CHR ''1''" "digit_char 2 = CHR ''2''"
  "digit_char 3 = CHR ''3''" "digit_char 4 = CHR ''4''" "digit_char 5 = CHR ''5''" "digit_char 6 = CHR ''6''"
  "digit_char 7 = CHR ''7''" "digit_char 8 = CHR ''8''" "digit_char 9 = CHR ''9''"
  by (simp_all add: digit_char_def char_of_def bit_Suc_0_iff)

lemma digit_char_inj: "a < 10 \<Longrightarrow> b < 10 \<Longrightarrow> digit_char a = digit_char b \<Longrightarrow> a = b"
  using digit_char_code by (metis add_left_cancel)

lemma show_nat_nonempty [simp]: "show_nat n \<noteq> []"
  by (subst show_nat.simps) simp

lemma show_nat_digits: "c \<in> set (show_nat n) \<Longrightarrow> 48 \<le> (of_char c :: nat) \<and> (of_char c :: nat) \<le> 57"
proof (induction n rule: show_nat.induct)
  case (1 n)
  have d: "48 \<le> (of_char (digit_char d) :: nat) \<and> (of_char (digit_char d) :: nat) \<le> 57" if "d < 10" for d
    using digit_char_code [OF that] that by simp
  show ?case
  proof (cases "n < 10")
    case True
    with 1(2) d show ?thesis by (subst (asm) show_nat.simps) simp
  next
    case False
    with 1(2) have "c \<in> set (show_nat (n div 10)) \<or> c = digit_char (n mod 10)"
      by (subst (asm) show_nat.simps) auto
    with 1(1) False d show ?thesis by auto
  qed
qed

lemma show_nat_inj: "show_nat a = show_nat b \<Longrightarrow> a = b"
proof (induction a arbitrary: b rule: show_nat.induct)
  case (1 a)
  note eq = "1.prems"
  have u: "show_nat n = (if n < 10 then [digit_char n] else show_nat (n div 10) @ [digit_char (n mod 10)])" for n
    by (rule show_nat.simps)
  consider "a < 10" "b < 10" | "a < 10" "\<not> b < 10" | "\<not> a < 10" "b < 10" | "\<not> a < 10" "\<not> b < 10" by blast
  then show ?case
  proof cases
    case 1
    with eq show ?thesis by (simp add: u digit_char_inj)
  next
    case 2
    with eq show ?thesis using show_nat_nonempty [of "b div 10"] by (simp add: u [of a] u [of b] del: show_nat_nonempty)
  next
    case 3
    with eq show ?thesis using show_nat_nonempty [of "a div 10"] by (simp add: u [of a] u [of b] del: show_nat_nonempty)
  next
    case 4
    then have "show_nat (a div 10) = show_nat (b div 10)" "digit_char (a mod 10) = digit_char (b mod 10)"
      using eq by (simp_all add: u [of a] u [of b])
    with "1.IH" 4 have "a div 10 = b div 10" "a mod 10 = b mod 10"
      by (auto intro: digit_char_inj)
    then show ?thesis by (metis div_mult_mod_eq)
  qed
qed

end
