(* ===== verification/XPath.thy ===== *)
theory XPath
  imports GoStrings
begin

text \<open>
  The string path parser of \<open>utilities/xpath/xpath.go\<close>: the scanning loops of \<open>splitPath\<close> and
  \<open>parseKeyValueString\<close> over byte indices (every slice and index checked as the Go run-time does),
  \<open>parseElement\<close> and \<open>ParseStringPath\<close>. Each loop is proved equal to a recursion over the bytes
  that are left, so it never goes out of bounds; the lemmas of the last section say what the
  parser does on a printed list element.
\<close>

section \<open>Identifiers and patterns\<close>

text \<open>The character classes of \<open>idPattern\<close>.\<close>

definition id_first :: "char \<Rightarrow> bool" where
  "id_first c = (let n = of_char c :: nat in
     (97 \<le> n \<and> n \<le> 122) \<or> (65 \<le> n \<and> n \<le> 90) \<or> (48 \<le> n \<and> n \<le> 57) \<or> c = CHR ''_'')"

definition id_rest :: "char \<Rightarrow> bool" where
  "id_rest c = (id_first c \<or> c = CHR ''-'' \<or> c = CHR ''.'')"

text \<open>\<open>idRe\<close> and the prefix of \<open>kvRe\<close>; \<open>=\<close> is in neither class, so the key is what precedes the first one.\<close>

definition idRe :: "string \<Rightarrow> bool" where
  "idRe s = (case s of [] \<Rightarrow> False | c # cs \<Rightarrow> id_first c \<and> list_all id_rest cs)"

definition kvRe :: "string \<Rightarrow> bool" where
  "kvRe s = (case s of [] \<Rightarrow> False
     | c # r \<Rightarrow> c = CHR ''['' \<and> r \<noteq> [] \<and> last r = CHR '']'' \<and>
         (case IndexByte (butlast r) CHR ''='' of None \<Rightarrow> False
          | Some i \<Rightarrow> idRe (take i (butlast r)) \<and> Suc i < length (butlast r)))"

text \<open>The error values of the package; the constructor names the \<open>fmt.Errorf\<close> site.\<close>

datatype xpath_error =
    MissingBracket string
  | MalformedKeyValue string string
  | MalformedKeyValues string
  | InvalidNodeName string
  | InvalidListName string string
  | InvalidPathElement string xpath_error
  | InvalidStringPath string xpath_error
  | MissingNameBeforeKeys
  | TwoSubsequentKeys
  | NoInputPath
  | DeprecatedElement
  | TargetOutsidePrefix

section \<open>splitPath\<close>

text \<open>The loop: \<open>en\<close> runs to the end of \<open>str\<close>, \<open>bg\<close> marks the start of the current element.\<close>

function splitPath_loop :: "string \<Rightarrow> string list \<Rightarrow> bool \<Rightarrow> nat \<Rightarrow> nat
    \<Rightarrow> (xpath_error, string list \<times> bool) result" where
  "splitPath_loop str path insideBrackets bg en =
     (if en < length str then
        (if str ! en = CHR ''/'' then
           (if \<not> insideBrackets then
              (if bg < en then
                 (case slice str bg en of
                    Inl x \<Rightarrow> Inl x
                  | Inr e \<Rightarrow> splitPath_loop str (path @ [e]) insideBrackets (Suc en) (Suc en))
               else splitPath_loop str path insideBrackets (Suc en) (Suc en))
            else splitPath_loop str path insideBrackets bg (Suc en))
         else if str ! en = CHR ''['' then
           splitPath_loop str path
             (if (en = 0 \<or> str ! (en - 1) \<noteq> CHR 0x5C) \<and> \<not> insideBrackets then True else insideBrackets)
             bg (Suc en)
         else if str ! en = CHR '']'' then
           splitPath_loop str path
             (if (en = 0 \<or> str ! (en - 1) \<noteq> CHR 0x5C) \<and> insideBrackets then False else insideBrackets)
             bg (Suc en)
         else splitPath_loop str path insideBrackets bg (Suc en))
      else Ok (path, insideBrackets))"
  by pat_completeness auto
termination
  by (relation "measure (\<lambda>(str, _, _, _, en). length str - en)") auto

declare splitPath_loop.simps [simp del]

definition splitPath :: "string \<Rightarrow> (xpath_error, string list) result" where
  "splitPath s =
     (let str = s @ ''/'' in
      case splitPath_loop str [] False 0 0 of
        Inl x \<Rightarrow> Inl x
      | Inr (path, insideBrackets) \<Rightarrow>
          if insideBrackets then Failed (MissingBracket str) else Ok path)"

section \<open>parseKeyValueString\<close>

definition recoverBrackets :: "string \<Rightarrow> string" where
  "recoverBrackets val = ReplaceAll (ReplaceAll val [CHR 0x5C, CHR '']''] '']'') [CHR 0x5C, CHR ''[''] ''[''"

text \<open>The body of the branch that closes a pair: check the pattern, cut the brackets, cut at \<open>=\<close>.\<close>

definition parsePair :: "string \<Rightarrow> string \<Rightarrow> (xpath_error, string \<times> string) result" where
  "parsePair keyValue str =
     (if \<not> kvRe keyValue then Failed (MalformedKeyValue keyValue str)
      else (case slice keyValue 1 (length keyValue - 1) of
              Inl x \<Rightarrow> Inl x
            | Inr kv \<Rightarrow>
                (case IndexByte kv CHR ''='' of
                   None \<Rightarrow> Panics SliceBoundsOutOfRange
                 | Some i \<Rightarrow> Ok (take i kv, recoverBrackets (drop (Suc i) kv)))))"

function parseKeyValue_loop :: "string \<Rightarrow> (string, string) gomap \<Rightarrow> int \<Rightarrow> nat \<Rightarrow> nat
    \<Rightarrow> (xpath_error, (string, string) gomap \<times> nat \<times> nat) result" where
  "parseKeyValue_loop str keyValuePairs insideBrackets bg en =
     (if en < length str then
        (if str ! en = CHR ''['' then
           (if en = 0 \<or> str ! (en - 1) \<noteq> CHR 0x5C
            then parseKeyValue_loop str keyValuePairs (insideBrackets + 1) bg (Suc en)
            else parseKeyValue_loop str keyValuePairs insideBrackets bg (Suc en))
         else if str ! en = CHR '']'' then
           (if en = 0 \<or> str ! (en - 1) \<noteq> CHR 0x5C then
              (if insideBrackets - 1 \<le> 0 then
                 (case slice str bg (Suc en) of
                    Inl x \<Rightarrow> Inl x
                  | Inr keyValue \<Rightarrow>
                      (case parsePair keyValue str of
                         Inl x \<Rightarrow> Inl x
                       | Inr (key, val) \<Rightarrow>
                           parseKeyValue_loop str (map_put key val keyValuePairs)
                             (insideBrackets - 1) (Suc en) (Suc en)))
               else parseKeyValue_loop str keyValuePairs (insideBrackets - 1) bg (Suc en))
            else parseKeyValue_loop str keyValuePairs insideBrackets bg (Suc en))
         else parseKeyValue_loop str keyValuePairs insideBrackets bg (Suc en))
      else Ok (keyValuePairs, bg, en))"
  by pat_completeness auto
termination
  by (relation "measure (\<lambda>(str, _, _, _, en). length str - en)") auto

declare parseKeyValue_loop.simps [simp del]

definition parseKeyValueString :: "string \<Rightarrow> (xpath_error, (string, string) gomap) result" where
  "parseKeyValueString str =
     (case parseKeyValue_loop str [] 0 0 0 of
        Inl x \<Rightarrow> Inl x
      | Inr (keyValuePairs, bg, en) \<Rightarrow>
          if bg < en then Failed (MalformedKeyValues str) else Ok keyValuePairs)"

section \<open>parseElement and ParseStringPath\<close>

text \<open>The parsed elements: the two dynamic types that \<open>[]interface{}\<close> holds here.\<close>

datatype xelem = XName string | XKeys "(string, string) gomap"

definition parseElement :: "string \<Rightarrow> (xpath_error, xelem list) result" where
  "parseElement elem =
     (case IndexByte elem CHR ''['' of
        None \<Rightarrow>
          if \<not> idRe elem then
            (if elem = ''.'' then Ok [XName elem]
             else if elem = ''..'' then Ok [XName elem]
             else if (case IndexByte elem CHR ''='' of None \<Rightarrow> False | Some i \<Rightarrow> 0 < i)
             then Ok [XName elem]
             else Failed (InvalidNodeName elem))
          else Ok [XName elem]
      | Some i \<Rightarrow>
          if \<not> idRe (take i elem) then Failed (InvalidListName (take i elem) elem)
          else (case parseKeyValueString (drop i elem) of
                  Inl (Panic p) \<Rightarrow> Panics p
                | Inl (Err err) \<Rightarrow> Failed (InvalidPathElement elem err)
                | Inr keyValuePairs \<Rightarrow> Ok [XName (take i elem), XKeys keyValuePairs]))"

fun parseElements :: "string \<Rightarrow> string list \<Rightarrow> xelem list \<Rightarrow> (xpath_error, xelem list) result" where
  "parseElements stringPath [] path = Ok path"
| "parseElements stringPath (elem # elems) path =
     (case parseElement elem of
        Inl (Panic p) \<Rightarrow> Panics p
      | Inl (Err err) \<Rightarrow> Failed (InvalidStringPath stringPath err)
      | Inr parts \<Rightarrow> parseElements stringPath elems (path @ parts))"

definition ParseStringPath :: "string \<Rightarrow> (xpath_error, xelem list) result" where
  "ParseStringPath stringPath =
     (case splitPath stringPath of
        Inl x \<Rightarrow> Inl x
      | Inr elems \<Rightarrow> parseElements stringPath elems [])"

section \<open>The loops as recursions over the remaining bytes\<close>

text \<open>
  \<open>split_bytes esc ins cur rest\<close>: \<open>esc\<close> says whether the last byte was a backslash, \<open>ins\<close> is
  \<open>insideBrackets\<close>, \<open>cur\<close> the element read so far.
\<close>

definition split_next :: "bool \<Rightarrow> bool \<Rightarrow> char \<Rightarrow> bool" where
  "split_next esc ins c =
     (if c = CHR ''['' \<and> \<not> esc \<and> \<not> ins then True
      else if c = CHR '']'' \<and> \<not> esc \<and> ins then False else ins)"

fun split_bytes :: "bool \<Rightarrow> bool \<Rightarrow> string \<Rightarrow> string \<Rightarrow> string list \<times> bool" where
  "split_bytes esc ins cur [] = ([], ins)"
| "split_bytes esc ins cur (c # cs) =
     (if c = CHR ''/'' \<and> \<not> ins
      then (let (p, i) = split_bytes False False [] cs in (if cur = [] then p else cur # p, i))
      else split_bytes (c = CHR 0x5C) (split_next esc ins c) (cur @ [c]) cs)"

lemma splitPath_loop_bytes:
  assumes "bg \<le> en" "en \<le> length str"
  shows "splitPath_loop str path ins bg en =
    (let (p, i) = split_bytes (en \<noteq> 0 \<and> str ! (en - 1) = CHR 0x5C) ins (take (en - bg) (drop bg str)) (drop en str)
     in Ok (path @ p, i))"
  using assms
proof (induction str path ins bg en rule: splitPath_loop.induct)
  case (1 str path ins bg en)
  show ?case
  proof (cases "en < length str")
    case False
    then show ?thesis by (simp add: splitPath_loop.simps)
  next
    case True
    then have d: "drop en str = str ! en # drop (Suc en) str"
      by (simp add: Cons_nth_drop_Suc)
    have t: "take (Suc en - bg) (drop bg str) = take (en - bg) (drop bg str) @ [str ! en]"
      using 1 True by (intro take_drop_Suc) auto
    have cur: "take (en - bg) (drop bg str) = [] \<longleftrightarrow> \<not> bg < en"
      using 1 True by auto
    have sl: "slice str bg en = (Ok (take (en - bg) (drop bg str)) :: (xpath_error, string) result)"
      using 1 True by (simp add: slice_def)
    show ?thesis
      apply (subst splitPath_loop.simps)
      using 1 True d t cur sl
      by (auto simp: split_next_def split: prod.splits)
  qed
qed

fun kv_bytes :: "string \<Rightarrow> bool \<Rightarrow> int \<Rightarrow> string \<Rightarrow> (string, string) gomap \<Rightarrow> string
    \<Rightarrow> (xpath_error, (string, string) gomap \<times> bool) result" where
  "kv_bytes str esc n cur m [] = Ok (m, cur \<noteq> [])"
| "kv_bytes str esc n cur m (c # cs) =
     (if c = CHR ''['' then kv_bytes str False (if esc then n else n + 1) (cur @ [c]) m cs
      else if c = CHR '']'' \<and> \<not> esc then
        (if n - 1 \<le> 0 then
           (case parsePair (cur @ [c]) str of
              Inl x \<Rightarrow> Inl x
            | Inr (k, v) \<Rightarrow> kv_bytes str False (n - 1) [] (map_put k v m) cs)
         else kv_bytes str False (n - 1) (cur @ [c]) m cs)
      else kv_bytes str (c = CHR 0x5C) n (cur @ [c]) m cs)"

lemma parseKeyValue_loop_bytes:
  assumes "bg \<le> en" "en \<le> length str"
  shows "map_sum id (\<lambda>(m, b, e). (m, b < e)) (parseKeyValue_loop str m n bg en) =
    kv_bytes str (en \<noteq> 0 \<and> str ! (en - 1) = CHR 0x5C) n (take (en - bg) (drop bg str)) m (drop en str)"
  using assms
proof (induction "length str - en" arbitrary: m n bg en rule: less_induct)
  case (less en)
  show ?case
  proof (cases "en < length str")
    case False
    with less.prems show ?thesis by (auto simp: parseKeyValue_loop.simps)
  next
    case True
    define cur c rest e where "cur = take (en - bg) (drop bg str)" and "c = str ! en"
      and "rest = drop (Suc en) str" and "e = (en \<noteq> 0 \<and> str ! (en - 1) = CHR 0x5C)"
    note defs = this
    have d: "drop en str = c # rest"
      using True by (simp add: defs Cons_nth_drop_Suc)
    have t: "take (Suc en - bg) (drop bg str) = cur @ [c]"
      using less True unfolding defs by (intro take_drop_Suc) auto
    have sl: "slice str bg (Suc en) = (Ok (cur @ [c]) :: (xpath_error, string) result)"
      using less True t by (simp add: slice_def)
    have IH: "map_sum id (\<lambda>(m, b, e). (m, b < e)) (parseKeyValue_loop str m n bg (Suc en)) =
        kv_bytes str (c = CHR 0x5C) n (cur @ [c]) m rest" for m n
      using less.hyps [of "Suc en" bg m n] less.prems True t by (simp add: defs)
    have IH0: "map_sum id (\<lambda>(m, b, e). (m, b < e)) (parseKeyValue_loop str m n (Suc en) (Suc en)) =
        kv_bytes str (c = CHR 0x5C) n [] m rest" for m n
      using less.hyps [of "Suc en" "Suc en" m n] True by (simp add: defs)
    have esc: "en = 0 \<or> str ! (en - 1) \<noteq> CHR 0x5C \<longleftrightarrow> \<not> e"
      by (simp add: defs)
    have "map_sum id (\<lambda>(m, b, e). (m, b < e)) (parseKeyValue_loop str m n bg en) = kv_bytes str e n cur m (c # rest)"
      unfolding parseKeyValue_loop.simps [of str m n bg en] esc c_def [symmetric] sl
      using True IH IH0 by (cases "parsePair (cur @ [c]) str") (auto simp: IH IH0)
    then show ?thesis unfolding d by (simp add: defs)
  qed
qed

theorem splitPath_bytes:
  "splitPath s = (let (p, i) = split_bytes False False [] (s @ ''/'')
    in if i then Failed (MissingBracket (s @ ''/'')) else Ok p)"
  unfolding splitPath_def Let_def
  by (subst splitPath_loop_bytes) (auto split: prod.splits)

theorem parseKeyValueString_bytes:
  "parseKeyValueString s =
    (case kv_bytes s False 0 [] [] s of
       Inl x \<Rightarrow> Inl x
     | Inr (m, pending) \<Rightarrow> if pending then Failed (MalformedKeyValues s) else Ok m)"
proof -
  have "map_sum id (\<lambda>(m, b, e). (m, b < e)) (parseKeyValue_loop s [] 0 0 0) = kv_bytes s False 0 [] [] s"
    by (subst parseKeyValue_loop_bytes) auto
  then show ?thesis
    unfolding parseKeyValueString_def by (auto split: sum.splits prod.splits)
qed

section \<open>No run-time panic\<close>

lemma kvRe_shape:
  assumes "kvRe s"
  obtains k v where "s = CHR ''['' # k @ CHR ''='' # v @ '']''" "idRe k" "v \<noteq> []" "CHR ''='' \<notin> set k"
proof -
  from assms obtain c r i where s: "s = c # r" and c: "c = CHR ''[''" "r \<noteq> []" "last r = CHR '']''"
    and i: "IndexByte (butlast r) CHR ''='' = Some i" "idRe (take i (butlast r))" "Suc i < length (butlast r)"
    by (auto simp: kvRe_def split: list.splits option.splits)
  let ?b = "butlast r"
  from IndexByte_Some [OF i(1)] have b: "?b = take i ?b @ CHR ''='' # drop (Suc i) ?b"
    by (metis id_take_nth_drop)
  have r: "r = ?b @ '']''" using c by (metis append_butlast_last_id)
  show thesis
  proof (rule that)
    show "s = CHR ''['' # take i ?b @ CHR ''='' # drop (Suc i) ?b @ '']''"
      using s c(1) r b by (metis append_Cons append_assoc)
    show "idRe (take i ?b)" by (rule i(2))
    show "drop (Suc i) ?b \<noteq> []" using i(3) by simp
    show "CHR ''='' \<notin> set (take i ?b)" using IndexByte_Some [OF i(1)] by simp
  qed
qed

lemma parsePair_kv:
  assumes "idRe k" "v \<noteq> []" "CHR ''='' \<notin> set k"
  shows "parsePair (CHR ''['' # k @ CHR ''='' # v @ '']'') str = Ok (k, recoverBrackets v)"
proof -
  have bl: "butlast (k @ CHR ''='' # v @ '']'') = k @ CHR ''='' # v"
    by (simp add: butlast_append)
  have re: "kvRe (CHR ''['' # k @ CHR ''='' # v @ '']'')"
    using assms by (simp add: kvRe_def bl IndexByte_append)
  have sl: "slice (CHR ''['' # k @ CHR ''='' # v @ '']'') 1 (length (CHR ''['' # k @ CHR ''='' # v @ '']'') - 1)
      = (Ok (k @ CHR ''='' # v) :: (xpath_error, string) result)"
    by (simp add: slice_def)
  show ?thesis unfolding parsePair_def sl using re assms(3)
    by (simp add: IndexByte_append)
qed

lemma parsePair_no_panic: "no_panic (parsePair s str)"
proof (cases "kvRe s")
  case False
  then show ?thesis by (simp add: parsePair_def)
next
  case True
  then obtain k v where "s = CHR ''['' # k @ CHR ''='' # v @ '']''" "idRe k" "v \<noteq> []" "CHR ''='' \<notin> set k"
    by (rule kvRe_shape)
  then show ?thesis by (simp add: parsePair_kv)
qed

lemma kv_bytes_no_panic: "no_panic (kv_bytes str esc n cur m s)"
proof (induction s arbitrary: esc n cur m)
  case Nil
  show ?case by simp
next
  case (Cons c s)
  have "no_panic (parsePair (cur @ [c]) str)" by (rule parsePair_no_panic)
  with Cons show ?case
    unfolding no_panic_iff by (auto split: sum.splits)
qed

lemma parseKeyValueString_no_panic: "no_panic (parseKeyValueString s)"
  using kv_bytes_no_panic [of s False 0 "[]" "[]" s]
  unfolding no_panic_iff by (auto simp: parseKeyValueString_bytes split: sum.splits)

lemma parseElement_no_panic: "no_panic (parseElement e)"
proof -
  have "\<And>i p. parseKeyValueString (drop i e) \<noteq> Panics p"
    using parseKeyValueString_no_panic unfolding no_panic_iff by blast
  then show ?thesis
    unfolding parseElement_def no_panic_iff by (auto split: option.splits sum.splits exn.splits)
qed

lemma parseElements_no_panic: "no_panic (parseElements sp es path)"
proof (induction sp es path rule: parseElements.induct)
  case (2 sp e es path)
  with parseElement_no_panic [of e] show ?case
    by (auto split: sum.splits exn.splits simp: no_panic_def)
qed simp

section \<open>Splitting a printed path\<close>

text \<open>
  An element text is what \<open>splitPath\<close> keeps together: not empty, its brackets closed, no \<open>/\<close>
  outside them.
\<close>

fun elem_scan :: "bool \<Rightarrow> bool \<Rightarrow> string \<Rightarrow> (bool \<times> bool) option" where
  "elem_scan esc ins [] = Some (esc, ins)"
| "elem_scan esc ins (c # cs) =
     (if c = CHR ''/'' \<and> \<not> ins then None
      else elem_scan (c = CHR 0x5C) (split_next esc ins c) cs)"

definition elem_text :: "string \<Rightarrow> bool" where
  "elem_text e = (e \<noteq> [] \<and> map_option snd (elem_scan False False e) = Some False)"

abbreviation rooted :: "string list \<Rightarrow> string" where
  "rooted es \<equiv> concat (map (\<lambda>e. CHR ''/'' # e) es)"

lemma split_bytes_scan:
  "elem_scan esc ins s = Some (esc', ins') \<Longrightarrow>
     split_bytes esc ins cur (s @ rest) = split_bytes esc' ins' (cur @ s) rest"
  by (induction s arbitrary: esc ins cur) (auto split: if_splits)

lemma elem_scan_append:
  "elem_scan esc ins (s @ t) =
     (case elem_scan esc ins s of None \<Rightarrow> None | Some (e, i) \<Rightarrow> elem_scan e i t)"
  by (induction s arbitrary: esc ins) auto

lemma split_bytes_element:
  assumes "elem_text e"
  shows "split_bytes False False [] (e @ CHR ''/'' # rest) =
    (let (p, i) = split_bytes False False [] rest in (e # p, i))"
proof -
  from assms obtain esc where s: "elem_scan False False e = Some (esc, False)" and ne: "e \<noteq> []"
    by (auto simp: elem_text_def)
  have "split_bytes False False [] (e @ CHR ''/'' # rest) = split_bytes esc False e (CHR ''/'' # rest)"
    using split_bytes_scan [OF s, of "[]" "CHR ''/'' # rest"] by simp
  also have "\<dots> = (let (p, i) = split_bytes False False [] rest in (e # p, i))"
    using ne by simp
  finally show ?thesis .
qed

lemma split_bytes_rooted:
  "list_all elem_text es \<Longrightarrow> split_bytes False False [] (rooted es @ ''/'') = (es, False)"
proof (induction es)
  case Nil
  show ?case by simp
next
  case (Cons e es)
  show ?case
  proof (cases es)
    case Nil
    with Cons.prems show ?thesis using split_bytes_element [of e "[]"] by simp
  next
    case (Cons e' es')
    let ?r = "e' @ rooted es' @ ''/''"
    have "split_bytes False False [] ?r = (es, False)"
      using Cons.IH Cons.prems Cons by simp
    moreover have "split_bytes False False [] (e @ CHR ''/'' # ?r) =
        (let (p, i) = split_bytes False False [] ?r in (e # p, i))"
      using Cons.prems by (intro split_bytes_element) simp
    ultimately show ?thesis using Cons by simp
  qed
qed

lemma splitPath_rooted: "list_all elem_text es \<Longrightarrow> splitPath (rooted es) = Ok es"
  by (simp add: splitPath_bytes split_bytes_rooted)

lemma split_bytes_texts:
  assumes "split_bytes esc ins cur s = (p, False)" and "elem_scan False False cur = Some (esc, ins)"
  shows "list_all elem_text p"
  using assms
proof (induction esc ins cur s arbitrary: p rule: split_bytes.induct)
  case (1 esc ins cur)
  then show ?case by simp
next
  case (2 esc ins cur c cs)
  show ?case
  proof (cases "c = CHR ''/'' \<and> \<not> ins")
    case True
    obtain q i where q: "split_bytes False False [] cs = (q, i)" by (cases "split_bytes False False [] cs")
    with True "2.prems"(1) have i: "i = False" and p: "p = (if cur = [] then q else cur # q)"
      by auto
    have "list_all elem_text q" using "2.IH"(1) True q i by simp
    moreover have "cur \<noteq> [] \<Longrightarrow> elem_text cur" using "2.prems"(2) True by (simp add: elem_text_def)
    ultimately show ?thesis using p by simp
  next
    case False
    then have "split_bytes (c = CHR 0x5C) (split_next esc ins c) (cur @ [c]) cs = (p, False)"
      using "2.prems"(1) by (simp only: split_bytes.simps if_False)
    moreover have "elem_scan False False (cur @ [c]) = Some (c = CHR 0x5C, split_next esc ins c)"
      using "2.prems"(2) False by (simp add: elem_scan_append)
    ultimately show ?thesis using "2.IH"(2) False by blast
  qed
qed

lemma splitPath_texts: "splitPath s = Ok es \<Longrightarrow> list_all elem_text es"
  by (auto simp: splitPath_bytes split: prod.splits if_splits dest: split_bytes_texts)

section \<open>Parsing a printed list element\<close>

text \<open>The characters of identifiers are none of the separators.\<close>

lemma id_rest_not_special:
  assumes "id_rest c"
  shows "c \<noteq> CHR ''/''" "c \<noteq> CHR ''[''" "c \<noteq> CHR '']''" "c \<noteq> CHR ''=''" "c \<noteq> CHR 0x5C" "c \<noteq> CHR ''#''"
  using assms by (auto simp: id_rest_def id_first_def Let_def)

lemma idRe_chars: "idRe s \<Longrightarrow> list_all id_rest s \<and> s \<noteq> []"
  by (auto simp: idRe_def id_rest_def split: list.splits)

lemma idRe_not_special:
  assumes "idRe s"
  shows "CHR ''/'' \<notin> set s" "CHR ''['' \<notin> set s" "CHR '']'' \<notin> set s" "CHR ''='' \<notin> set s"
    "CHR 0x5C \<notin> set s" "CHR ''#'' \<notin> set s"
  using idRe_chars [OF assms] by (auto simp: list_all_iff dest: id_rest_not_special)

text \<open>A key value that needs no escape: not empty, no bracket, no backslash at its end.\<close>

definition plain_value :: "string \<Rightarrow> bool" where
  "plain_value v = (v \<noteq> [] \<and> CHR ''['' \<notin> set v \<and> CHR '']'' \<notin> set v \<and> last v \<noteq> CHR 0x5C)"

definition plain_keys :: "(string, string) gomap \<Rightarrow> bool" where
  "plain_keys m = (map_ok m \<and> list_all (\<lambda>(k, v). idRe k \<and> plain_value v) m)"

abbreviation pair_text :: "string \<times> string \<Rightarrow> string" where
  "pair_text kv \<equiv> CHR ''['' # fst kv @ CHR ''='' # snd kv @ '']''"

abbreviation keys_text :: "(string, string) gomap \<Rightarrow> string" where
  "keys_text m \<equiv> concat (map pair_text m)"

lemma recover_plain: "plain_value v \<Longrightarrow> recoverBrackets v = v"
  unfolding recoverBrackets_def plain_value_def
  by (simp add: ReplaceAll_absent_snd)

lemma kv_bytes_plain:
  assumes "CHR ''['' \<notin> set s" "CHR '']'' \<notin> set s"
  shows "kv_bytes str esc n cur m (s @ rest) =
    kv_bytes str (if s = [] then esc else last s = CHR 0x5C) n (cur @ s) m rest"
  using assms by (induction s arbitrary: esc cur) auto

lemma kv_bytes_pair:
  assumes "idRe k" "plain_value v"
  shows "kv_bytes str False 0 [] m (pair_text (k, v) @ rest) = kv_bytes str False 0 [] (map_put k v m) rest"
proof -
  let ?body = "k @ CHR ''='' # v"
  note k = idRe_not_special [OF assms(1)]
  have b: "CHR ''['' \<notin> set ?body" "CHR '']'' \<notin> set ?body"
    using k assms(2) by (auto simp: plain_value_def)
  have l: "?body \<noteq> []" "last ?body \<noteq> CHR 0x5C"
    using assms(2) by (auto simp: plain_value_def)
  have "kv_bytes str False 0 [] m (pair_text (k, v) @ rest) =
      kv_bytes str False 1 ''['' m (?body @ CHR '']'' # rest)"
    by simp
  also have "\<dots> = kv_bytes str False 1 (''['' @ ?body) m (CHR '']'' # rest)"
    using kv_bytes_plain [OF b, of str False 1 "''[''" m "CHR '']'' # rest"] l by simp
  also have "\<dots> = kv_bytes str False 0 [] (map_put k v m) rest"
    using parsePair_kv [of k v str] assms k(4) recover_plain [of v]
    by (simp add: plain_value_def)
  finally show ?thesis .
qed

lemma kv_bytes_keys:
  "list_all (\<lambda>(k, v). idRe k \<and> plain_value v) kvs \<Longrightarrow>
     kv_bytes str False 0 [] m (keys_text kvs) = Ok (fold (\<lambda>(k, v). map_put k v) kvs m, False)"
proof (induction kvs arbitrary: m)
  case Nil
  show ?case by simp
next
  case (Cons kv kvs)
  then have "kv_bytes str False 0 [] m (pair_text (fst kv, snd kv) @ keys_text kvs) =
      kv_bytes str False 0 [] (map_put (fst kv) (snd kv) m) (keys_text kvs)"
    by (intro kv_bytes_pair) (auto split: prod.splits)
  then show ?case using Cons by (simp add: case_prod_unfold)
qed

lemma fold_put_distinct:
  "distinct (map fst (m @ kvs)) \<Longrightarrow> fold (\<lambda>(k, v). map_put k v) kvs m = m @ kvs"
proof (induction kvs arbitrary: m)
  case Nil
  show ?case by simp
next
  case (Cons kv kvs)
  then have "map_put (fst kv) (snd kv) m = m @ [kv]"
    by (subst map_put_fresh) auto
  with Cons show ?case by (simp add: case_prod_unfold)
qed

lemma parseKeyValueString_keys: "plain_keys m \<Longrightarrow> parseKeyValueString (keys_text m) = Ok m"
  unfolding parseKeyValueString_bytes plain_keys_def map_ok_def
  by (auto simp: kv_bytes_keys fold_put_distinct)

lemma IndexByte_id_keys:
  assumes "idRe n" "m \<noteq> []"
  shows "IndexByte (n @ keys_text m) CHR ''['' = Some (length n)"
proof -
  obtain kv m' where "m = kv # m'" using assms(2) by (cases m) auto
  then show ?thesis
    using IndexByte_append [of "CHR ''[''" n] idRe_not_special(2) [OF assms(1)] by simp
qed

text \<open>What \<open>parseElement\<close> makes of a printed element.\<close>

lemma parseElement_name: "idRe n \<Longrightarrow> parseElement n = Ok [XName n]"
  by (simp add: parseElement_def IndexByte_None [THEN iffD2] idRe_not_special)

lemma parseElement_keys:
  "idRe n \<Longrightarrow> plain_keys m \<Longrightarrow> m \<noteq> [] \<Longrightarrow>
     parseElement (n @ keys_text m) = Ok [XName n, XKeys m]"
  by (simp add: parseElement_def IndexByte_id_keys parseKeyValueString_keys)

lemma elem_scan_plain:
  "list_all (\<lambda>c. c \<noteq> CHR ''/'' \<and> c \<noteq> CHR ''['' \<and> c \<noteq> CHR 0x5C) s \<Longrightarrow>
     elem_scan False False s = Some (False, False)"
  by (induction s) (auto simp: split_next_def)

lemma elem_scan_inside:
  "CHR '']'' \<notin> set s \<Longrightarrow>
     elem_scan esc True s = Some (if s = [] then esc else last s = CHR 0x5C, True)"
  by (induction s arbitrary: esc) (auto simp: split_next_def)

lemma elem_scan_pair:
  assumes "idRe k" "plain_value v"
  shows "elem_scan False False (pair_text (k, v)) = Some (False, False)"
proof -
  have b: "CHR '']'' \<notin> set (k @ CHR ''='' # v)"
    using idRe_not_special [OF assms(1)] assms(2) by (auto simp: plain_value_def)
  have "elem_scan False True ((k @ CHR ''='' # v) @ '']'') = Some (False, False)"
    unfolding elem_scan_append [of _ _ "k @ CHR ''='' # v"] elem_scan_inside [OF b]
    using assms(2) by (simp add: plain_value_def split_next_def)
  then show ?thesis by (simp add: split_next_def)
qed

lemma elem_scan_keys:
  "list_all (\<lambda>(k, v). idRe k \<and> plain_value v) m \<Longrightarrow>
     elem_scan False False (keys_text m) = Some (False, False)"
proof (induction m)
  case Nil
  show ?case by simp
next
  case (Cons kv m)
  have "elem_scan False False (pair_text (fst kv, snd kv)) = Some (False, False)"
    using Cons.prems by (intro elem_scan_pair) (auto split: prod.splits)
  moreover have "elem_scan False False (keys_text m) = Some (False, False)"
    using Cons by simp
  ultimately have "elem_scan False False (pair_text (fst kv, snd kv) @ keys_text m) = Some (False, False)"
    unfolding elem_scan_append by simp
  then show ?case by simp
qed

lemma elem_text_printed:
  assumes "idRe n" "plain_keys m"
  shows "elem_text (n @ keys_text m)"
proof -
  have "elem_scan False False n = Some (False, False)"
    using idRe_chars [OF assms(1)] id_rest_not_special
    by (intro elem_scan_plain) (auto simp: list_all_iff)
  then show ?thesis
    using assms idRe_chars [OF assms(1)] elem_scan_keys
    by (simp add: elem_text_def elem_scan_append plain_keys_def)
qed

end
