(* ===== verification/GnmiPath.thy ===== *)
theory GnmiPath
  imports XPath
begin

text \<open>
  gNMI paths: \<open>utilities/xpath/path.go\<close>. The protobuf message \<open>gnmipb.Path\<close> is a record; a pointer
  that may be nil is an \<open>option\<close>. A nil slice or map is the empty one: where the sources compare a
  path's \<open>Elem\<close>, \<open>Element\<close> or \<open>Key\<close> with nil, both branches give the same value on an empty one.
  \<open>proto.Clone\<close> is the parameter \<open>clone\<close>; its documented behaviour, a deep copy, is the identity on
  values and is the hypothesis \<open>clone_copies\<close>.
\<close>

section \<open>Messages\<close>

record pathElem =
  pe_Name :: string
  pe_Key :: "(string, string) gomap"

record gpath =
  p_Element :: "string list"
  p_Origin :: string
  p_Elem :: "pathElem list"
  p_Target :: string

definition empty_gpath :: gpath where
  "empty_gpath = \<lparr>p_Element = [], p_Origin = [], p_Elem = [], p_Target = []\<rparr>"

definition RootGNMIPath :: gpath where
  "RootGNMIPath = empty_gpath"

definition mkElem :: "string \<Rightarrow> (string, string) gomap \<Rightarrow> pathElem" where
  "mkElem n m = \<lparr>pe_Name = n, pe_Key = m\<rparr>"

definition WildcardGNMIPathDot3 :: gpath where
  "WildcardGNMIPathDot3 = empty_gpath\<lparr>p_Elem := [mkElem ''...'' []]\<rparr>"

definition WildcardGNMIPathAsterisk :: gpath where
  "WildcardGNMIPathAsterisk = empty_gpath\<lparr>p_Elem := [mkElem ''*'' []]\<rparr>"

text \<open>The generated getters: nil-safe.\<close>

definition GetElem :: "gpath option \<Rightarrow> pathElem list" where
  "GetElem p = (case p of None \<Rightarrow> [] | Some q \<Rightarrow> p_Elem q)"

definition GetElement :: "gpath option \<Rightarrow> string list" where
  "GetElement p = (case p of None \<Rightarrow> [] | Some q \<Rightarrow> p_Element q)"

lemma GetElem_simps [simp]: "GetElem None = []" "GetElem (Some q) = p_Elem q"
  by (simp_all add: GetElem_def)

lemma GetElement_simps [simp]: "GetElement None = []" "GetElement (Some q) = p_Element q"
  by (simp_all add: GetElement_def)

definition GNMIAliasPath :: "string \<Rightarrow> string \<Rightarrow> string \<Rightarrow> gpath" where
  "GNMIAliasPath name target origin =
     empty_gpath\<lparr>p_Target := target, p_Origin := origin, p_Elem := [mkElem name []]\<rparr>"

section \<open>Copying, merging, validating\<close>

definition clone_copies :: "(gpath \<Rightarrow> gpath) \<Rightarrow> bool" where
  "clone_copies clone = (\<forall>p. clone p = p)"

definition CloneGNMIPath :: "(gpath \<Rightarrow> gpath) \<Rightarrow> gpath option \<Rightarrow> gpath option" where
  "CloneGNMIPath clone src = map_option clone src"

definition UpdateGNMIPathElem :: "(gpath \<Rightarrow> gpath) \<Rightarrow> gpath option \<Rightarrow> gpath option \<Rightarrow> gpath option" where
  "UpdateGNMIPathElem clone target src =
     (case target of
        None \<Rightarrow> CloneGNMIPath clone src
      | Some t \<Rightarrow>
          (case src of
             None \<Rightarrow> Some t
           | Some _ \<Rightarrow> Some (t\<lparr>p_Elem := GetElem src\<rparr>)))"

text \<open>\<open>s[:i]\<close> for a signed \<open>i\<close>.\<close>

definition slice_to :: "'a list \<Rightarrow> int \<Rightarrow> ('e, 'a list) result" where
  "slice_to s i = (if 0 \<le> i \<and> i \<le> int (length s) then Ok (take (nat i) s)
                   else Panics SliceBoundsOutOfRange)"

text \<open>\<open>None\<close> is the nil slice that the guard \<open>max < 0\<close> returns.\<close>

fun mergePaths_loop :: "pathElem list \<Rightarrow> pathElem list \<Rightarrow> ('e, pathElem list option) result" where
  "mergePaths_loop mergedPath [] = Ok (Some mergedPath)"
| "mergePaths_loop mergedPath (elem # relativePathElem) =
     (if pe_Name elem = ''.'' then mergePaths_loop mergedPath relativePathElem
      else if pe_Name elem = ''..'' then
        (let max = int (length mergedPath) in
         if max < 0 then Ok None
         else (case slice_to mergedPath (max - 1) of
                 Inl x \<Rightarrow> Inl x
               | Inr m \<Rightarrow> mergePaths_loop m relativePathElem))
      else mergePaths_loop (mergedPath @ [elem]) relativePathElem)"

definition mergePaths :: "pathElem list \<Rightarrow> pathElem list \<Rightarrow> ('e, pathElem list option) result" where
  "mergePaths absPathElem relativePathElem = mergePaths_loop absPathElem relativePathElem"

definition GNMIFullPath :: "(gpath \<Rightarrow> gpath) \<Rightarrow> gpath option \<Rightarrow> gpath option \<Rightarrow> ('e, gpath option) result" where
  "GNMIFullPath clone prefix path =
     (case prefix of
        None \<Rightarrow> (case path of None \<Rightarrow> Ok (Some empty_gpath) | Some p \<Rightarrow> Ok (Some p))
      | Some pre \<Rightarrow>
          (let fullPath = clone pre;
               fullPath' = (if GetElement path \<noteq> []
                            then fullPath\<lparr>p_Element := p_Element pre @ GetElement path\<rparr> else fullPath)
           in if GetElem path \<noteq> [] then
                (case mergePaths (p_Elem pre) (GetElem path) of
                   Inl x \<Rightarrow> Inl x
                 | Inr None \<Rightarrow> Ok None
                 | Inr (Some es) \<Rightarrow> Ok (Some (fullPath'\<lparr>p_Elem := es\<rparr>)))
              else Ok (Some fullPath')))"

text \<open>One round of the loop of \<open>ValidateGNMIPath\<close> for the paths after the first.\<close>

definition deprecatedPath :: "gpath option \<Rightarrow> bool" where
  "deprecatedPath p = (GetElem p = [] \<and> GetElement p \<noteq> [])"

fun validateRest :: "(gpath \<Rightarrow> gpath) \<Rightarrow> gpath option \<Rightarrow> gpath option list
    \<Rightarrow> (xpath_error, gpath option) result" where
  "validateRest clone p [] = Ok p"
| "validateRest clone p (q # path) =
     (if deprecatedPath q then Failed DeprecatedElement
      else (case q of
              None \<Rightarrow> Panics NilDereference
            | Some q' \<Rightarrow>
                if p_Target q' \<noteq> [] then Failed TargetOutsidePrefix
                else (case GNMIFullPath clone p q of
                        Inl x \<Rightarrow> Inl x
                      | Inr p' \<Rightarrow> validateRest clone p' path)))"

definition ValidateGNMIPath :: "(gpath \<Rightarrow> gpath) \<Rightarrow> gpath option list \<Rightarrow> (xpath_error, gpath option) result" where
  "ValidateGNMIPath clone path =
     (case path of
        [] \<Rightarrow> Failed NoInputPath
      | p0 # rest \<Rightarrow>
          if deprecatedPath p0 then Failed DeprecatedElement
          else validateRest clone (CloneGNMIPath clone p0) rest)"

section \<open>Schema paths\<close>

definition IsSchemaPath :: "gpath option \<Rightarrow> bool" where
  "IsSchemaPath path =
     (case path of
        None \<Rightarrow> True
      | Some p \<Rightarrow> list_all (\<lambda>e. list_all (\<lambda>(k, v). v = ''*'') (pe_Key e)) (p_Elem p))"

section \<open>Parsing and printing\<close>

fun pbPathElements :: "pathElem list \<Rightarrow> xelem list \<Rightarrow> (xpath_error, pathElem list) result" where
  "pbPathElements es [] = Ok es"
| "pbPathElements es (XName v # xs) = pbPathElements (es @ [mkElem v []]) xs"
| "pbPathElements es (XKeys v # xs) =
     (if length es = 0 then Failed MissingNameBeforeKeys
      else if pe_Key (last es) \<noteq> [] then Failed TwoSubsequentKeys
      else pbPathElements (butlast es @ [(last es)\<lparr>pe_Key := v\<rparr>]) xs)"

definition ToGNMIPath :: "string \<Rightarrow> (xpath_error, gpath) result" where
  "ToGNMIPath xpath =
     (case ParseStringPath xpath of
        Inl x \<Rightarrow> Inl x
      | Inr xpathElements \<Rightarrow>
          (case pbPathElements [] xpathElements of
             Inl x \<Rightarrow> Inl x
           | Inr es \<Rightarrow> Ok (empty_gpath\<lparr>p_Elem := es\<rparr>)))"

fun schemaElements :: "string list \<Rightarrow> xelem list \<Rightarrow> string list" where
  "schemaElements acc [] = acc"
| "schemaElements acc (XName v # xs) = schemaElements (acc @ [v]) xs"
| "schemaElements acc (XKeys v # xs) = schemaElements acc xs"

definition ToSchemaPath :: "string \<Rightarrow> (xpath_error, string) result" where
  "ToSchemaPath xpath =
     (case ParseStringPath xpath of
        Inl x \<Rightarrow> Inl x
      | Inr xpathElements \<Rightarrow> Ok (Join (schemaElements [[]] xpathElements) ''/''))"

text \<open>\<open>None\<close> is the nil slice returned with \<open>false\<close> on a parse error.\<close>

fun schemaSlice :: "string list \<Rightarrow> bool \<Rightarrow> string list \<Rightarrow> ('e, string list option \<times> bool) result" where
  "schemaSlice acc isEqual [] = Ok (Some acc, isEqual)"
| "schemaSlice acc isEqual (x # xs) =
     (case ParseStringPath x of
        Inl (Panic p) \<Rightarrow> Panics p
      | Inl (Err _) \<Rightarrow> Ok (None, False)
      | Inr xpathElements \<Rightarrow>
          schemaSlice (schemaElements acc xpathElements)
            (if list_ex (\<lambda>e. case e of XKeys _ \<Rightarrow> True | XName _ \<Rightarrow> False) xpathElements
             then False else isEqual) xs)"

definition ToSchemaSlicePath :: "string list \<Rightarrow> ('e, string list option \<times> bool) result" where
  "ToSchemaSlicePath xpath = schemaSlice [] True xpath"

text \<open>\<open>ToXPath\<close> and \<open>PathElemToXPATH\<close> print an element in the same way.\<close>

definition elemXPath :: "pathElem \<Rightarrow> string" where
  "elemXPath e =
     (if pe_Key e \<noteq> []
      then Join (pe_Name e # map (\<lambda>(k, kv). ''['' @ k @ ''='' @ kv @ '']'') (pe_Key e)) []
      else pe_Name e)"

definition ToXPath :: "gpath option \<Rightarrow> string" where
  "ToXPath p =
     (case p of
        None \<Rightarrow> []
      | Some q \<Rightarrow>
          (let pe = [] # map elemXPath (p_Elem q) in
           if length pe = 0 then Join (p_Element q) ''/'' else Join pe ''/''))"

definition PathElemToXPATH :: "pathElem list \<Rightarrow> bool \<Rightarrow> string" where
  "PathElemToXPATH elem schemaPath =
     (if elem = [] then []
      else if schemaPath then Join ([] # map pe_Name elem) ''/''
      else Join ([] # map elemXPath elem) ''/'')"

fun slicePathElements :: "pathElem list \<Rightarrow> string list \<Rightarrow> (xpath_error, pathElem list) result" where
  "slicePathElements es [] = Ok es"
| "slicePathElements es (pelem # path) =
     (case ParseStringPath pelem of
        Inl x \<Rightarrow> Inl x
      | Inr xpathElements \<Rightarrow>
          (case pbPathElements es xpathElements of
             Inl x \<Rightarrow> Inl x
           | Inr es' \<Rightarrow> slicePathElements es' path))"

definition SlicePathToGNMIPath :: "string list \<Rightarrow> (xpath_error, gpath) result" where
  "SlicePathToGNMIPath path =
     (case slicePathElements [] path of
        Inl x \<Rightarrow> Inl x
      | Inr es \<Rightarrow> Ok (empty_gpath\<lparr>p_Elem := es\<rparr>))"

section \<open>Printing and parsing are inverse\<close>

text \<open>An element that prints to a text the parser reads back.\<close>

definition plain_elem :: "pathElem \<Rightarrow> bool" where
  "plain_elem e = (idRe (pe_Name e) \<and> plain_keys (pe_Key e))"

definition elem_xelems :: "pathElem \<Rightarrow> xelem list" where
  "elem_xelems e = (if pe_Key e = [] then [XName (pe_Name e)] else [XName (pe_Name e), XKeys (pe_Key e)])"

lemma elemXPath_keys_text: "elemXPath e = pe_Name e @ keys_text (pe_Key e)"
  by (cases "pe_Key e") (auto simp: elemXPath_def Join_empty_sep Join_cons case_prod_unfold)

lemma ToXPath_rooted: "ToXPath (Some p) = rooted (map elemXPath (p_Elem p))"
  by (simp add: ToXPath_def Join_rooted comp_def del: Join.simps)

lemma PathElemToXPATH_rooted:
  "PathElemToXPATH es False = rooted (map elemXPath es)"
  "PathElemToXPATH es True = rooted (map pe_Name es)"
  by (cases es; simp add: PathElemToXPATH_def Join_rooted comp_def del: Join.simps)+

lemma plain_elem_text: "plain_elem e \<Longrightarrow> elem_text (elemXPath e)"
  by (simp add: plain_elem_def elemXPath_keys_text elem_text_printed)

lemma parseElement_plain:
  assumes "plain_elem e"
  shows "parseElement (elemXPath e) = Ok (elem_xelems e)"
proof (cases "pe_Key e = []")
  case True
  with assms show ?thesis
    by (simp add: plain_elem_def elemXPath_keys_text elem_xelems_def parseElement_name)
next
  case False
  with assms show ?thesis
    using parseElement_keys [of "pe_Name e" "pe_Key e"]
    by (simp add: plain_elem_def elemXPath_keys_text elem_xelems_def)
qed

lemma parseElements_plain:
  "list_all plain_elem es \<Longrightarrow>
     parseElements sp (map elemXPath es) path = Ok (path @ concat (map elem_xelems es))"
  by (induction es arbitrary: path) (auto simp: parseElement_plain)

lemma ParseStringPath_plain:
  assumes "list_all plain_elem es"
  shows "ParseStringPath (rooted (map elemXPath es)) = Ok (concat (map elem_xelems es))"
proof -
  have "list_all elem_text (map elemXPath es)"
    using assms by (auto simp: list_all_iff plain_elem_text)
  then have "splitPath (rooted (map elemXPath es)) = Ok (map elemXPath es)"
    by (rule splitPath_rooted)
  then show ?thesis
    using parseElements_plain [OF assms, of "rooted (map elemXPath es)" "[]"]
    by (simp add: ParseStringPath_def)
qed

lemma pbPathElements_plain:
  "pbPathElements acc (concat (map elem_xelems es)) = Ok (acc @ es)"
proof (induction es arbitrary: acc)
  case Nil
  show ?case by simp
next
  case (Cons e es)
  have e: "mkElem (pe_Name e) (pe_Key e) = e" by (simp add: mkElem_def)
  show ?case
  proof (cases "pe_Key e = []")
    case True
    then show ?thesis using Cons [of "acc @ [e]"] e by (simp add: elem_xelems_def)
  next
    case False
    have "pbPathElements acc (concat (map elem_xelems (e # es))) =
        pbPathElements (acc @ [e]) (concat (map elem_xelems es))"
      using False by (cases e) (simp add: elem_xelems_def mkElem_def)
    then show ?thesis using Cons [of "acc @ [e]"] by simp
  qed
qed

lemma schemaElements_plain:
  "schemaElements acc (concat (map elem_xelems es)) = acc @ map pe_Name es"
  by (induction es arbitrary: acc) (auto simp: elem_xelems_def)

lemma ToGNMIPath_rooted:
  "list_all plain_elem es \<Longrightarrow> ToGNMIPath (rooted (map elemXPath es)) = Ok (empty_gpath\<lparr>p_Elem := es\<rparr>)"
  by (simp only: ToGNMIPath_def ParseStringPath_plain pbPathElements_plain sum.case append_Nil)

section \<open>Merging\<close>

text \<open>The depth a relative path reaches below its starting point, element by element.\<close>

fun lowest :: "int \<Rightarrow> pathElem list \<Rightarrow> int" where
  "lowest d [] = d"
| "lowest d (e # es) =
     (if pe_Name e = ''.'' then min d (lowest d es)
      else if pe_Name e = ''..'' then min d (lowest (d - 1) es)
      else min d (lowest (d + 1) es))"

lemma lowest_le: "lowest d es \<le> d"
  by (cases es) auto

lemma mergePaths_loop_panics:
  "mergePaths_loop m es = Panics SliceBoundsOutOfRange \<longleftrightarrow> lowest (int (length m)) es < 0"
proof (induction es arbitrary: m)
  case Nil
  show ?case by simp
next
  case (Cons e es)
  show ?case
  proof (cases "pe_Name e = ''..''")
    case False
    then show ?thesis using Cons [of m] Cons [of "m @ [e]"] by (auto simp: min_def add.commute)
  next
    case True
    show ?thesis
    proof (cases m rule: rev_cases)
      case Nil
      with True show ?thesis using lowest_le [of "- 1" es] by (simp add: slice_to_def)
    next
      case (snoc m' x)
      with True Cons [of m'] show ?thesis
        by (auto simp: slice_to_def min_def nat_add_distrib)
    qed
  qed
qed

lemma mergePaths_loop_not_nil: "mergePaths_loop m es \<noteq> Ok None"
  by (induction es arbitrary: m) (auto simp: slice_to_def)

lemma mergePaths_loop_ok:
  "(\<exists>es'. mergePaths_loop m es = Ok (Some es')) \<longleftrightarrow> 0 \<le> lowest (int (length m)) es"
proof (induction es arbitrary: m)
  case Nil
  show ?case by simp
next
  case (Cons e es)
  show ?case
  proof (cases "pe_Name e = ''..''")
    case False
    then show ?thesis using Cons [of m] Cons [of "m @ [e]"] by (auto simp: min_def add.commute)
  next
    case True
    show ?thesis
    proof (cases m rule: rev_cases)
      case Nil
      with True show ?thesis using lowest_le [of "- 1" es] by (simp add: slice_to_def)
    next
      case (snoc m' x)
      with True Cons [of m'] show ?thesis
        by (auto simp: slice_to_def min_def nat_add_distrib)
    qed
  qed
qed

definition no_dots :: "pathElem list \<Rightarrow> bool" where
  "no_dots es = list_all (\<lambda>e. pe_Name e \<noteq> ''.'' \<and> pe_Name e \<noteq> ''..'') es"

lemma mergePaths_no_dots: "no_dots es \<Longrightarrow> mergePaths m es = Ok (Some (m @ es))"
proof -
  have "no_dots es \<Longrightarrow> mergePaths_loop m es = Ok (Some (m @ es))"
    by (induction es arbitrary: m) (auto simp: no_dots_def)
  then show "no_dots es \<Longrightarrow> mergePaths m es = Ok (Some (m @ es))"
    by (simp add: mergePaths_def)
qed

lemma GNMIFullPath_elems:
  assumes "clone_copies clone" "no_dots (p_Elem p)"
  shows "\<exists>q. GNMIFullPath clone (Some pre) (Some p) = Ok (Some q) \<and> p_Elem q = p_Elem pre @ p_Elem p
    \<and> p_Target q = p_Target pre \<and> p_Origin q = p_Origin pre"
  using assms by (auto simp: GNMIFullPath_def clone_copies_def Let_def mergePaths_no_dots)

section \<open>Brackets in key values\<close>

lemma ToGNMIPath_single:
  assumes "elem_text t" "parseElement t = Failed err"
  shows "ToGNMIPath (rooted [t]) = Failed (InvalidStringPath (rooted [t]) err)"
proof -
  have "splitPath (rooted [t]) = Ok [t]" using assms(1) by (intro splitPath_rooted) simp
  then show ?thesis using assms(2) by (simp add: ToGNMIPath_def ParseStringPath_def)
qed

lemma parseElement_bad_keys:
  assumes "idRe n" "parseKeyValueString (CHR ''['' # r) = Failed err"
  shows "parseElement (n @ CHR ''['' # r) = Failed (InvalidPathElement (n @ CHR ''['' # r) err)"
  using assms IndexByte_append [of "CHR ''[''" n r] idRe_not_special(2) [OF assms(1)]
  by (simp add: parseElement_def)

text \<open>A value with an unescaped \<open>[\<close> leaves the scan of the pairs one bracket deep.\<close>

lemma open_bracket_value:
  assumes "idRe k" "CHR ''['' \<notin> set a" "CHR '']'' \<notin> set a" "a = [] \<or> last a \<noteq> CHR 0x5C"
    and "CHR ''['' \<notin> set b" "CHR '']'' \<notin> set b" "b = [] \<or> last b \<noteq> CHR 0x5C"
  shows "parseKeyValueString (pair_text (k, a @ CHR ''['' # b)) =
    Failed (MalformedKeyValues (pair_text (k, a @ CHR ''['' # b)))"
proof -
  let ?s = "pair_text (k, a @ CHR ''['' # b)"
  let ?p = "k @ CHR ''='' # a"
  have p: "CHR ''['' \<notin> set ?p" "CHR '']'' \<notin> set ?p" "?p \<noteq> []" "last ?p \<noteq> CHR 0x5C"
    using idRe_not_special [OF assms(1)] assms(2-4) by (auto simp: last_append)
  have "kv_bytes ?s False 0 [] [] ?s = kv_bytes ?s False 1 ''['' [] (?p @ CHR ''['' # b @ '']'')"
    by simp
  also have "\<dots> = kv_bytes ?s False 1 (''['' @ ?p) [] (CHR ''['' # b @ '']'')"
    using kv_bytes_plain [OF p(1,2), of ?s False 1 "''[''" "[]" "CHR ''['' # b @ '']''"] p(3,4) by simp
  also have "\<dots> = kv_bytes ?s False 2 (''['' @ ?p @ ''['') [] (b @ '']'')"
    by simp
  also have "\<dots> = kv_bytes ?s False 2 (''['' @ ?p @ ''['' @ b) [] '']''"
    using kv_bytes_plain [OF assms(5,6), of ?s False 2 "''['' @ ?p @ ''[''" "[]" "'']''"] assms(7)
    by (auto simp: split: if_splits)
  also have "\<dots> = Ok ([], True)" by simp
  finally show ?thesis by (simp add: parseKeyValueString_bytes)
qed

lemma elem_text_open_bracket:
  assumes "idRe n" "CHR '']'' \<notin> set r" "r \<noteq> []" "last r \<noteq> CHR 0x5C"
  shows "elem_text (n @ CHR ''['' # r @ '']'')"
proof -
  have "elem_scan False False n = Some (False, False)"
    using idRe_chars [OF assms(1)] by (intro elem_scan_plain) (auto simp: list_all_iff dest: id_rest_not_special)
  moreover have "elem_scan False True (r @ '']'') = Some (False, False)"
    unfolding elem_scan_append elem_scan_inside [OF assms(2)] using assms(3,4) by (simp add: split_next_def)
  ultimately show ?thesis
    by (simp add: elem_text_def elem_scan_append split_next_def)
qed

section \<open>Properties\<close>

text \<open>C1: Printing a gNMI path as an xpath string and parsing it back gives the same path, for every
  path whose names are YANG identifiers and whose key values need no escape.\<close>

theorem xpath_roundtrip:
  assumes "list_all plain_elem (p_Elem p)" and "p_Element p = []" "p_Origin p = []" "p_Target p = []"
  shows "ToGNMIPath (ToXPath (Some p)) = Ok p"
proof -
  have "empty_gpath\<lparr>p_Elem := p_Elem p\<rparr> = p" using assms(2-4) by (simp add: empty_gpath_def)
  then show ?thesis using assms(1) ToGNMIPath_rooted [of "p_Elem p"] by (simp add: ToXPath_rooted)
qed

theorem xpath_roundtrip_witness:
  "ToGNMIPath (ToXPath (Some (empty_gpath\<lparr>p_Elem := [mkElem ''interface'' [(''name'', ''eth1/1'')], mkElem ''state'' []]\<rparr>)))
    = Ok (empty_gpath\<lparr>p_Elem := [mkElem ''interface'' [(''name'', ''eth1/1'')], mkElem ''state'' []]\<rparr>)"
  by (rule xpath_roundtrip)
    (simp_all add: mkElem_def empty_gpath_def plain_elem_def plain_keys_def plain_value_def map_ok_def
      idRe_def id_first_def id_rest_def)

lemma ParseStringPath_safe: "no_panic (ParseStringPath s)"
proof -
  have "no_panic (splitPath s)"
    by (auto simp: splitPath_bytes split: prod.splits)
  then show ?thesis
    using parseElements_no_panic by (auto simp: ParseStringPath_def no_panic_iff split: sum.splits)
qed

lemma pbPathElements_safe: "no_panic (pbPathElements es xs)"
  by (induction es xs rule: pbPathElements.induct) auto

lemma ToGNMIPath_safe: "no_panic (ToGNMIPath s)"
  using ParseStringPath_safe [of s] pbPathElements_safe
  by (auto simp: ToGNMIPath_def no_panic_iff split: sum.splits)

lemma ToGNMIPath_total: "ToGNMIPath s \<noteq> Panics p"
  using ToGNMIPath_safe [of s] by (auto simp: no_panic_iff)

text \<open>C2: No input string makes the xpath parser go out of the bounds of a slice: parsing always ends
  in a path or in an error value.\<close>

theorem ToGNMIPath_no_panic: "no_panic (ParseStringPath s) \<and> no_panic (ToGNMIPath s)"
  using ParseStringPath_safe ToGNMIPath_safe by blast

text \<open>\<open>splitPath\<close> is stable: the elements it finds, printed with one separator each, split into
  themselves; duplicate and trailing separators of the input are gone.\<close>

lemma splitPath_stable:
  "splitPath s = Ok es \<Longrightarrow> splitPath (rooted es) = Ok es \<and> [] \<notin> set es"
  using splitPath_texts [of s es] splitPath_rooted [of es]
  by (auto simp: list_all_iff elem_text_def)

lemma splitPath_stable_witness:
  "splitPath ''//a/b[k=1/2]//c/'' = Ok [''a'', ''b[k=1/2]'', ''c'']
     \<and> splitPath (rooted [''a'', ''b[k=1/2]'', ''c'']) = Ok [''a'', ''b[k=1/2]'', ''c'']"
proof -
  have "splitPath ''//a/b[k=1/2]//c/'' = Ok [''a'', ''b[k=1/2]'', ''c'']"
    by (simp add: splitPath_bytes split_next_def)
  then show ?thesis using splitPath_stable by blast
qed

text \<open>Merging a relative path onto an absolute one panics exactly when some prefix of the relative
  path climbs with \<open>..\<close> above the root; the guard \<open>max < 0\<close> never catches it.\<close>

lemma mergePaths_panics_iff:
  "(mergePaths base rel = Panics SliceBoundsOutOfRange \<longleftrightarrow> lowest (int (length base)) rel < 0)
   \<and> (0 \<le> lowest (int (length base)) rel \<longleftrightarrow> (\<exists>es. mergePaths base rel = Ok (Some es)))
   \<and> mergePaths base rel \<noteq> Ok None"
  by (simp add: mergePaths_def mergePaths_loop_panics mergePaths_loop_ok mergePaths_loop_not_nil)

text \<open>With a prefix and one path that has no \<open>.\<close> or \<open>..\<close> element, no target and no deprecated
  field, validation succeeds and yields the prefix extended by the path's elements; a path that
  carries a target is rejected and a nil path after the prefix is a nil dereference.\<close>

lemma ValidateGNMIPath_prefix_path:
  assumes "clone_copies clone" "\<not> deprecatedPath (Some pre)" "\<not> deprecatedPath (Some p)"
  shows "(p_Target p = [] \<and> no_dots (p_Elem p) \<longrightarrow>
      (\<exists>q. ValidateGNMIPath clone [Some pre, Some p] = Ok (Some q) \<and> p_Elem q = p_Elem pre @ p_Elem p
        \<and> p_Target q = p_Target pre \<and> p_Origin q = p_Origin pre))
    \<and> (p_Target p \<noteq> [] \<longrightarrow> ValidateGNMIPath clone [Some pre, Some p] = Failed TargetOutsidePrefix)
    \<and> ValidateGNMIPath clone [Some pre, None] = Panics NilDereference"
proof -
  have c: "clone pre = pre" using assms(1) by (simp add: clone_copies_def)
  have n: "\<not> deprecatedPath None" by (simp add: deprecatedPath_def)
  have v: "p_Target p = [] \<Longrightarrow> ValidateGNMIPath clone [Some pre, Some p] = GNMIFullPath clone (Some pre) (Some p)"
    using assms(2,3) c by (simp add: ValidateGNMIPath_def CloneGNMIPath_def split: sum.splits)
  have "p_Target p \<noteq> [] \<Longrightarrow> ValidateGNMIPath clone [Some pre, Some p] = Failed TargetOutsidePrefix"
    using assms(2,3) by (simp add: ValidateGNMIPath_def)
  moreover have "ValidateGNMIPath clone [Some pre, None] = Panics NilDereference"
    using assms(2) n by (simp add: ValidateGNMIPath_def)
  ultimately show ?thesis
    using v GNMIFullPath_elems [OF assms(1), of p pre, where 'a = xpath_error] by simp
qed

lemma ValidateGNMIPath_prefix_path_witness:
  "(\<exists>q. ValidateGNMIPath id [Some empty_gpath, Some (empty_gpath\<lparr>p_Elem := [mkElem ''a'' []]\<rparr>)] = Ok (Some q)
      \<and> p_Elem q = [mkElem ''a'' []] \<and> p_Target q = [])
   \<and> ValidateGNMIPath id [Some empty_gpath, None] = Panics NilDereference"
  using ValidateGNMIPath_prefix_path [of id empty_gpath "empty_gpath\<lparr>p_Elem := [mkElem ''a'' []]\<rparr>"]
  by (auto simp: clone_copies_def deprecatedPath_def empty_gpath_def no_dots_def mkElem_def)

text \<open>A key value with an unescaped \<open>[\<close> prints to a string that the parser rejects, although
  \<open>splitPath\<close> accepts the bracket: printing does not escape, and the pair scanner counts it.\<close>

lemma open_bracket_not_parsed:
  assumes "idRe n" "idRe k" "CHR ''['' \<notin> set (a @ b)" "CHR '']'' \<notin> set (a @ b)"
    and "CHR 0x5C \<notin> set (a @ b)"
  shows "\<exists>e. ToGNMIPath (ToXPath (Some (empty_gpath\<lparr>p_Elem := [mkElem n [(k, a @ CHR ''['' # b)]]\<rparr>))) = Failed e
    \<and> splitPath (ToXPath (Some (empty_gpath\<lparr>p_Elem := [mkElem n [(k, a @ CHR ''['' # b)]]\<rparr>)))
        = Ok [n @ pair_text (k, a @ CHR ''['' # b)]"
proof -
  let ?r = "k @ CHR ''='' # a @ CHR ''['' # b"
  let ?t = "n @ CHR ''['' # ?r @ '']''"
  have lb: "a = [] \<or> last a \<noteq> CHR 0x5C" "b = [] \<or> last b \<noteq> CHR 0x5C"
    using assms(5) last_in_set by fastforce+
  have lr: "last ?r \<noteq> CHR 0x5C" using lb by (auto simp: last_append)
  have r: "CHR '']'' \<notin> set ?r" using assms idRe_not_special [OF assms(2)] by auto
  have t: "elem_text ?t" using assms(1) r lr by (intro elem_text_open_bracket) auto
  have "parseKeyValueString (CHR ''['' # ?r @ '']'') = Failed (MalformedKeyValues (CHR ''['' # ?r @ '']''))"
    using open_bracket_value [of k a b] assms lb by simp
  then have p: "parseElement ?t = Failed (InvalidPathElement ?t (MalformedKeyValues (CHR ''['' # ?r @ '']'')))"
    using parseElement_bad_keys [OF assms(1)] by simp
  have x: "ToXPath (Some (empty_gpath\<lparr>p_Elem := [mkElem n [(k, a @ CHR ''['' # b)]]\<rparr>)) = rooted [?t]"
    by (simp add: ToXPath_rooted elemXPath_keys_text mkElem_def)
  have "splitPath (rooted [?t]) = Ok [?t]" using t by (intro splitPath_rooted) simp
  then show ?thesis unfolding x using ToGNMIPath_single [OF t p] by simp
qed

lemma open_bracket_not_parsed_witness:
  "\<exists>e. ToGNMIPath (ToXPath (Some (empty_gpath\<lparr>p_Elem := [mkElem ''list'' [(''k'', ''x'' @ CHR ''['' # ''y'')]]\<rparr>))) = Failed e"
  using open_bracket_not_parsed [of "''list''" "''k''" "''x''" "''y''"]
  by (auto simp: idRe_def id_first_def id_rest_def)

end
