(* ===== verification/Status.thy ===== *)
theory Status
  imports GoStrings
begin

text \<open>
  The error package \<open>utilities/status/status.go\<close>. An \<open>error\<close> interface value is an \<open>goerror option\<close>
  (\<open>None\<close> is the nil interface); \<open>StatusErr None\<close> is the non-nil interface that holds a nil
  \<open>*Status\<close>. Functions that write through the pointer return the error as they leave it.
\<close>

section \<open>Codes, tags, errors\<close>

text \<open>The gRPC codes the sources name.\<close>

datatype code =
    OK | Canceled | Unknown | InvalidArgument | DeadlineExceeded | NotFound | AlreadyExists
  | Aborted | OutOfRange | Unimplemented | Internal

type_synonym ErrorTag = int

definition TagUnknown :: ErrorTag where "TagUnknown = 0"
definition TagMissingPath :: ErrorTag where "TagMissingPath = 1"
definition TagInvalidPath :: ErrorTag where "TagInvalidPath = 2"
definition TagUnknownPath :: ErrorTag where "TagUnknownPath = 3"
definition TagInvalidAlias :: ErrorTag where "TagInvalidAlias = 4"
definition TagDataMissing :: ErrorTag where "TagDataMissing = 5"
definition TagBadData :: ErrorTag where "TagBadData = 6"
definition TagNotSupport :: ErrorTag where "TagNotSupport = 7"
definition TagOperationFail :: ErrorTag where "TagOperationFail = 8"
definition TagMalformedMessage :: ErrorTag where "TagMalformedMessage = 9"
definition TagInvalidConfig :: ErrorTag where "TagInvalidConfig = 10"
definition TagInvalidSession :: ErrorTag where "TagInvalidSession = 11"
definition tagMax :: ErrorTag where "tagMax = 12"

lemmas tag_defs = TagUnknown_def TagMissingPath_def TagInvalidPath_def TagUnknownPath_def TagInvalidAlias_def
  TagDataMissing_def TagBadData_def TagNotSupport_def TagOperationFail_def TagMalformedMessage_def
  TagInvalidConfig_def TagInvalidSession_def tagMax_def

definition tagStr :: "(ErrorTag, string) gomap" where
  "tagStr =
     [(TagMissingPath, ''missing-path''),
      (TagInvalidPath, ''invalid-path''),
      (TagUnknownPath, ''unknown-path''),
      (TagInvalidAlias, ''invalid-path''),
      (TagDataMissing, ''data-missing''),
      (TagBadData, ''bad-data''),
      (TagNotSupport, ''not-support''),
      (TagOperationFail, ''operation-fail''),
      (TagMalformedMessage, ''malformed-message''),
      (TagInvalidConfig, ''invalid-config''),
      (TagInvalidSession, ''invalid-session'')]"

definition ErrorTag_String :: "ErrorTag \<Rightarrow> string" where
  "ErrorTag_String t = (case map_get tagStr t of Some s \<Rightarrow> s | None \<Rightarrow> ''unknown-error'')"

record status =
  s_Code :: code
  s_Message :: string
  s_Tag :: ErrorTag
  s_Reason :: string
  s_Domain :: string
  s_Path :: string
  s_SubError :: "string list"
  s_badRequest :: "string option"

text \<open>
  The dynamic types an \<open>error\<close> can have for this package: its own pointer, another type with a
  \<open>GRPCStatus\<close> method (of which the code and the message are read), the two context errors, any
  other error with its text.
\<close>

datatype goerror =
    StatusErr "status option"
  | GrpcErr code string
  | CtxDeadlineExceeded string
  | CtxCanceled string
  | PlainErr string

fun error_text :: "goerror \<Rightarrow> string" where
  "error_text (StatusErr None) = []"
| "error_text (StatusErr (Some s)) = ''['' @ ErrorTag_String (s_Tag s) @ ''] '' @ s_Message s"
| "error_text (GrpcErr c m) = m"
| "error_text (CtxDeadlineExceeded m) = m"
| "error_text (CtxCanceled m) = m"
| "error_text (PlainErr m) = m"

section \<open>Making a status\<close>

definition New :: "code \<Rightarrow> ErrorTag \<Rightarrow> string \<Rightarrow> status" where
  "New c tag msg =
     \<lparr>s_Code = c, s_Message = msg, s_Tag = tag, s_Reason = [], s_Domain = [], s_Path = [],
      s_SubError = [], s_badRequest = None\<rparr>"

text \<open>\<open>msg\<close> is the formatted text in the three \<open>f\<close> variants.\<close>

definition Newf :: "code \<Rightarrow> ErrorTag \<Rightarrow> string \<Rightarrow> status" where
  "Newf c tag msg = New c tag msg"

definition Errorf :: "code \<Rightarrow> string \<Rightarrow> goerror option" where
  "Errorf c msg = Some (StatusErr (Some (New c 0 msg)))"

definition TaggedErrorf :: "code \<Rightarrow> ErrorTag \<Rightarrow> string \<Rightarrow> goerror option" where
  "TaggedErrorf c tag msg = Some (StatusErr (Some (New c tag msg)))"

text \<open>\<open>FromError\<close>: the \<open>*Status\<close> of an error, \<open>None\<close> for a nil pointer.\<close>

definition FromError :: "goerror option \<Rightarrow> status option" where
  "FromError err =
     (case err of
        None \<Rightarrow> None
      | Some (StatusErr s) \<Rightarrow> s
      | Some (GrpcErr c m) \<Rightarrow> Some (New c TagUnknown m)
      | Some e \<Rightarrow> Some (New Unknown TagUnknown (error_text e)))"

text \<open>A nil \<open>*Status\<close> returned as an \<open>error\<close> is \<open>Some (StatusErr None)\<close>, not the nil interface.\<close>

definition Error :: "code \<Rightarrow> goerror option \<Rightarrow> goerror option" where
  "Error c err =
     (case FromError err of
        None \<Rightarrow> Some (StatusErr None)
      | Some s \<Rightarrow>
          Some (StatusErr (Some (if s_Code s = Unknown \<or> s_Code s = OK then s\<lparr>s_Code := c\<rparr> else s))))"

definition TaggedError :: "code \<Rightarrow> ErrorTag \<Rightarrow> goerror option \<Rightarrow> goerror option" where
  "TaggedError c tag err =
     (case FromError err of
        None \<Rightarrow> Some (StatusErr None)
      | Some s \<Rightarrow>
          (let s1 = (if s_Code s = Unknown \<or> s_Code s = OK then s\<lparr>s_Code := c\<rparr> else s);
               s2 = (if s_Tag s1 \<ge> tagMax then s1\<lparr>s_Tag := tag\<rparr> else s1)
           in Some (StatusErr (Some s2))))"

section \<open>Reading an error\<close>

definition Code :: "goerror option \<Rightarrow> ('e, code) result" where
  "Code err =
     (case err of
        None \<Rightarrow> Ok OK
      | Some (StatusErr None) \<Rightarrow> Panics NilDereference
      | Some (StatusErr (Some s)) \<Rightarrow> Ok (s_Code s)
      | Some (GrpcErr c m) \<Rightarrow> Ok c
      | Some _ \<Rightarrow> Ok Unknown)"

definition Message :: "goerror option \<Rightarrow> ('e, string) result" where
  "Message err =
     (case err of
        None \<Rightarrow> Ok []
      | Some (StatusErr None) \<Rightarrow> Panics NilDereference
      | Some (StatusErr (Some s)) \<Rightarrow> Ok (s_Message s)
      | Some e \<Rightarrow> Ok (error_text e))"

definition FromContextError :: "goerror option \<Rightarrow> goerror option" where
  "FromContextError err =
     (case err of
        None \<Rightarrow> None
      | Some (CtxDeadlineExceeded m) \<Rightarrow> Some (StatusErr (Some (New DeadlineExceeded TagUnknown m)))
      | Some (CtxCanceled m) \<Rightarrow> Some (StatusErr (Some (New Canceled TagUnknown m)))
      | Some e \<Rightarrow> Some (StatusErr (Some (New Unknown TagUnknown (error_text e)))))"

text \<open>
  The details of a status: the metadata map of \<open>errdetails.ErrorInfo\<close>, one \<open>errorN\<close> key per
  sub-error after the path.
\<close>

record errorInfo =
  ei_Reason :: string
  ei_Domain :: string
  ei_Metadata :: "(string, string) gomap"

fun addSubErrors :: "nat \<Rightarrow> string list \<Rightarrow> (string, string) gomap \<Rightarrow> (string, string) gomap" where
  "addSubErrors i [] m = m"
| "addSubErrors i (e # es) m = addSubErrors (Suc i) es (map_put (''error'' @ show_nat i) e m)"

definition hasInfo :: "status \<Rightarrow> bool" where
  "hasInfo s = (s_Reason s \<noteq> [] \<or> s_Domain s \<noteq> [] \<or> s_Path s \<noteq> [] \<or> s_SubError s \<noteq> [])"

definition errorInfoOf :: "status \<Rightarrow> errorInfo" where
  "errorInfoOf s =
     \<lparr>ei_Reason = s_Reason s, ei_Domain = s_Domain s,
      ei_Metadata = addSubErrors 0 (s_SubError s) [(''Path'', s_Path s)]\<rparr>"

text \<open>
  \<open>GRPCStatus\<close>: \<open>withDetails\<close> stands for the method of grpc's status that returns a new status with
  the details added; the sources drop what it returns.
\<close>

record grpcStatus =
  g_Code :: code
  g_Message :: string
  g_Details :: "(string + errorInfo) list"

definition GRPCStatus ::
    "(grpcStatus \<Rightarrow> string + errorInfo \<Rightarrow> grpcStatus) \<Rightarrow> status \<Rightarrow> grpcStatus" where
  "GRPCStatus withDetails s =
     (let msg = ''['' @ ErrorTag_String (s_Tag s) @ ''] '' @ s_Message s;
          ss = \<lparr>g_Code = s_Code s, g_Message = msg, g_Details = []\<rparr>;
          dropped1 = (case s_badRequest s of None \<Rightarrow> ss | Some b \<Rightarrow> withDetails ss (Inl b));
          dropped2 = (if hasInfo s then withDetails ss (Inr (errorInfoOf s)) else ss)
      in ss)"

definition ToProto ::
    "(grpcStatus \<Rightarrow> string + errorInfo \<Rightarrow> grpcStatus) \<Rightarrow> goerror option \<Rightarrow> ('e, grpcStatus option) result" where
  "ToProto withDetails err =
     (case err of
        None \<Rightarrow> Ok None
      | Some _ \<Rightarrow>
          (case FromError err of
             None \<Rightarrow> Panics NilDereference
           | Some s \<Rightarrow> Ok (Some (GRPCStatus withDetails s))))"

text \<open>\<open>gnmi.UpdateResult_Operation\<close>, the operation of a Set request that a result is for.\<close>

datatype setOperation = OpDelete | OpReplace | OpUpdate

text \<open>
  \<open>UpdateResultError\<close>: the \<open>gnmi.Error\<close> of a failed operation. \<open>marshalAny\<close> stands for
  \<open>ptypes.MarshalAny\<close>, \<open>None\<close> where it fails.
\<close>

record 'd gnmiError =
  ge_Code :: code
  ge_Message :: string
  ge_Data :: "'d option"

definition UpdateResultError ::
    "(errorInfo \<Rightarrow> 'd option) \<Rightarrow> goerror option \<Rightarrow> ('e, 'd gnmiError option) result" where
  "UpdateResultError marshalAny err =
     (case err of
        None \<Rightarrow> Ok None
      | Some _ \<Rightarrow>
          (case FromError err of
             None \<Rightarrow> Panics NilDereference
           | Some s \<Rightarrow>
               Ok (Some \<lparr>ge_Code = s_Code s,
                 ge_Message = ''['' @ ErrorTag_String (s_Tag s) @ ''] '' @ s_Message s,
                 ge_Data = (if hasInfo s then marshalAny (errorInfoOf s) else None)\<rparr>)))"

text \<open>\<open>String\<close>: \<open>codeName\<close> is the text of a code, which \<open>google.golang.org/grpc/codes\<close> gives. A nil status is empty text.\<close>

definition statusLine :: "string \<Rightarrow> string" where
  "statusLine s = CHR 0x0A # CHR 0x09 # s"

definition Status_String :: "(code \<Rightarrow> string) \<Rightarrow> status option \<Rightarrow> string" where
  "Status_String codeName st =
     (case st of
        None \<Rightarrow> []
      | Some s \<Rightarrow>
          foldl (\<lambda>rstr e. rstr @ ''  - '' @ e @ [CHR 0x0A])
            (concat (map statusLine
              [''status:'', '' Code: '' @ codeName (s_Code s), '' Message: '' @ s_Message s, '' Reason: '' @ s_Reason s,
               '' Domain: '' @ s_Domain s, '' Path: '' @ s_Path s, '' SubError:'', []]))
            (s_SubError s))"

definition EmptyProto :: grpcStatus where
  "EmptyProto = \<lparr>g_Code = OK, g_Message = [], g_Details = []\<rparr>"

section \<open>Adding information\<close>

text \<open>
  The status that \<open>FromError\<close> returns is written to; only when the error is itself a \<open>*Status\<close> is
  that the status the caller gets back.
\<close>

definition writeStatus :: "(status \<Rightarrow> status) \<Rightarrow> goerror option \<Rightarrow> ('e, goerror option) result" where
  "writeStatus f err =
     (case FromError err of
        None \<Rightarrow> Panics NilDereference
      | Some s \<Rightarrow>
          (case err of
             Some (StatusErr _) \<Rightarrow> Ok (Some (StatusErr (Some (f s))))
           | _ \<Rightarrow> Ok err))"

definition WithErrorPath :: "goerror option \<Rightarrow> string \<Rightarrow> ('e, goerror option) result" where
  "WithErrorPath err Path = writeStatus (s_Path_update (\<lambda>_. Path)) err"

definition WithErrorReason :: "goerror option \<Rightarrow> string \<Rightarrow> ('e, goerror option) result" where
  "WithErrorReason err Reason = writeStatus (s_Reason_update (\<lambda>_. Reason)) err"

definition WithDomain :: "goerror option \<Rightarrow> string \<Rightarrow> ('e, goerror option) result" where
  "WithDomain err errdomain = writeStatus (s_Domain_update (\<lambda>_. errdomain)) err"

definition WithInfo :: "goerror option \<Rightarrow> string \<Rightarrow> string \<Rightarrow> string \<Rightarrow> ('e, goerror option) result" where
  "WithInfo err Reason Path errdomain =
     writeStatus (\<lambda>s. s\<lparr>s_Reason := Reason, s_Path := Path, s_Domain := errdomain\<rparr>) err"

section \<open>Errors of the server components\<close>

text \<open>
  The other components make their errors with \<open>TaggedErrorf\<close>; of such a status they model the code
  and the tag, not the text.
\<close>

datatype serr = Tagged (err_code: code) (err_tag: ErrorTag) | Other string

section \<open>Properties\<close>

lemma addSubErrors_get:
  "map_get (addSubErrors i es m) ''Path'' = map_get m ''Path''"
  by (induction i es m rule: addSubErrors.induct) (auto simp: gomap_simps)

text \<open>An error that this package or grpc made keeps its code through \<open>Error\<close>, \<open>TaggedError\<close> and
  \<open>UpdateResultError\<close>; a plain error gets the given code, but never the given tag, since the test
  \<open>Tag >= tagMax\<close> fails on every tag the package assigns.\<close>

lemma TaggedError_of_plain:
  assumes "s_Tag s < tagMax"
  shows "TaggedError c tag (Some (PlainErr m)) = Some (StatusErr (Some (New c TagUnknown m)))
    \<and> TaggedError c tag (Some (StatusErr (Some s)))
      = Some (StatusErr (Some (if s_Code s \<in> {Unknown, OK} then s\<lparr>s_Code := c\<rparr> else s)))"
  using assms by (simp add: TaggedError_def FromError_def New_def tag_defs Let_def)

lemma TaggedError_of_plain_witness:
  "TaggedError Internal TagBadData (Some (PlainErr ''y'')) = Some (StatusErr (Some (New Internal TagUnknown ''y'')))
   \<and> TaggedError Internal TagBadData (Some (StatusErr (Some (New NotFound TagUnknownPath ''x''))))
     = Some (StatusErr (Some (New NotFound TagUnknownPath ''x'')))"
  using TaggedError_of_plain [of "New NotFound TagUnknownPath ''x''" Internal TagBadData "''y''"]
  by (simp add: New_def tag_defs)

text \<open>Wrapping a nil error gives an error value that is not nil and whose code cannot be read: the
  nil pointer in it is dereferenced.\<close>

lemma Error_of_nil_not_nil:
  "Error c None \<noteq> None \<and> TaggedError c tag None \<noteq> None
   \<and> Code (Error c None) = Panics NilDereference \<and> Code None = Ok OK"
  by (simp add: Error_def TaggedError_def FromError_def Code_def)

text \<open>Information added to an error reaches its \<open>gnmi.Error\<close> exactly when the error is a status of
  this package; for any other error it is lost.\<close>

lemma WithErrorPath_reaches_result:
  "p \<noteq> [] \<Longrightarrow>
    (\<exists>e. WithErrorPath (Some (StatusErr (Some s))) p = (Ok (Some e) :: (unit, goerror option) result)
       \<and> (UpdateResultError Some (Some e) :: (unit, errorInfo gnmiError option) result) = Ok (Some \<lparr>ge_Code = s_Code s,
            ge_Message = ''['' @ ErrorTag_String (s_Tag s) @ ''] '' @ s_Message s,
            ge_Data = Some (errorInfoOf (s\<lparr>s_Path := p\<rparr>))\<rparr>)
       \<and> map_get (ei_Metadata (errorInfoOf (s\<lparr>s_Path := p\<rparr>))) ''Path'' = Some p)
    \<and> WithErrorPath (Some (PlainErr m)) p = (Ok (Some (PlainErr m)) :: (unit, goerror option) result)"
  by (simp add: WithErrorPath_def writeStatus_def FromError_def UpdateResultError_def hasInfo_def
      errorInfoOf_def addSubErrors_get)

lemma WithErrorPath_reaches_result_witness:
  "WithErrorPath (Some (PlainErr ''x'')) ''/a'' = (Ok (Some (PlainErr ''x'')) :: (unit, goerror option) result)"
  using WithErrorPath_reaches_result [of "''/a''" "New Internal TagUnknown []" "''x''"] by simp

text \<open>The grpc status of an error carries the code and the tagged text and never any detail: what
  \<open>WithDetails\<close> returns is dropped, whatever it does.\<close>

lemma GRPCStatus_without_details:
  "GRPCStatus withDetails s =
     \<lparr>g_Code = s_Code s, g_Message = error_text (StatusErr (Some s)), g_Details = []\<rparr>"
  by (simp add: GRPCStatus_def)

end
