(* ===== verification/Schema.thy ===== *)
theory Schema
  imports GnmiPath Status
begin

text \<open>
  The schema side of the model: \<open>gnmi/model/model.go\<close> (validation of paths, search of schema paths,
  supported models), \<open>gnmi/model/mo.go\<close> (lookup of schema entries) and the type walk of
  \<open>gnmi/model/utilities.go\<close>.
\<close>

section \<open>Schema entries\<close>

text \<open>
  A \<open>yang.Entry\<close>: name, list key (the names of the key leaves, separated by blanks), the answers of
  \<open>ReadOnly\<close> and of the kind predicates, and the child entries by name. \<open>Dir\<close> is nil for a leaf, an
  empty list here.
\<close>

datatype ekind = DirectoryEntry | ListEntry | LeafEntry | LeafListEntry

datatype yentry =
  YEntry (en_Name: string) (en_Key: string) (en_ReadOnly: bool) (en_Kind: ekind) (en_Dir: "(string \<times> yentry) list")

lemma size_child: "(n, c) \<in> set d \<Longrightarrow> size c < size (YEntry nm k r kd d)"
  by (induction d) auto

lemma size_Dir: "(n, c) \<in> set (en_Dir e) \<Longrightarrow> size c < size e"
  by (cases e) (auto dest: size_child)

lemma size_Dir_get: "map_get (en_Dir e) n = Some c \<Longrightarrow> size c < size e"
  using size_Dir map_of_SomeD by metis

section \<open>Validation of a path\<close>

text \<open>\<open>for kname := range e.Key { if !strings.Contains(entry.Key, kname) { return false } }\<close>\<close>

definition keysKnown :: "yentry \<Rightarrow> (string, string) gomap \<Rightarrow> bool" where
  "keysKnown entry m = list_all (\<lambda>(kname, v). Contains (en_Key entry) kname) m"

function (sequential) validatePathSchema :: "yentry \<Rightarrow> pathElem list \<Rightarrow> bool" where
  "validatePathSchema entry [] = True"
| "validatePathSchema entry (e # elems) =
     (if pe_Name e = ''*'' \<or> pe_Name e = ''...'' then
        (if list_ex (\<lambda>x. validatePathSchema (snd x) elems) (en_Dir entry) then True
         else if pe_Name e = ''...'' then list_ex (\<lambda>x. validatePathSchema (snd x) (e # elems)) (en_Dir entry)
         else False)
      else
        (case map_get (en_Dir entry) (pe_Name e) of
           None \<Rightarrow> False
         | Some entry' \<Rightarrow> if keysKnown entry' (pe_Key e) then validatePathSchema entry' elems else False))"
  by pat_completeness auto
termination
  by (relation "measure (\<lambda>(entry, elems). size entry)") (auto dest: size_Dir size_Dir_get)

declare validatePathSchema.simps(2) [simp del]

section \<open>Search of schema paths\<close>

text \<open>\<open>findSchemaPath\<close> of the model; \<open>nil\<close> and an empty slice are both \<open>[]\<close>.\<close>

function (sequential) model_findSchemaPath :: "string \<Rightarrow> yentry \<Rightarrow> pathElem list \<Rightarrow> string list" where
  "model_findSchemaPath prefix parent [] = [prefix]"
| "model_findSchemaPath prefix parent (e # elems) =
     (if en_Dir parent = [] then []
      else if pe_Name e = ''*'' then
        concat (map (\<lambda>x. model_findSchemaPath (prefix @ ''/'' @ fst x) (snd x) elems) (en_Dir parent))
      else if pe_Name e = ''...'' then
        concat (map (\<lambda>x. model_findSchemaPath (prefix @ ''/'' @ fst x) (snd x) elems
                   @ model_findSchemaPath (prefix @ ''/'' @ fst x) (snd x) (e # elems)) (en_Dir parent))
      else
        (case map_get (en_Dir parent) (pe_Name e) of
           None \<Rightarrow> []
         | Some entry \<Rightarrow>
             if keysKnown entry (pe_Key e)
             then model_findSchemaPath (prefix @ ''/'' @ pe_Name e) entry elems else []))"
  by pat_completeness auto
termination
  by (relation "measure (\<lambda>(prefix, entry, elems). size entry)") (auto dest: size_Dir size_Dir_get)

declare model_findSchemaPath.simps(2) [simp del]

text \<open>The keys that \<open>findPaths\<close> prints: in the order of the schema, up to the first that is missing or \<open>*\<close>.\<close>

fun keyText :: "string list \<Rightarrow> (string, string) gomap \<Rightarrow> string" where
  "keyText [] m = []"
| "keyText (kname # knames) m =
     (case map_get m kname of
        None \<Rightarrow> []
      | Some kval \<Rightarrow> if kval = ''*'' then [] else ''['' @ kname @ ''='' @ kval @ '']'' @ keyText knames m)"

function (sequential) findPaths :: "string \<Rightarrow> yentry \<Rightarrow> pathElem list \<Rightarrow> string list" where
  "findPaths prefix parent [] = [prefix]"
| "findPaths prefix parent (e # elems) =
     (if en_Dir parent = [] then []
      else if pe_Name e = ''*'' then
        concat (map (\<lambda>x. findPaths (Join [prefix, fst x] ''/'') (snd x) elems) (en_Dir parent))
      else if pe_Name e = ''...'' then
        concat (map (\<lambda>x. findPaths (Join [prefix, fst x] ''/'') (snd x) elems
                   @ findPaths (Join [prefix, fst x] ''/'') (snd x) (e # elems)) (en_Dir parent))
      else
        (case map_get (en_Dir parent) (pe_Name e) of
           None \<Rightarrow> []
         | Some entry \<Rightarrow>
             if keysKnown entry (pe_Key e)
             then findPaths (Join [prefix, pe_Name e @ (if pe_Key e = [] then [] else keyText (SplitByte (en_Key entry) CHR '' '') (pe_Key e))] ''/'')
                    entry elems
             else []))"
  by pat_completeness auto
termination
  by (relation "measure (\<lambda>(prefix, entry, elems). size entry)") (auto dest: size_Dir size_Dir_get)

declare findPaths.simps(2) [simp del]

section \<open>Go types\<close>

text \<open>
  The \<open>reflect.Type\<close> of generated code: a struct has its name and, per field, the field's name, its
  \<open>path\<close> tag if it has one, and its type.
\<close>

datatype gotype =
    TScalar string
  | TInterface
  | TPtr gotype
  | TStruct string "(string \<times> string option \<times> gotype) list"
  | TMap gotype
  | TSlice gotype

fun typeName :: "gotype \<Rightarrow> string" where
  "typeName (TScalar n) = n"
| "typeName (TStruct n fs) = n"
| "typeName _ = []"

fun derefType :: "gotype \<Rightarrow> gotype" where
  "derefType (TPtr t) = derefType t"
| "derefType t = t"

section \<open>The model's schema data\<close>

record modelData =
  md_Name :: string
  md_Organization :: string
  md_Version :: string

record schemaModel =
  SchemaTree :: "(string, yentry) gomap"
  rootType :: gotype
  supported :: "modelData list"

definition FindSchemaByType :: "schemaModel \<Rightarrow> gotype \<Rightarrow> yentry option" where
  "FindSchemaByType m t = map_get (SchemaTree m) (typeName (derefType t))"

definition FindModel :: "schemaModel \<Rightarrow> string \<Rightarrow> modelData option" where
  "FindModel m name = List.find (\<lambda>d. md_Name d = name) (supported m)"

text \<open>The inner loop of \<open>CheckModels\<close>, with the variable \<open>isSupported\<close>.\<close>

fun modelSupported :: "modelData \<Rightarrow> modelData list \<Rightarrow> bool \<Rightarrow> bool" where
  "modelSupported model [] isSupported = isSupported"
| "modelSupported model (d # ds) isSupported =
     (if md_Name model \<noteq> md_Name d then modelSupported model ds isSupported
      else
        (let s1 = True;
             s2 = (if md_Version model \<noteq> [] \<and> md_Version model \<noteq> md_Version d then False else s1);
             s3 = (if md_Organization model \<noteq> [] \<and> md_Organization model \<noteq> md_Organization d then False else s2)
         in if s3 then s3 else modelSupported model ds s3))"

fun CheckModels :: "schemaModel \<Rightarrow> modelData list \<Rightarrow> (serr, unit) result" where
  "CheckModels m [] = Ok ()"
| "CheckModels m (model # models) =
     (if \<not> modelSupported model (supported m) False then
        (if md_Name model = [] then Failed (Tagged InvalidArgument TagBadData)
         else Failed (Tagged Unimplemented TagNotSupport))
      else CheckModels m models)"

definition ValidatePathSchema :: "schemaModel \<Rightarrow> gpath option \<Rightarrow> bool" where
  "ValidatePathSchema m path =
     (case FindSchemaByType m (rootType m) of
        None \<Rightarrow> False
      | Some entry \<Rightarrow>
          (let origin = (case path of None \<Rightarrow> [] | Some p \<Rightarrow> p_Origin p) in
           if origin \<noteq> [] \<and> \<not> list_ex (\<lambda>d. origin = md_Name d) (supported m) then False
           else validatePathSchema entry (GetElem path)))"

definition Model_ValidateGNMIPath ::
    "(gpath \<Rightarrow> gpath) \<Rightarrow> schemaModel \<Rightarrow> gpath option list \<Rightarrow> (serr, unit) result" where
  "Model_ValidateGNMIPath clone m path =
     (case ValidateGNMIPath clone path of
        Inl (Panic p) \<Rightarrow> Panics p
      | Inl (Err e) \<Rightarrow> Failed (Tagged InvalidArgument TagInvalidPath)
      | Inr fullpath \<Rightarrow>
          if \<not> ValidatePathSchema m fullpath then Failed (Tagged NotFound TagUnknownPath) else Ok ())"

text \<open>The second result is the \<open>bool\<close> of the Go function.\<close>

definition FindSchemaPaths :: "schemaModel \<Rightarrow> gpath option \<Rightarrow> string list \<times> bool" where
  "FindSchemaPaths m path =
     (case FindSchemaByType m (rootType m) of
        None \<Rightarrow> ([], False)
      | Some entry \<Rightarrow>
          if GetElem path = [] then ([''/''], True)
          else (model_findSchemaPath [] entry (GetElem path), True))"

definition FindPaths :: "schemaModel \<Rightarrow> gpath option \<Rightarrow> string list" where
  "FindPaths m path =
     (case FindSchemaByType m (rootType m) of
        None \<Rightarrow> []
      | Some entry \<Rightarrow> if GetElem path = [] then [''/''] else findPaths [] entry (GetElem path))"

section \<open>The walk over types\<close>

record pathFinder =
  pf_t :: gotype
  pf_path :: string

text \<open>The predicates of \<open>ydb\<close> on types and names that the walk uses.\<close>

record ydbTypes =
  IsTypeScalar :: "gotype \<Rightarrow> bool"
  IsTypeMap :: "gotype \<Rightarrow> bool"
  IsStartedWithUpper :: "string \<Rightarrow> bool"

text \<open>\<open>reflect.Type.Elem\<close>; it panics on the kinds that have no element, which \<open>IsTypeMap\<close> excludes.\<close>

fun elemType :: "gotype \<Rightarrow> gotype option" where
  "elemType (TPtr t) = Some t"
| "elemType (TMap t) = Some t"
| "elemType (TSlice t) = Some t"
| "elemType _ = None"

text \<open>\<open>getAllSchemaPaths\<close>: exported fields with a \<open>path\<close> tag.\<close>

fun structPaths :: "(string \<Rightarrow> bool) \<Rightarrow> string \<Rightarrow> (string \<times> string option \<times> gotype) list \<Rightarrow> pathFinder list" where
  "structPaths upper path [] = []"
| "structPaths upper path ((name, tag, st) # fs) =
     (if upper name then
        (case tag of
           None \<Rightarrow> structPaths upper path fs
         | Some p \<Rightarrow> \<lparr>pf_t = st, pf_path = path @ ''/'' @ p\<rparr> # structPaths upper path fs)
      else structPaths upper path fs)"

fun getAllSchemaPaths :: "(string \<Rightarrow> bool) \<Rightarrow> gotype \<Rightarrow> string \<Rightarrow> pathFinder list \<times> bool" where
  "getAllSchemaPaths upper TInterface path = ([], False)"
| "getAllSchemaPaths upper (TPtr t) path = getAllSchemaPaths upper t path"
| "getAllSchemaPaths upper (TStruct n fs) path =
     (structPaths upper path fs, list_ex (\<lambda>(name, tag, st). upper name \<and> tag \<noteq> None) fs)"
| "getAllSchemaPaths upper (TMap t) path = ([\<lparr>pf_t = t, pf_path = path\<rparr>], True)"
| "getAllSchemaPaths upper (TSlice t) path = ([\<lparr>pf_t = t, pf_path = path\<rparr>], True)"
| "getAllSchemaPaths upper (TScalar n) path = ([], False)"

fun fieldByTag :: "string \<Rightarrow> (string \<times> string option \<times> gotype) list \<Rightarrow> gotype option" where
  "fieldByTag elemname [] = None"
| "fieldByTag elemname ((name, tag, t) # fs) = (if tag = Some elemname then Some t else fieldByTag elemname fs)"

fun findSchemaPath :: "gotype \<Rightarrow> string \<Rightarrow> string \<Rightarrow> pathFinder option" where
  "findSchemaPath t path [] = Some \<lparr>pf_t = t, pf_path = path\<rparr>"
| "findSchemaPath TInterface path elemname = None"
| "findSchemaPath (TPtr t) path elemname = findSchemaPath t path elemname"
| "findSchemaPath (TStruct n fs) path elemname =
     (case fieldByTag elemname fs of
        None \<Rightarrow> None
      | Some t \<Rightarrow> Some \<lparr>pf_t = t, pf_path = path @ ''/'' @ elemname\<rparr>)"
| "findSchemaPath (TMap t) path elemname = Some \<lparr>pf_t = t, pf_path = path\<rparr>"
| "findSchemaPath (TSlice t) path elemname = Some \<lparr>pf_t = t, pf_path = path\<rparr>"
| "findSchemaPath (TScalar n) path elemname = None"

lemma size_field: "(n, tag, t) \<in> set fs \<Longrightarrow> size t < size (TStruct nm fs)"
  by (induction fs) auto

lemma size_structPaths: "p \<in> set (structPaths upper path fs) \<Longrightarrow> size (pf_t p) < size (TStruct nm fs)"
  by (induction upper path fs rule: structPaths.induct) (fastforce split: if_splits option.splits)+

lemma size_getAllSchemaPaths: "p \<in> set (fst (getAllSchemaPaths upper t path)) \<Longrightarrow> size (pf_t p) < size t"
  by (induction upper t path rule: getAllSchemaPaths.induct) (use size_structPaths in fastforce)+

lemma fieldByTag_in: "fieldByTag e fs = Some t \<Longrightarrow> \<exists>n. (n, Some e, t) \<in> set fs"
  by (induction fs rule: fieldByTag.induct) (auto split: if_splits)

lemma size_findSchemaPath: "findSchemaPath t path e = Some p \<Longrightarrow> size (pf_t p) \<le> size t"
  by (induction t path e rule: findSchemaPath.induct)
    (auto split: option.splits dest!: fieldByTag_in dest: size_field)

text \<open>The text appended for the keys of one element: all of the schema's keys, or none.\<close>

fun allKeyText :: "string list \<Rightarrow> (string, string) gomap \<Rightarrow> string \<Rightarrow> string" where
  "allKeyText [] m npath = npath"
| "allKeyText (kname # knames) m npath =
     (case map_get m kname of
        None \<Rightarrow> []
      | Some kvalue \<Rightarrow> allKeyText knames m (npath @ ''['' @ kname @ ''='' @ kvalue @ '']''))"

definition withKeys :: "ydbTypes \<Rightarrow> schemaModel \<Rightarrow> (string, string) gomap \<Rightarrow> pathFinder \<Rightarrow> pathFinder" where
  "withKeys y m keys csp =
     (if keys \<noteq> [] \<and> IsTypeMap y (pf_t csp) then
        (case elemType (pf_t csp) of
           Some t \<Rightarrow>
             (case FindSchemaByType m t of
                None \<Rightarrow> csp
              | Some schema \<Rightarrow> csp\<lparr>pf_path := pf_path csp @ allKeyText (SplitByte (en_Key schema) CHR '' '') keys []\<rparr>)
         | None \<Rightarrow> csp)
      else csp)"

lemma pf_t_withKeys [simp]: "pf_t (withKeys y m keys csp) = pf_t csp"
  by (auto simp: withKeys_def split: option.splits)

function (sequential) findAllPaths ::
    "ydbTypes \<Rightarrow> schemaModel \<Rightarrow> gotype \<Rightarrow> string \<Rightarrow> pathElem list \<Rightarrow> pathFinder list" where
  "findAllPaths y m (TMap t) path elems = findAllPaths y m t path elems"
| "findAllPaths y m t path [] = [\<lparr>pf_t = t, pf_path = path\<rparr>]"
| "findAllPaths y m t path (elem # elems) =
     (if IsTypeScalar y t then []
      else if pe_Name elem = ''*'' then
        concat (map (\<lambda>csp. findAllPaths y m (pf_t csp) (pf_path csp) elems) (fst (getAllSchemaPaths (IsStartedWithUpper y) t path)))
      else if pe_Name elem = ''...'' then
        concat (map (\<lambda>csp. findAllPaths y m (pf_t csp) (pf_path csp) elems
                       @ findAllPaths y m (pf_t csp) (pf_path csp) (elem # elems))
                 (fst (getAllSchemaPaths (IsStartedWithUpper y) t path)))
      else
        (case findSchemaPath t path (pe_Name elem) of
           None \<Rightarrow> []
         | Some csp \<Rightarrow>
             findAllPaths y m (pf_t csp) (pf_path (withKeys y m (pe_Key elem) csp)) elems))"
  by pat_completeness auto
termination
  by (relation "measure (\<lambda>(y, m, t, path, elems). size t + length elems)")
    (auto simp del: getAllSchemaPaths.simps findSchemaPath.simps dest!: size_getAllSchemaPaths size_findSchemaPath)

definition FindAllPaths ::
    "ydbTypes \<Rightarrow> schemaModel \<Rightarrow> gpath option \<Rightarrow> string list \<times> bool" where
  "FindAllPaths y m path =
     (if GetElem path = [] then ([''/''], True)
      else
        (let rsplist = findAllPaths y m (rootType m) [] (GetElem path) in
         if rsplist = [] then ([], False) else (map pf_path rsplist, True)))"

section \<open>Lookup of entries\<close>

text \<open>\<open>entry.Dir[path[begin:end]]\<close>, \<open>None\<close> for a nil entry.\<close>

definition dirSlice :: "yentry \<Rightarrow> string \<Rightarrow> nat \<Rightarrow> nat \<Rightarrow> (serr, yentry option) result" where
  "dirSlice entry path b e =
     (case slice path b e of Inl x \<Rightarrow> Inl x | Inr n \<Rightarrow> Ok (map_get (en_Dir entry) n))"

text \<open>The loop of \<open>FindSchemaByRelativeXPath\<close> over the index \<open>end\<close>; \<open>b\<close> is \<open>begin\<close>, \<open>e\<close> is \<open>end\<close>.\<close>

function xpathLoop :: "string \<Rightarrow> nat \<Rightarrow> nat \<Rightarrow> int \<Rightarrow> yentry \<Rightarrow> (serr, yentry option) result" where
  "xpathLoop path b e insideBrackets entry =
     (if e < length path then
        (if path ! e = CHR ''/'' then
           (if insideBrackets \<le> 0 then
              (if b < e then
                 (case dirSlice entry path b e of
                    Inl x \<Rightarrow> Inl x
                  | Inr None \<Rightarrow> Ok None
                  | Inr (Some entry') \<Rightarrow> xpathLoop path (e + 1) (e + 1) insideBrackets entry')
               else xpathLoop path (b + 1) (e + 1) insideBrackets entry)
            else xpathLoop path b (e + 1) insideBrackets entry)
         else if path ! e = CHR ''['' then
           (if path ! (e - 1) \<noteq> CHR 0x5C then
              (case dirSlice entry path b e of
                 Inl x \<Rightarrow> Inl x
               | Inr None \<Rightarrow> Ok None
               | Inr (Some entry') \<Rightarrow> xpathLoop path (e + 1) (e + 1) (insideBrackets + 1) entry')
            else xpathLoop path b (e + 1) insideBrackets entry)
         else if path ! e = CHR '']'' then
           (if path ! (e - 1) \<noteq> CHR 0x5C then xpathLoop path (e + 1) (e + 1) (insideBrackets - 1) entry
            else xpathLoop path b (e + 1) insideBrackets entry)
         else xpathLoop path b (e + 1) insideBrackets entry)
      else if b < e then dirSlice entry path b e
      else Ok (Some entry))"
  by pat_completeness auto
termination
  by (relation "measure (\<lambda>(path, b, e, i, entry). length path - e)") auto

declare xpathLoop.simps [simp del]

text \<open>The entry of the base, \<open>None\<close> where the schema tree has none, is the first argument.\<close>

definition FindSchemaByRelativeXPath :: "yentry option \<Rightarrow> string \<Rightarrow> (serr, yentry option) result" where
  "FindSchemaByRelativeXPath base path =
     (case base of
        None \<Rightarrow> Ok None
      | Some entry \<Rightarrow>
          (case path of
             [] \<Rightarrow> Ok (Some entry)
           | c # _ \<Rightarrow>
               if c = CHR ''['' \<or> c = CHR '']'' then Ok None
               else xpathLoop path (if c = CHR ''/'' then 1 else 0) 1 0 entry))"

definition FindSchemaByXPath :: "schemaModel \<Rightarrow> string \<Rightarrow> (serr, yentry option) result" where
  "FindSchemaByXPath m path = FindSchemaByRelativeXPath (FindSchemaByType m (rootType m)) path"

fun findSchema :: "yentry \<Rightarrow> pathElem list \<Rightarrow> yentry option" where
  "findSchema entry [] = Some entry"
| "findSchema entry (e # es) =
     (case map_get (en_Dir entry) (pe_Name e) of None \<Rightarrow> None | Some entry' \<Rightarrow> findSchema entry' es)"

definition FindSchemaByRelativeGNMIPath :: "yentry option \<Rightarrow> gpath option \<Rightarrow> yentry option" where
  "FindSchemaByRelativeGNMIPath base path =
     (case base of
        None \<Rightarrow> None
      | Some bSchema \<Rightarrow> (case path of None \<Rightarrow> Some bSchema | Some p \<Rightarrow> findSchema bSchema (p_Elem p)))"

definition FindSchemaByGNMIPath :: "schemaModel \<Rightarrow> gpath option \<Rightarrow> yentry option" where
  "FindSchemaByGNMIPath m path = FindSchemaByRelativeGNMIPath (FindSchemaByType m (rootType m)) path"

section \<open>The lookup, over the bytes that remain\<close>

text \<open>\<open>acc\<close> holds the bytes from \<open>begin\<close> to \<open>end\<close>, \<open>p\<close> is the byte before \<open>end\<close>.\<close>

fun lookupBytes :: "yentry \<Rightarrow> string \<Rightarrow> char \<Rightarrow> int \<Rightarrow> string \<Rightarrow> yentry option" where
  "lookupBytes entry acc p i [] = (if acc \<noteq> [] then map_get (en_Dir entry) acc else Some entry)"
| "lookupBytes entry acc p i (c # cs) =
     (if c = CHR ''/'' \<and> i \<le> 0 then
        (if acc \<noteq> [] then
           (case map_get (en_Dir entry) acc of None \<Rightarrow> None | Some entry' \<Rightarrow> lookupBytes entry' [] c i cs)
         else lookupBytes entry [] c i cs)
      else if c = CHR ''['' \<and> p \<noteq> CHR 0x5C then
        (case map_get (en_Dir entry) acc of None \<Rightarrow> None | Some entry' \<Rightarrow> lookupBytes entry' [] c (i + 1) cs)
      else if c = CHR '']'' \<and> p \<noteq> CHR 0x5C then lookupBytes entry [] c (i - 1) cs
      else lookupBytes entry (acc @ [c]) c i cs)"

lemma xpathLoop_bytes:
  assumes "b \<le> e" "0 < e" "e \<le> length path"
  shows "xpathLoop path b e i entry
    = Ok (lookupBytes entry (take (e - b) (drop b path)) (path ! (e - 1)) i (drop e path))"
  using assms
proof (induction path b e i entry rule: xpathLoop.induct)
  case (1 path b e i entry)
  show ?case
  proof (cases "e < length path")
    case False
    with 1(11) have "e = length path" by simp
    with 1(9,10) show ?thesis by (subst xpathLoop.simps) (simp add: dirSlice_def slice_simps)
  next
    case True
    then have d: "drop e path = path ! e # drop (Suc e) path" by (simp add: Cons_nth_drop_Suc)
    have t: "take (Suc e - b) (drop b path) = take (e - b) (drop b path) @ [path ! e]"
      using 1(9) True by (rule take_drop_Suc)
    have z: "take (Suc e - Suc b) (drop (Suc b) path) = []" if "b = e" using that by simp
    have ds: "dirSlice en path b e = Ok (map_get (en_Dir en) (take (e - b) (drop b path)))" for en
      using 1(9,11) by (simp add: dirSlice_def slice_simps)
    have ne: "take (e - b) (drop b path) = [] \<longleftrightarrow> b = e" using 1(9,11) by auto
    show ?thesis
      unfolding d lookupBytes.simps ne
      using 1 True by (subst xpathLoop.simps) (auto simp: ds t z split: option.splits)
  qed
qed

lemma lookupBytes_plain:
  "CHR ''/'' \<notin> set n \<Longrightarrow> CHR ''['' \<notin> set n \<Longrightarrow> CHR '']'' \<notin> set n \<Longrightarrow>
   lookupBytes entry acc p i (n @ r) = lookupBytes entry (acc @ n) (last (p # n)) i r"
  by (induction n arbitrary: acc p) auto

lemma lookupBytes_inside:
  "CHR ''['' \<notin> set n \<Longrightarrow> CHR '']'' \<notin> set n \<Longrightarrow> 0 < i \<Longrightarrow>
   lookupBytes entry acc p i (n @ r) = lookupBytes entry (acc @ n) (last (p # n)) i r"
  by (induction n arbitrary: acc p) auto

lemma idRe_parts:
  "idRe n \<Longrightarrow> n \<noteq> [] \<and> CHR ''/'' \<notin> set n \<and> CHR ''['' \<notin> set n \<and> CHR '']'' \<notin> set n \<and> CHR 0x5C \<notin> set n"
  using idRe_not_special [of n] idRe_chars [of n] by auto

text \<open>One element: its name moves to the entry's child, a single key is skipped.\<close>

lemma lookupBytes_elem:
  assumes "plain_elem e" "length (pe_Key e) \<le> 1" "r = [] \<or> hd r = CHR ''/''"
  shows "\<exists>p'. lookupBytes entry [] CHR ''/'' 0 (elemXPath e @ r) =
    (case map_get (en_Dir entry) (pe_Name e) of
       None \<Rightarrow> None
     | Some entry' \<Rightarrow> lookupBytes entry' [] p' 0 r)"
proof -
  let ?n = "pe_Name e"
  have n: "?n \<noteq> []" "CHR ''/'' \<notin> set ?n" "CHR ''['' \<notin> set ?n" "CHR '']'' \<notin> set ?n" "CHR 0x5C \<notin> set ?n"
    using assms(1) idRe_parts by (auto simp: plain_elem_def)
  have name: "lookupBytes entry [] CHR ''/'' 0 (?n @ q) = lookupBytes entry ?n (last ?n) 0 q" for q
    using n lookupBytes_plain [of ?n entry "[]" "CHR ''/''" 0 q] by simp
  have esc: "last ?n \<noteq> CHR 0x5C" using n last_in_set by fastforce
  show ?thesis
  proof (cases "pe_Key e")
    case Nil
    then have x: "elemXPath e = ?n" by (simp add: elemXPath_def)
    have "lookupBytes entry ?n (last ?n) 0 r = (case map_get (en_Dir entry) ?n of None \<Rightarrow> None
        | Some entry' \<Rightarrow> lookupBytes entry' [] CHR ''/'' 0 r)"
      using assms(3) n(1) by (cases r) (auto split: option.splits)
    with x name show ?thesis by auto
  next
    case (Cons kv kvs)
    with assms(2) obtain k v where kv: "pe_Key e = [(k, v)]" by (cases kv) auto
    with assms(1) have k: "idRe k" "plain_value v" by (auto simp: plain_elem_def plain_keys_def)
    let ?b = "k @ CHR ''='' # v"
    have b: "CHR ''['' \<notin> set ?b" "CHR '']'' \<notin> set ?b" "last (CHR ''['' # ?b) \<noteq> CHR 0x5C"
      using k idRe_parts [of k] by (auto simp: plain_value_def)
    have x: "elemXPath e @ r = ?n @ CHR ''['' # ?b @ CHR '']'' # r"
      by (simp add: elemXPath_keys_text kv)
    have "lookupBytes en [] CHR ''['' 1 (?b @ CHR '']'' # r) = lookupBytes en [] CHR '']'' 0 r" for en
      using lookupBytes_inside [OF b(1,2), of 1 en "[]" "CHR ''[''" "CHR '']'' # r"] b(3) by simp
    then show ?thesis unfolding x name using esc by (auto split: option.splits)
  qed
qed

lemma lookupBytes_rooted:
  assumes "list_all plain_elem es" "list_all (\<lambda>e. length (pe_Key e) \<le> 1) es"
  shows "lookupBytes entry [] p 0 (rooted (map elemXPath es)) = findSchema entry es"
  using assms
proof (induction es arbitrary: entry p)
  case (Cons e es)
  let ?r = "rooted (map elemXPath es)"
  have r: "?r = [] \<or> hd ?r = CHR ''/''" by (cases es) auto
  obtain p' where "lookupBytes entry [] CHR ''/'' 0 (elemXPath e @ ?r) =
      (case map_get (en_Dir entry) (pe_Name e) of None \<Rightarrow> None | Some entry' \<Rightarrow> lookupBytes entry' [] p' 0 ?r)"
    using lookupBytes_elem [of e ?r entry] Cons.prems r by auto
  moreover have "lookupBytes entry [] p 0 (rooted (map elemXPath (e # es)))
      = lookupBytes entry [] CHR ''/'' 0 (elemXPath e @ ?r)" by simp
  ultimately show ?case using Cons by (auto split: option.splits)
qed simp

lemma FindSchemaByRelativeXPath_bytes:
  "FindSchemaByRelativeXPath (Some entry) path =
     Ok (case path of
           [] \<Rightarrow> Some entry
         | c # cs \<Rightarrow>
             if c = CHR ''['' \<or> c = CHR '']'' then None
             else if c = CHR ''/'' then lookupBytes entry [] c 0 cs else lookupBytes entry [c] c 0 cs)"
  by (cases path) (auto simp: FindSchemaByRelativeXPath_def xpathLoop_bytes)

section \<open>Properties\<close>

lemma findPaths_iff: "findPaths prefix entry es \<noteq> [] \<longleftrightarrow> validatePathSchema entry es"
proof (induction entry es arbitrary: prefix rule: validatePathSchema.induct)
  case (2 entry e elems)
  show ?case
    using 2 by (subst findPaths.simps(2), subst validatePathSchema.simps(2))
      (auto simp: list_ex_iff split: option.splits; fastforce)
qed simp

lemma model_findSchemaPath_iff: "model_findSchemaPath prefix entry es \<noteq> [] \<longleftrightarrow> validatePathSchema entry es"
proof (induction entry es arbitrary: prefix rule: validatePathSchema.induct)
  case (2 entry e elems)
  show ?case
    using 2 by (subst model_findSchemaPath.simps(2), subst validatePathSchema.simps(2))
      (auto simp: list_ex_iff split: option.splits; fastforce)
qed simp

lemma modelSupported_iff:
  "modelSupported model ds b \<longleftrightarrow>
     (\<exists>d \<in> set ds. md_Name d = md_Name model \<and> (md_Version model = [] \<or> md_Version model = md_Version d)
        \<and> (md_Organization model = [] \<or> md_Organization model = md_Organization d))
     \<or> (b \<and> (\<forall>d \<in> set ds. md_Name d \<noteq> md_Name model))"
  by (induction model ds b rule: modelSupported.induct) (auto simp: Let_def)

lemma FindSchemaByXPath_rooted:
  assumes "list_all plain_elem es" "list_all (\<lambda>e. length (pe_Key e) \<le> 1) es"
  shows "FindSchemaByRelativeXPath (Some entry) (rooted (map elemXPath es)) = Ok (findSchema entry es)"
proof (cases es)
  case (Cons e es')
  from lookupBytes_rooted [OF assms, of entry "CHR ''/''"] Cons
  show ?thesis by (simp add: FindSchemaByRelativeXPath_bytes)
qed (simp add: FindSchemaByRelativeXPath_def)

lemma lookupBytes_two_keys:
  assumes "plain_elem e" "pe_Key e = (k, v) # (k2, v2) # m" "map_get (en_Dir entry) (pe_Name e) = Some c" "map_get (en_Dir c) [] = None"
  shows "lookupBytes entry [] CHR ''/'' 0 (elemXPath e @ r) = None"
proof -
  let ?n = "pe_Name e"
  have n: "?n \<noteq> []" "CHR ''/'' \<notin> set ?n" "CHR ''['' \<notin> set ?n" "CHR '']'' \<notin> set ?n" "CHR 0x5C \<notin> set ?n"
    using assms(1) idRe_parts by (auto simp: plain_elem_def)
  have name: "lookupBytes entry [] CHR ''/'' 0 (?n @ q) = lookupBytes entry ?n (last ?n) 0 q" for q
    using n lookupBytes_plain [of ?n entry "[]" "CHR ''/''" 0 q] by simp
  have esc: "last ?n \<noteq> CHR 0x5C" using n last_in_set by fastforce
  from assms(1,2) have k: "idRe k" "plain_value v" by (auto simp: plain_elem_def plain_keys_def)
  let ?b = "k @ CHR ''='' # v"
  have b: "CHR ''['' \<notin> set ?b" "CHR '']'' \<notin> set ?b" "last (CHR ''['' # ?b) \<noteq> CHR 0x5C"
    using k idRe_parts [of k] by (auto simp: plain_value_def)
  obtain q where x: "elemXPath e @ r = ?n @ CHR ''['' # ?b @ CHR '']'' # CHR ''['' # q"
    by (simp add: elemXPath_keys_text assms(2))
  have "lookupBytes c [] CHR ''['' 1 (?b @ CHR '']'' # CHR ''['' # q) = lookupBytes c [] CHR '']'' 0 (CHR ''['' # q)"
    using lookupBytes_inside [OF b(1,2), of 1 c "[]" "CHR ''[''" "CHR '']'' # CHR ''['' # q"] b(3) by simp
  then show ?thesis unfolding x name using esc assms(3,4) by simp
qed

text \<open>C21: The three searches of the schema tree agree: a path is valid exactly if the search of schema paths
  and the search of paths with keys find something, wildcards included.\<close>

theorem path_search_agrees:
  "(validatePathSchema entry es \<longleftrightarrow> findPaths prefix entry es \<noteq> [])
   \<and> (validatePathSchema entry es \<longleftrightarrow> model_findSchemaPath prefix entry es \<noteq> [])"
  by (simp add: findPaths_iff model_findSchemaPath_iff)


definition sampleSchema :: schemaModel where
  "sampleSchema =
     (let leaf = (\<lambda>n. YEntry n [] False LeafEntry []);
          lst = YEntry ''route'' ''name vrf'' False ListEntry [(''name'', leaf ''name''), (''vrf'', leaf ''vrf'')];
          one = YEntry ''interface'' ''name'' False ListEntry [(''name'', leaf ''name'')]
      in \<lparr>SchemaTree = [(''Device'', YEntry ''device'' [] False DirectoryEntry [(''route'', lst), (''interface'', one)])],
          rootType = TStruct ''Device'' [], supported = []\<rparr>)"


text \<open>For a list element with two or more keys the lookup by string finds nothing, although the lookup
  by gNMI path finds the entry: the string between \<open>]\<close> and \<open>[\<close> is looked up as a child of no name.\<close>

lemma FindSchemaByXPath_two_keys:
  assumes "FindSchemaByType m (rootType m) = Some entry" "map_get (en_Dir entry) (pe_Name e) = Some c"
    and "map_get (en_Dir c) [] = None" "plain_elem e" "2 \<le> length (pe_Key e)"
  shows "FindSchemaByXPath m (ToXPath (Some (empty_gpath\<lparr>p_Elem := e # es\<rparr>))) = Ok None
    \<and> FindSchemaByGNMIPath m (Some (empty_gpath\<lparr>p_Elem := e # es\<rparr>)) = findSchema c es"
proof -
  obtain k v k2 v2 r where m: "pe_Key e = (k, v) # (k2, v2) # r"
    using assms(5) by (cases "pe_Key e"; cases "tl (pe_Key e)") auto
  from lookupBytes_two_keys [OF assms(4) m assms(2,3)] assms(1,2) show ?thesis
    by (simp add: FindSchemaByXPath_def FindSchemaByRelativeXPath_bytes ToXPath_rooted
        FindSchemaByGNMIPath_def FindSchemaByRelativeGNMIPath_def)
qed

lemma FindSchemaByXPath_two_keys_witness:
  "FindSchemaByXPath sampleSchema (ToXPath (Some (empty_gpath\<lparr>p_Elem := [mkElem ''route'' [(''name'', ''a''), (''vrf'', ''b'')], mkElem ''name'' []]\<rparr>))) = Ok None"
  using FindSchemaByXPath_two_keys [of sampleSchema _ "mkElem ''route'' [(''name'', ''a''), (''vrf'', ''b'')]" _ "[mkElem ''name'' []]"]
  by (simp add: plain_elem_def mkElem_def idRe_def id_rest_def id_first_def plain_keys_def plain_value_def map_ok_def
      FindSchemaByType_def sampleSchema_def Let_def)

text \<open>A path may name a key that the list does not have, as long as the name is part of the list's key
  string: it is valid, and it is then ignored.\<close>

lemma key_name_substring:
  assumes "map_get (en_Dir entry) n = Some c" "en_Key c = a @ k @ b" "n \<noteq> ''*''" "n \<noteq> ''...''"
    and "k \<notin> set (SplitByte (en_Key c) CHR '' '')"
  shows "validatePathSchema entry [mkElem n [(k, v)]]
    \<and> findPaths [] entry [mkElem n [(k, v)]] = [''/'' @ n]"
proof -
  have kt: "keyText ks [(k, v)] = []" if "k \<notin> set ks" for ks using that by (cases ks) auto
  have "en_Dir entry \<noteq> []" using assms(1) by auto
  then show ?thesis
    using assms kt [OF assms(5)]
    by (auto simp: validatePathSchema.simps(2) findPaths.simps(2) mkElem_def keysKnown_def Contains_infix)
qed

lemma key_name_substring_witness:
  "validatePathSchema (YEntry [] [] False DirectoryEntry [(''interface'', YEntry ''interface'' ''name'' False ListEntry [])])
     [mkElem ''interface'' [(''am'', ''eth0'')]]"
  using key_name_substring [of "YEntry [] [] False DirectoryEntry [(''interface'', YEntry ''interface'' ''name'' False ListEntry [])]"
      "''interface''" "YEntry ''interface'' ''name'' False ListEntry []" "''n''" "''am''" "''e''" "''eth0''"]
  by simp

text \<open>A list of models is accepted exactly if each of them names a supported model and agrees with it on
  version and organization where it gives them; nothing is required of models that are supported.\<close>

lemma CheckModels_iff:
  "CheckModels m models = Ok () \<longleftrightarrow>
     list_all (\<lambda>model. list_ex (\<lambda>d. md_Name d = md_Name model
        \<and> (md_Version model = [] \<or> md_Version model = md_Version d)
        \<and> (md_Organization model = [] \<or> md_Organization model = md_Organization d)) (supported m)) models"
  by (induction m models rule: CheckModels.induct) (auto simp: modelSupported_iff list_ex_iff)

end
