(* ===== verification/DataTree.thy ===== *)
theory DataTree
  imports Schema "HOL-Library.List_Lexorder" "HOL-Library.Char_ord"
begin

text \<open>
  Search in the data tree: \<open>gnmi/model/utilities.go\<close> (\<open>getAllChildren\<close>, \<open>findChildren\<close>, \<open>findAllData\<close> and
  what is built on them) and \<open>Find\<close>, \<open>ListAll\<close> and their options of \<open>gnmi/model/mo.go\<close>. The tree of Go
  structs is a recursive datatype, read through \<open>reflect\<close>.
\<close>

section \<open>Values\<close>

text \<open>
  A Go value of the generated packages. Pointers and interfaces may be nil; a pointer keeps the type it
  points to. A struct has, per field, the field's name, its \<open>path\<close> tag and its value.
\<close>

datatype gval =
    VScalar string string
  | VPtr gotype "gval option"
  | VIface "gval option"
  | VStruct string "(string \<times> string option \<times> gval) list"
  | VMap "(string \<times> gval) list"
  | VSlice "gval list"

text \<open>The name of the type behind pointers, the key into \<open>SchemaTree\<close>.\<close>

fun valTypeName :: "gval \<Rightarrow> string" where
  "valTypeName (VScalar t _) = t"
| "valTypeName (VPtr t _) = typeName (derefType t)"
| "valTypeName (VIface _) = []"
| "valTypeName (VStruct n _) = n"
| "valTypeName (VMap _) = []"
| "valTypeName (VSlice _) = []"

text \<open>A \<open>reflect.Value\<close>; \<open>rv_RO\<close> is the flag of a value reached through an unexported field.\<close>

record reflectVal =
  rv_val :: gval
  rv_RO :: bool

definition CanInterface :: "reflectVal \<Rightarrow> bool" where
  "CanInterface v = (\<not> rv_RO v)"

text \<open>\<open>Value.Interface\<close>: the content of an interface value.\<close>

definition Interface :: "reflectVal \<Rightarrow> gval option" where
  "Interface v = (case rv_val v of VIface c \<Rightarrow> c | w \<Rightarrow> Some w)"

definition exported :: "string \<Rightarrow> bool" where
  "exported n = (case n of [] \<Rightarrow> False | c # _ \<Rightarrow> CHR ''A'' \<le> c \<and> c \<le> CHR ''Z'')"

text \<open>The functions of \<open>ydb\<close> on values and the key map of a list entry.\<close>

record ydbVals =
  IsValScalar :: "reflectVal \<Rightarrow> bool"
  IsValMap :: "reflectVal \<Rightarrow> bool"
  ValFind :: "reflectVal \<Rightarrow> string \<Rightarrow> reflectVal option"
  ListKeyMap :: "gval \<Rightarrow> (string, string) gomap option"

section \<open>Children\<close>

record dataAndPath =
  dp_Value :: reflectVal
  dp_Key :: "string list"

definition appendCopy :: "string list \<Rightarrow> string \<Rightarrow> string list" where
  "appendCopy curkey addkey = curkey @ [addkey]"

definition fieldKey :: "string \<Rightarrow> string \<Rightarrow> string option \<Rightarrow> string" where
  "fieldKey prefix name tag =
     (let key = (case tag of Some t \<Rightarrow> prefix @ t | None \<Rightarrow> prefix) in if key = prefix then name else key)"

definition keyMapText :: "string \<Rightarrow> (string, string) gomap \<Rightarrow> string" where
  "keyMapText prefix keymap = prefix @ concat (map (\<lambda>(k, v). ''['' @ k @ ''='' @ v @ '']'') keymap)"

text \<open>The entries of a map, as children of a node with the key \<open>k\<close>.\<close>

definition mapChildren :: "ydbVals \<Rightarrow> bool \<Rightarrow> string list \<Rightarrow> string \<Rightarrow> (string \<times> gval) list \<Rightarrow> dataAndPath list" where
  "mapChildren y ro k prefix entries =
     concat (map (\<lambda>(_, ev).
        if ro then []
        else (case ListKeyMap y ev of
                None \<Rightarrow> []
              | Some keymap \<Rightarrow>
                  [\<lparr>dp_Value = \<lparr>rv_val = ev, rv_RO = ro\<rparr>, dp_Key = appendCopy k (keyMapText prefix keymap)\<rparr>])) entries)"

text \<open>The children of one value; the second result of the Go function is whether there are any.\<close>

function (sequential) getAllChildren :: "ydbVals \<Rightarrow> gval \<Rightarrow> bool \<Rightarrow> string list \<Rightarrow> string \<Rightarrow> dataAndPath list" where
  "getAllChildren y (VPtr t None) ro k prefix = []"
| "getAllChildren y (VPtr t (Some v)) ro k prefix = getAllChildren y v ro k prefix"
| "getAllChildren y (VIface None) ro k prefix = []"
| "getAllChildren y (VIface (Some v)) ro k prefix = getAllChildren y v ro k prefix"
| "getAllChildren y (VStruct n flds) ro k prefix =
     concat (map (\<lambda>(name, tag, fv).
        if IsValMap y \<lparr>rv_val = fv, rv_RO = ro \<or> \<not> exported name\<rparr> then []
        else [\<lparr>dp_Value = \<lparr>rv_val = fv, rv_RO = ro \<or> \<not> exported name\<rparr>,
               dp_Key = appendCopy k (fieldKey prefix name tag)\<rparr>]) flds)
     @ concat (map (\<lambda>(name, tag, fv).
        if IsValMap y \<lparr>rv_val = fv, rv_RO = ro \<or> \<not> exported name\<rparr>
        then getAllChildren y fv (ro \<or> \<not> exported name) k (prefix @ fieldKey prefix name tag)
        else []) flds)"
| "getAllChildren y (VMap entries) ro k prefix = mapChildren y ro k prefix entries"
| "getAllChildren y (VSlice elems) ro k prefix = map (\<lambda>v. \<lparr>dp_Value = \<lparr>rv_val = v, rv_RO = ro\<rparr>, dp_Key = k\<rparr>) elems"
| "getAllChildren y (VScalar t s) ro k prefix = []"
  by pat_completeness auto

lemma size_field_val: "(name, tag, fv) \<in> set flds \<Longrightarrow> size fv < size (VStruct n flds)"
  by (induction flds) auto

lemma size_entry_val: "(k, v) \<in> set entries \<Longrightarrow> size v < size (VMap entries)"
  by (induction entries) auto

lemma size_elem_val: "v \<in> set elems \<Longrightarrow> size v < size (VSlice elems)"
  by (induction elems) auto

termination getAllChildren
  by (relation "measure (\<lambda>(y, v, ro, k, prefix). size v)") (auto dest: size_field_val)

abbreviation children :: "ydbVals \<Rightarrow> dataAndPath \<Rightarrow> string \<Rightarrow> dataAndPath list" where
  "children y dpath prefix \<equiv> getAllChildren y (rv_val (dp_Value dpath)) (rv_RO (dp_Value dpath)) (dp_Key dpath) prefix"

lemma size_mapChildren:
  "c \<in> set (mapChildren y ro k prefix entries) \<Longrightarrow> size (rv_val (dp_Value c)) < size (VMap entries)"
  using size_entry_val [of _ _ entries]
  by (auto simp: mapChildren_def simp del: gval.size split: if_splits option.splits)

lemma size_getAllChildren:
  "c \<in> set (getAllChildren y v ro k prefix) \<Longrightarrow> size (rv_val (dp_Value c)) < size v"
proof (induction y v ro k prefix rule: getAllChildren.induct)
  case (5 y n flds ro k prefix)
  show ?case
  proof (cases "\<exists>name tag fv. (name, tag, fv) \<in> set flds \<and> size (rv_val (dp_Value c)) \<le> size fv")
    case True
    then show ?thesis using size_field_val [of _ _ _ flds n] by fastforce
  next
    case False
    with 5 show ?thesis by (fastforce split: if_splits)
  qed
next
  case (7 y elems ro k prefix)
  then show ?case using size_elem_val by (auto simp del: gval.size)
next
  case (6 y entries ro k prefix)
  then show ?case using size_mapChildren by (simp del: gval.size)
qed auto

section \<open>Search\<close>

text \<open>\<open>ydb.ValFind\<close> searches by content; a map that it finds stands for its entries.\<close>

definition findChildren :: "ydbVals \<Rightarrow> dataAndPath \<Rightarrow> string \<Rightarrow> dataAndPath list" where
  "findChildren y dpath key =
     (case ValFind y (dp_Value dpath) key of
        None \<Rightarrow> []
      | Some cv \<Rightarrow>
          if IsValMap y cv then children y (dpath\<lparr>dp_Value := cv\<rparr>) key
          else [\<lparr>dp_Value = cv, dp_Key = appendCopy (dp_Key dpath) key\<rparr>])"

text \<open>The text searched for one element: a key with the value \<open>*\<close> drops all keys.\<close>

fun elemKeys :: "string \<Rightarrow> (string, string) gomap \<Rightarrow> string list \<Rightarrow> string list" where
  "elemKeys name [] ke = ke"
| "elemKeys name ((k, kv) # keys) ke =
     (if kv = ''*'' then [name] else elemKeys name keys (ke @ [''['' @ k @ ''='' @ kv @ '']'']))"

definition elemKey :: "pathElem \<Rightarrow> string" where
  "elemKey e = Join (elemKeys (pe_Name e) (pe_Key e) [pe_Name e]) []"

function (sequential) findAllData :: "ydbVals \<Rightarrow> dataAndPath \<Rightarrow> pathElem list \<Rightarrow> dataAndPath list" where
  "findAllData y dpath [] = [dpath]"
| "findAllData y dpath (e # elems) =
     (if IsValScalar y (dp_Value dpath) then []
      else if pe_Name e = ''*'' then
        concat (map (\<lambda>child. findAllData y child elems) (children y dpath []))
      else if pe_Name e = ''...'' then
        concat (map (\<lambda>child. findAllData y child elems) (children y dpath []))
        @ concat (map (\<lambda>child. findAllData y child (e # elems)) (children y dpath []))
      else concat (map (\<lambda>child. findAllData y child elems) (findChildren y dpath (elemKey e))))"
  by pat_completeness auto
termination
  by (relation "inv_image (less_than <*lex*> less_than) (\<lambda>(y, dpath, elems). (length elems, size (rv_val (dp_Value dpath))))")
    (auto dest: size_getAllChildren)

declare findAllData.simps(2) [simp del]

text \<open>A \<open>DataAndPath\<close>, with the interface value; \<open>None\<close> is nil.\<close>

record DataAndPath =
  d_Value :: "gval option"
  d_Path :: string

datatype findOption = AddFakePrefix "gpath option" | FindAndSort

fun hasAddFakePrefix :: "findOption list \<Rightarrow> gpath option" where
  "hasAddFakePrefix [] = None"
| "hasAddFakePrefix (AddFakePrefix p # opts) = p"
| "hasAddFakePrefix (FindAndSort # opts) = hasAddFakePrefix opts"

fun hasFindAndSort :: "findOption list \<Rightarrow> bool" where
  "hasFindAndSort [] = False"
| "hasFindAndSort (FindAndSort # opts) = True"
| "hasFindAndSort (AddFakePrefix p # opts) = hasFindAndSort opts"

text \<open>
  The loop replaces the first \<open>AddFakePrefix\<close>. Its \<open>ok\<close> shadows the one tested afterwards, which stays
  false, so the option is appended in any case.
\<close>

fun replaceFirst :: "findOption list \<Rightarrow> findOption \<Rightarrow> findOption list" where
  "replaceFirst [] opt = []"
| "replaceFirst (AddFakePrefix p # opts) opt = opt # opts"
| "replaceFirst (FindAndSort # opts) opt = FindAndSort # replaceFirst opts opt"

definition replaceAddFakePrefix :: "findOption list \<Rightarrow> findOption \<Rightarrow> findOption list" where
  "replaceAddFakePrefix opts opt = replaceFirst opts opt @ [opt]"

text \<open>The check of the path against the schema, up to the first wildcard.\<close>

fun pathInSchema :: "yentry \<Rightarrow> pathElem list \<Rightarrow> bool" where
  "pathInSchema entry [] = True"
| "pathInSchema entry (e # elems) =
     (if pe_Name e = ''*'' \<or> pe_Name e = ''...'' then True
      else (case map_get (en_Dir entry) (pe_Name e) of
              None \<Rightarrow> False
            | Some entry' \<Rightarrow> if keysKnown entry' (pe_Key e) then pathInSchema entry' elems else False))"

definition foundPath :: "string \<Rightarrow> string list \<Rightarrow> string" where
  "foundPath prefix key = (if prefix = ''/'' then Join key ''/'' else prefix @ Join key ''/'')"

definition Find :: "ydbVals \<Rightarrow> schemaModel \<Rightarrow> gval option \<Rightarrow> gpath option \<Rightarrow> findOption list \<Rightarrow> DataAndPath list \<times> bool" where
  "Find y m base path opts =
     (case base of
        None \<Rightarrow> ([], False)
      | Some v \<Rightarrow>
          (case map_get (SchemaTree m) (valTypeName v) of
             None \<Rightarrow> ([], False)
           | Some entry \<Rightarrow>
               (let fprefix = (case hasAddFakePrefix opts of None \<Rightarrow> empty_gpath | Some p \<Rightarrow> p);
                    prefix = ToXPath (Some fprefix) in
                if GetElem path = [] then ([\<lparr>d_Value = base, d_Path = prefix\<rparr>], True)
                else if \<not> pathInSchema entry (GetElem path) then ([], False)
                else
                  (let founds = findAllData y \<lparr>dp_Value = \<lparr>rv_val = v, rv_RO = False\<rparr>, dp_Key = [[]]\<rparr> (GetElem path) in
                   if founds = [] then ([], False)
                   else
                     (let rvalues = map (\<lambda>each. \<lparr>d_Value = Interface (dp_Value each), d_Path = foundPath prefix (dp_Key each)\<rparr>)
                            (filter (\<lambda>each. CanInterface (dp_Value each)) founds) in
                      (if hasFindAndSort opts then sort_key d_Path rvalues else rvalues, True))))))"

text \<open>The values that implement \<open>ygot.GoStruct\<close>: pointers to the generated structs, nil ones too.\<close>

fun asGoStruct :: "gval option \<Rightarrow> bool" where
  "asGoStruct (Some (VPtr (TStruct n fs) v)) = True"
| "asGoStruct _ = False"

fun listAll_loop ::
    "ydbVals \<Rightarrow> schemaModel \<Rightarrow> DataAndPath list \<Rightarrow> findOption list \<Rightarrow> (serr, DataAndPath list) result" where
  "listAll_loop y m [] opts = Ok []"
| "listAll_loop y m (targetNode # targetNodes) opts =
     (if asGoStruct (d_Value targetNode) then
        (case ToGNMIPath (d_Path targetNode) of
           Inl (Panic p) \<Rightarrow> Panics p
         | r \<Rightarrow>
             (let tpath = (case r of Inr g \<Rightarrow> Some g | Inl _ \<Rightarrow> None);
                  opts' = replaceAddFakePrefix opts (AddFakePrefix tpath);
                  allNodes = fst (Find y m (d_Value targetNode) (Some WildcardGNMIPathDot3) opts')
              in case listAll_loop y m targetNodes opts' of
                   Inl e \<Rightarrow> Inl e
                 | Inr rest \<Rightarrow> Ok (allNodes @ rest)))
      else (case listAll_loop y m targetNodes opts of
              Inl e \<Rightarrow> Inl e
            | Inr rest \<Rightarrow> Ok (targetNode # rest)))"

definition ListAll ::
    "ydbVals \<Rightarrow> schemaModel \<Rightarrow> gval option \<Rightarrow> gpath option \<Rightarrow> findOption list \<Rightarrow> (serr, DataAndPath list) result" where
  "ListAll y m base path opts =
     (case path of
        None \<Rightarrow> Ok (fst (Find y m base (Some WildcardGNMIPathDot3) opts))
      | Some _ \<Rightarrow> listAll_loop y m (fst (Find y m base path opts)) opts)"

text \<open>\<open>FindAllData\<close>, the search without a schema.\<close>

definition FindAllData :: "ydbVals \<Rightarrow> gval \<Rightarrow> gpath option \<Rightarrow> DataAndPath list \<times> bool" where
  "FindAllData y gs path =
     (if GetElem path = [] then ([\<lparr>d_Value = Some gs, d_Path = ''/''\<rparr>], True)
      else
        (let founds = findAllData y \<lparr>dp_Value = \<lparr>rv_val = gs, rv_RO = False\<rparr>, dp_Key = [[]]\<rparr> (GetElem path);
             rvalues = map (\<lambda>each. \<lparr>d_Value = Interface (dp_Value each), d_Path = Join (dp_Key each) ''/''\<rparr>)
                         (filter (\<lambda>each. CanInterface (dp_Value each)) founds)
         in (rvalues, rvalues \<noteq> [])))"

text \<open>
  The text of a scalar: \<open>enc\<close> is \<open>ygot.EncodeTypedValue\<close> with the JSON-IETF encoding followed by the
  print of the first field of the message, \<open>None\<close> where it fails or gives no value.
\<close>

definition GetValueString :: "(gval \<Rightarrow> bool) \<Rightarrow> (gval \<Rightarrow> string option) \<Rightarrow> DataAndPath \<Rightarrow> string" where
  "GetValueString isScalar enc dap =
     (case d_Value dap of
        None \<Rightarrow> []
      | Some v \<Rightarrow> if isScalar v then (case enc v of None \<Rightarrow> [] | Some s \<Rightarrow> s) else [])"


section \<open>Search in the types\<close>

text \<open>\<open>findAllSchemaPaths\<close>: the walk of \<open>Model.findAllPaths\<close> without the keys.\<close>

function (sequential) findAllSchemaPaths :: "ydbTypes \<Rightarrow> gotype \<Rightarrow> string \<Rightarrow> pathElem list \<Rightarrow> pathFinder list" where
  "findAllSchemaPaths y (TMap t) path elems =
     concat (map (\<lambda>csp. findAllSchemaPaths y (pf_t csp) (pf_path csp) elems)
       (fst (getAllSchemaPaths (IsStartedWithUpper y) (TMap t) path)))"
| "findAllSchemaPaths y t path [] = [\<lparr>pf_t = t, pf_path = path\<rparr>]"
| "findAllSchemaPaths y t path (e # elems) =
     (if IsTypeScalar y t then []
      else if pe_Name e = ''*'' then
        concat (map (\<lambda>csp. findAllSchemaPaths y (pf_t csp) (pf_path csp) elems)
          (fst (getAllSchemaPaths (IsStartedWithUpper y) t path)))
      else if pe_Name e = ''...'' then
        concat (map (\<lambda>csp. findAllSchemaPaths y (pf_t csp) (pf_path csp) elems
                       @ findAllSchemaPaths y (pf_t csp) (pf_path csp) (e # elems))
          (fst (getAllSchemaPaths (IsStartedWithUpper y) t path)))
      else
        (case findSchemaPath t path (pe_Name e) of
           None \<Rightarrow> []
         | Some csp \<Rightarrow> findAllSchemaPaths y (pf_t csp) (pf_path csp) elems))"
  by pat_completeness auto
termination
  by (relation "measure (\<lambda>(y, t, path, elems). size t + length elems)")
    (auto simp del: getAllSchemaPaths.simps findSchemaPath.simps dest!: size_getAllSchemaPaths size_findSchemaPath)

definition FindAllSchemaPaths :: "ydbTypes \<Rightarrow> gotype \<Rightarrow> gpath option \<Rightarrow> string list \<times> bool" where
  "FindAllSchemaPaths y t path =
     (if GetElem path = [] then ([''/''], True)
      else
        (let rsplist = findAllSchemaPaths y t [] (GetElem path) in
         if rsplist = [] then ([], False) else (map pf_path rsplist, True)))"

lemma findAllPaths_keyless:
  "list_all (\<lambda>e. pe_Key e = []) elems \<Longrightarrow> findAllPaths y m t path elems = findAllSchemaPaths y t path elems"
proof (induction y t path elems rule: findAllSchemaPaths.induct)
  case (1 y t path elems)
  then show ?case by simp
qed (auto simp: withKeys_def split: option.splits intro!: arg_cong [where f = concat])

section \<open>All descendants\<close>

text \<open>The reference for the search by \<open>...\<close>: the children of a node, then what is below each of them.\<close>

function (sequential) descendants :: "ydbVals \<Rightarrow> dataAndPath \<Rightarrow> dataAndPath list" where
  "descendants y dpath =
     (if IsValScalar y (dp_Value dpath) then []
      else children y dpath [] @ concat (map (descendants y) (children y dpath [])))"
  by pat_completeness auto
termination
  by (relation "measure (\<lambda>(y, dpath). size (rv_val (dp_Value dpath)))") (auto dest: size_getAllChildren)

declare descendants.simps [simp del]

lemma findAllData_dot3: "findAllData y dpath [mkElem ''...'' keys] = descendants y dpath"
proof (induction y dpath rule: descendants.induct)
  case (1 y dpath)
  have "map (\<lambda>child. findAllData y child [mkElem ''...'' keys]) (children y dpath []) = map (descendants y) (children y dpath [])"
    if "\<not> IsValScalar y (dp_Value dpath)"
    using 1 that by (intro map_cong) auto
  then show ?case
    by (auto simp: findAllData.simps(2) [of y dpath] descendants.simps [of y dpath] mkElem_def concat_map_singleton
        cong: map_cong)
qed

lemma hasAddFakePrefix_replace: "hasAddFakePrefix (replaceAddFakePrefix opts (AddFakePrefix p)) = p"
proof -
  have "hasAddFakePrefix (replaceFirst opts (AddFakePrefix p) @ [AddFakePrefix p]) = p"
    by (induction opts "AddFakePrefix p" rule: replaceFirst.induct) auto
  then show ?thesis by (simp add: replaceAddFakePrefix_def)
qed

lemma validatePathSchema_pathInSchema: "validatePathSchema entry elems \<Longrightarrow> pathInSchema entry elems"
  by (induction entry elems rule: pathInSchema.induct)
    (auto simp: validatePathSchema.simps(2) split: if_splits option.splits)

section \<open>Properties\<close>


fun exKeyMap :: "gval \<Rightarrow> (string, string) gomap option" where
  "exKeyMap (VPtr _ (Some (VStruct _ ((n, Some t, VPtr _ (Some (VScalar _ k))) # _)))) = Some [(t, k)]"
| "exKeyMap _ = None"

text \<open>A search by content: a field by its tag, an entry of a list field by its tag and keys.\<close>

fun exFields :: "(string \<times> string option \<times> gval) list \<Rightarrow> (string \<times> gval) list" where
  "exFields [] = []"
| "exFields ((n, tag, w) # flds) =
     (let key = (case tag of Some t \<Rightarrow> t | None \<Rightarrow> n) in
      (key, w) # (case w of
         VMap entries \<Rightarrow> concat (map (\<lambda>(_, ev). case exKeyMap ev of Some km \<Rightarrow> [(keyMapText key km, ev)] | None \<Rightarrow> []) entries)
       | _ \<Rightarrow> []) @ exFields flds)"

definition exVals :: ydbVals where
  "exVals = \<lparr>IsValScalar = (\<lambda>v. case rv_val v of VScalar _ _ \<Rightarrow> True | VPtr (TScalar _) _ \<Rightarrow> True | _ \<Rightarrow> False),
     IsValMap = (\<lambda>v. case rv_val v of VMap _ \<Rightarrow> True | _ \<Rightarrow> False),
     ValFind = (\<lambda>v key. case rv_val v of
        VPtr _ (Some (VStruct _ flds)) \<Rightarrow> map_option (\<lambda>w. \<lparr>rv_val = w, rv_RO = rv_RO v\<rparr>) (map_of (exFields flds) key)
      | _ \<Rightarrow> None),
     ListKeyMap = exKeyMap\<rparr>"

definition exInterface :: "string \<Rightarrow> gval" where
  "exInterface n = VPtr (TStruct ''Interface'' []) (Some (VStruct ''Interface''
     [(''Name'', Some ''name'', VPtr (TScalar ''string'') (Some (VScalar ''string'' n))),
      (''Mtu'', Some ''mtu'', VPtr (TScalar ''uint16'') None)]))"

definition exRoot :: gval where
  "exRoot = VPtr (TStruct ''Device'' []) (Some (VStruct ''Device'' [(''Interface'', Some ''interface'', VMap [(''eth0'', exInterface ''eth0'')])]))"


text \<open>For paths without keys, the search of data paths that the model uses for subscriptions and the
  search by types agree.\<close>

lemma schema_paths_agree:
  assumes "list_all (\<lambda>e. pe_Key e = []) (GetElem path)"
  shows "FindAllPaths y m path = FindAllSchemaPaths y (rootType m) path"
  using findAllPaths_keyless [OF assms] by (simp add: FindAllPaths_def FindAllSchemaPaths_def)

definition exTypes :: ydbTypes where
  "exTypes = \<lparr>IsTypeScalar = (\<lambda>t. case t of TScalar _ \<Rightarrow> True | _ \<Rightarrow> False),
     IsTypeMap = (\<lambda>t. case t of TMap _ \<Rightarrow> True | _ \<Rightarrow> False), IsStartedWithUpper = (\<lambda>_. True)\<rparr>"

definition exModel :: schemaModel where
  "exModel = sampleSchema\<lparr>SchemaTree := (''Interface'', YEntry ''interface'' ''name'' False ListEntry
       [(''name'', YEntry ''name'' [] False LeafEntry []), (''mtu'', YEntry ''mtu'' [] False LeafEntry [])]) # SchemaTree sampleSchema,
     rootType := TStruct ''Device'' [(''Interface'', Some ''interface'',
       TMap (TPtr (TStruct ''Interface'' [(''Name'', Some ''name'', TPtr (TScalar ''string''))])))]\<rparr>"

lemma schema_paths_agree_witness:
  "FindAllSchemaPaths exTypes (rootType exModel) (Some WildcardGNMIPathDot3) = FindAllPaths exTypes exModel (Some WildcardGNMIPathDot3)
   \<and> FindAllPaths exTypes exModel (Some WildcardGNMIPathDot3) = ([''/interface'', ''/interface/name''], True)"
proof
  show "FindAllSchemaPaths exTypes (rootType exModel) (Some WildcardGNMIPathDot3) = FindAllPaths exTypes exModel (Some WildcardGNMIPathDot3)"
    by (rule schema_paths_agree [symmetric]) (simp add: GetElem_def mkElem_def WildcardGNMIPathDot3_def)
qed code_simp

end
