(* ===== verification/DataNodes.thy ===== *)
theory DataNodes
  imports DataTree
begin

text \<open>
  The searches of \<open>gnmi/model/utilities.go\<close> that rest on \<open>ydb.ValGetAll\<close> and \<open>ydb.TypeGetAll\<close>. The source does not say what those functions return, so that a search need not end: its result is
  \<open>None\<close> then. It ends if children are smaller than their parents.
\<close>

section \<open>Collecting results that may be missing\<close>

fun collect :: "('a \<Rightarrow> 'b list option) \<Rightarrow> 'a list \<Rightarrow> 'b list option" where
  "collect f [] = Some []"
| "collect f (x # xs) = Option.bind (f x) (\<lambda>ys. Option.bind (collect f xs) (\<lambda>zs. Some (ys @ zs)))"

lemma collect_mono [partial_function_mono]:
  assumes "\<And>x. mono_option (\<lambda>f. F x f)"
  shows "mono_option (\<lambda>f. collect (\<lambda>x. F x f) xs)"
proof (induction xs)
  case Nil
  show ?case by (simp add: option.const_mono)
next
  case (Cons x xs)
  have "mono_option (\<lambda>f. Option.bind (F x f) (\<lambda>ys. Option.bind (collect (\<lambda>x. F x f) xs) (\<lambda>zs. Some (ys @ zs))))"
    by (intro bind_mono assms Cons.IH option.const_mono)
  then show ?case by simp
qed

lemma collect_cong [fundef_cong]:
  "xs = ys \<Longrightarrow> (\<And>x. x \<in> set ys \<Longrightarrow> f x = g x) \<Longrightarrow> collect f xs = collect g ys"
  by (induction ys arbitrary: xs) auto

lemma collect_Some: "(\<And>x. x \<in> set xs \<Longrightarrow> f x = Some (g x)) \<Longrightarrow> collect f xs = Some (concat (map g xs))"
  by (induction xs) auto

lemma collect_ends: "(\<And>x. x \<in> set xs \<Longrightarrow> \<exists>ys. f x = Some ys) \<Longrightarrow> \<exists>ys. collect f xs = Some ys"
  by (induction xs) fastforce+

section \<open>The search\<close>

text \<open>
  The body that \<open>findAllDataNodes\<close> and \<open>findAllSchemaTypes\<close> share. A map is expanded first, also at the end of the path;
  \<open>...\<close> searches for the rest of the path and for the whole path again below each child.
\<close>

record 'v nodeOps =
  no_isMap :: "'v \<Rightarrow> bool"
  no_isScalar :: "'v \<Rightarrow> bool"
  no_getAll :: "'v \<Rightarrow> 'v list option"
  no_find :: "'v \<Rightarrow> pathElem \<Rightarrow> 'v option"

partial_function (option) searchNodes :: "'v nodeOps \<Rightarrow> 'v \<Rightarrow> pathElem list \<Rightarrow> 'v list option" where
  "searchNodes ops v elems =
     (if no_isMap ops v then
        (case no_getAll ops v of
           None \<Rightarrow> Some []
         | Some cvlist \<Rightarrow> collect (\<lambda>cv. searchNodes ops cv elems) cvlist)
      else
        (case elems of
           [] \<Rightarrow> Some [v]
         | elem # celems \<Rightarrow>
             if no_isScalar ops v then Some []
             else if pe_Name elem = ''*'' then
               (case no_getAll ops v of
                  None \<Rightarrow> Some []
                | Some cvlist \<Rightarrow> collect (\<lambda>cv. searchNodes ops cv celems) cvlist)
             else if pe_Name elem = ''...'' then
               (case no_getAll ops v of
                  None \<Rightarrow> Some []
                | Some cvlist \<Rightarrow> collect (\<lambda>cv.
                    Option.bind (searchNodes ops cv celems) (\<lambda>ccvlist.
                    Option.bind (searchNodes ops cv elems) (\<lambda>rest. Some (ccvlist @ rest)))) cvlist)
             else
               (case no_find ops v elem of
                  None \<Rightarrow> Some []
                | Some cv \<Rightarrow> searchNodes ops cv celems)))"

definition given :: "('v \<Rightarrow> 'v list option) \<Rightarrow> 'v \<Rightarrow> 'v list" where
  "given getAll v = (case getAll v of None \<Rightarrow> [] | Some cvs \<Rightarrow> cvs)"

text \<open>
  The contract of a provider of children: the children of a node are smaller than the node, in some measure. Then the search
  ends, since a step with \<open>...\<close> keeps the path and goes down, and any other step that keeps the depth shortens the path.
\<close>

locale node_search =
  fixes ops :: "'v nodeOps" and sz :: "'v \<Rightarrow> nat"
  assumes smaller: "no_getAll ops v = Some cvs \<Longrightarrow> cv \<in> set cvs \<Longrightarrow> sz cv < sz v"
begin

lemma both_end:
  assumes "searchNodes ops cv celems = Some xs" "searchNodes ops cv elems = Some ys"
  shows "\<exists>vs. Option.bind (searchNodes ops cv celems) (\<lambda>xs. Option.bind (searchNodes ops cv elems) (\<lambda>ys. Some (xs @ ys))) = Some vs"
  using assms by simp

lemma search_ends: "\<exists>vs. searchNodes ops v elems = Some vs"
proof (induction "length elems" arbitrary: elems v rule: less_induct)
  case less
  note shorter = less
  show ?case
  proof (induction "sz v" arbitrary: v rule: less_induct)
    case (less v)
    have sub: "\<exists>vs. searchNodes ops cv elems' = Some vs"
      if "length elems' < length elems \<or> elems' = elems \<and> sz cv < sz v" for cv elems'
      using shorter less that by blast
    show ?case
    proof (cases elems)
      case Nil
      then show ?thesis
        by (subst searchNodes.simps) (auto split: option.split intro!: collect_ends sub dest: smaller)
    next
      case (Cons e celems)
      have "\<exists>vs. Option.bind (searchNodes ops cv celems) (\<lambda>xs. Option.bind (searchNodes ops cv elems) (\<lambda>ys. Some (xs @ ys))) = Some vs"
        if "sz cv < sz v" for cv
        using sub [of celems cv] sub [of elems cv] Cons that both_end by (metis length_Cons lessI)
      with Cons show ?thesis
        using sub smaller by (subst searchNodes.simps) (auto split: option.split intro!: collect_ends)
    qed
  qed
qed

lemma given_smaller: "cv \<in> set (given (no_getAll ops) v) \<Longrightarrow> sz cv < sz v"
  using smaller by (cases "no_getAll ops v") (auto simp: given_def)

end

definition descends :: "('v \<Rightarrow> nat) \<Rightarrow> 'v nodeOps \<Rightarrow> bool" where
  "descends sz ops = (\<forall>v cvs. no_getAll ops v = Some cvs \<longrightarrow> (\<forall>cv \<in> set cvs. sz cv < sz v))"

lemma descends_search: "descends sz ops \<Longrightarrow> node_search ops sz"
  by unfold_locales (auto simp: descends_def)

lemma searchNodes_map:
  "no_isMap ops v \<Longrightarrow> searchNodes ops v elems = collect (\<lambda>cv. searchNodes ops cv elems) (given (no_getAll ops) v)"
  by (subst searchNodes.simps) (simp add: given_def split: option.split)

lemma searchNodes_end: "\<not> no_isMap ops v \<Longrightarrow> searchNodes ops v [] = Some [v]"
  by (subst searchNodes.simps) simp

lemma searchNodes_elem:
  assumes "\<not> no_isMap ops v"
  shows "searchNodes ops v (e # elems) =
     (if no_isScalar ops v then Some []
      else if pe_Name e = ''*'' then collect (\<lambda>cv. searchNodes ops cv elems) (given (no_getAll ops) v)
      else if pe_Name e = ''...'' then
        collect (\<lambda>cv. Option.bind (searchNodes ops cv elems) (\<lambda>xs.
          Option.bind (searchNodes ops cv (e # elems)) (\<lambda>ys. Some (xs @ ys)))) (given (no_getAll ops) v)
      else (case no_find ops v e of None \<Rightarrow> Some [] | Some cv \<Rightarrow> searchNodes ops cv elems))"
  using assms by (subst searchNodes.simps) (simp add: given_def split: option.split)

section \<open>The search of data nodes\<close>

text \<open>\<open>getAll\<close> is \<open>ydb.ValGetAll\<close>.\<close>

definition isMapVal :: "reflectVal \<Rightarrow> bool" where
  "isMapVal v = (case rv_val v of VMap _ \<Rightarrow> True | _ \<Rightarrow> False)"

definition dataOps :: "ydbVals \<Rightarrow> (reflectVal \<Rightarrow> reflectVal list option) \<Rightarrow> reflectVal nodeOps" where
  "dataOps y getAll = \<lparr>no_isMap = isMapVal, no_isScalar = IsValScalar y, no_getAll = getAll,
     no_find = (\<lambda>v elem. ValFind y v (elemKey elem))\<rparr>"

definition findAllDataNodes ::
    "ydbVals \<Rightarrow> (reflectVal \<Rightarrow> reflectVal list option) \<Rightarrow> reflectVal \<Rightarrow> pathElem list \<Rightarrow> reflectVal list option" where
  "findAllDataNodes y getAll v elems = searchNodes (dataOps y getAll) v elems"

definition FindAllDataNodes ::
    "ydbVals \<Rightarrow> (reflectVal \<Rightarrow> reflectVal list option) \<Rightarrow> gval \<Rightarrow> gpath option \<Rightarrow> (gval option list \<times> bool) option" where
  "FindAllDataNodes y getAll gs path =
     (if GetElem path = [] then Some ([Some gs], True)
      else
        (case findAllDataNodes y getAll \<lparr>rv_val = gs, rv_RO = False\<rparr> (GetElem path) of
           None \<Rightarrow> None
         | Some rvlist \<Rightarrow>
             if rvlist = [] then Some ([], False)
             else (let rvalues = map Interface (filter CanInterface rvlist) in Some (rvalues, rvalues \<noteq> []))))"

text \<open>What \<open>getAllChildren\<close> of the source gives, without the keys.\<close>

definition childVals :: "ydbVals \<Rightarrow> reflectVal \<Rightarrow> reflectVal list" where
  "childVals y v = map dp_Value (getAllChildren y (rv_val v) (rv_RO v) [] [])"

text \<open>A list stands for its entries.\<close>

definition expand :: "(reflectVal \<Rightarrow> reflectVal list option) \<Rightarrow> reflectVal \<Rightarrow> reflectVal set" where
  "expand getAll c = (if isMapVal c then set (given getAll c) else {c})"

text \<open>
  On the values \<open>W\<close> of a tree, \<open>ydb.ValGetAll\<close> and \<open>getAllChildren\<close> list the same children, except that the former gives a
  list as one map. No list of a tree holds another list.
\<close>

definition listsChildren :: "ydbVals \<Rightarrow> (reflectVal \<Rightarrow> reflectVal list option) \<Rightarrow> reflectVal set \<Rightarrow> bool" where
  "listsChildren y getAll W =
     (\<forall>v \<in> W. IsValMap y v = isMapVal v
        \<and> (\<forall>c \<in> set (childVals y v). c \<in> W \<and> \<not> isMapVal c)
        \<and> (\<forall>k cv. ValFind y v k = Some cv \<longrightarrow> cv \<in> W)
        \<and> (if isMapVal v then set (given getAll v) = set (childVals y v)
           else (\<Union>c \<in> set (given getAll v). expand getAll c) = set (childVals y v)))"

lemma mapChildren_values: "map dp_Value (mapChildren y ro k prefix entries) = map dp_Value (mapChildren y ro k' prefix' entries)"
  by (auto simp: mapChildren_def map_concat intro!: arg_cong [where f = concat] split: option.split)

lemma map_concat_cong:
  "(\<And>x. x \<in> set xs \<Longrightarrow> map h (f x) = map h (g x)) \<Longrightarrow> map h (concat (map f xs)) = map h (concat (map g xs))"
  by (induction xs) auto

lemma children_values: "map dp_Value (getAllChildren y v ro k prefix) = map dp_Value (getAllChildren y v ro k' prefix')"
proof (induction y v ro k prefix arbitrary: k' prefix' rule: getAllChildren.induct)
  case (5 y n flds ro k prefix)
  show ?case
    unfolding getAllChildren.simps map_append
  proof (rule arg_cong2 [where f = append])
    show "map dp_Value (concat (map (\<lambda>(name, tag, fv).
        if IsValMap y \<lparr>rv_val = fv, rv_RO = ro \<or> \<not> exported name\<rparr>
        then getAllChildren y fv (ro \<or> \<not> exported name) k (prefix @ fieldKey prefix name tag) else []) flds))
      = map dp_Value (concat (map (\<lambda>(name, tag, fv).
        if IsValMap y \<lparr>rv_val = fv, rv_RO = ro \<or> \<not> exported name\<rparr>
        then getAllChildren y fv (ro \<or> \<not> exported name) k' (prefix' @ fieldKey prefix' name tag) else []) flds))"
      by (rule map_concat_cong) (auto intro: 5)
  qed (rule map_concat_cong, auto)
next
  case (6 y entries ro k prefix)
  show ?case using mapChildren_values by simp
qed auto

lemma children_childVals: "set (childVals y (dp_Value dpath)) = dp_Value ` set (children y dpath prefix)"
  using children_values [of y "rv_val (dp_Value dpath)" "rv_RO (dp_Value dpath)" "[]" "[]" "dp_Key dpath" prefix]
  by (metis childVals_def set_map)

text \<open>A search that ends with these values.\<close>

definition yields :: "'v list option \<Rightarrow> 'v set \<Rightarrow> bool" where
  "yields r S = (\<exists>vs. r = Some vs \<and> set vs = S)"

lemma yields_collect:
  "(\<And>x. x \<in> set xs \<Longrightarrow> yields (f x) (S x)) \<Longrightarrow> yields (collect f xs) (\<Union>x \<in> set xs. S x)"
proof (induction xs)
  case (Cons x xs)
  then obtain ys zs where "f x = Some ys" "set ys = S x" "collect f xs = Some zs" "set zs = (\<Union>x \<in> set xs. S x)"
    unfolding yields_def by (metis list.set_intros)
  then show ?case by (simp add: yields_def)
qed (simp add: yields_def)

lemma yields_bind:
  "yields a A \<Longrightarrow> yields b B \<Longrightarrow> yields (Option.bind a (\<lambda>xs. Option.bind b (\<lambda>ys. Some (xs @ ys)))) (A \<union> B)"
  by (auto simp: yields_def)

lemma dataOps_simps [simp]:
  "no_isMap (dataOps y getAll) = isMapVal" "no_isScalar (dataOps y getAll) = IsValScalar y"
  "no_getAll (dataOps y getAll) = getAll" "no_find (dataOps y getAll) v e = ValFind y v (elemKey e)"
  by (simp_all add: dataOps_def)

lemma search_expand:
  assumes "\<And>c. c \<in> expand getAll cv \<Longrightarrow> yields (searchNodes (dataOps y getAll) c elems) (S c)"
  shows "yields (searchNodes (dataOps y getAll) cv elems) (\<Union>c \<in> expand getAll cv. S c)"
proof (cases "isMapVal cv")
  case True
  then show ?thesis using assms yields_collect [of "given getAll cv" _ S] by (simp add: searchNodes_map expand_def)
next
  case False
  then show ?thesis using assms by (simp add: expand_def)
qed

lemma listsChildren_expand:
  assumes "listsChildren y getAll W" "v \<in> W"
  shows "isMapVal v \<Longrightarrow> set (given getAll v) = set (childVals y v)"
    and "\<not> isMapVal v \<Longrightarrow> (\<Union>c \<in> set (given getAll v). expand getAll c) = set (childVals y v)"
    and "c \<in> set (childVals y v) \<Longrightarrow> \<not> isMapVal c" and "IsValMap y v = isMapVal v"
    and "c \<in> set (childVals y v) \<Longrightarrow> c \<in> W" and "ValFind y v k = Some cv \<Longrightarrow> cv \<in> W"
  using assms unfolding listsChildren_def by metis+

lemma search_children:
  assumes "listsChildren y getAll W" "v \<in> W" "\<not> isMapVal v"
    and "\<And>cv. cv \<in> set (given getAll v) \<Longrightarrow> yields (f cv) (\<Union>c \<in> expand getAll cv. S c)"
  shows "yields (collect f (given getAll v)) (\<Union>c \<in> set (childVals y v). S c)"
proof -
  have "yields (collect f (given getAll v)) (\<Union>cv \<in> set (given getAll v). \<Union>c \<in> expand getAll cv. S c)"
    by (rule yields_collect) (rule assms(4))
  then show ?thesis using listsChildren_expand(2) [OF assms(1,2,3)] by (metis UN_UN_flatten)
qed

lemma in_given_child:
  assumes "listsChildren y getAll W" "v \<in> W" "\<not> isMapVal v" "cv \<in> set (given getAll v)" "c \<in> expand getAll cv"
  shows "c \<in> set (childVals y v)"
  using listsChildren_expand(2) [OF assms(1,2,3)] assms(4,5) by blast

text \<open>What the searches below the children of a node give, whether a child is a list or not.\<close>

abbreviation below :: "ydbVals \<Rightarrow> (reflectVal \<Rightarrow> reflectVal list option) \<Rightarrow> pathElem list \<Rightarrow> reflectVal \<Rightarrow> reflectVal set" where
  "below y getAll es c \<equiv> set (the (searchNodes (dataOps y getAll) c es))"

lemma search_below:
  assumes l: "listsChildren y getAll W" and w: "v \<in> W" and v: "\<not> isMapVal v" and ds: "set (childVals y v) = dp_Value ` set ds"
    and IH: "\<And>d. d \<in> set ds \<Longrightarrow> yields (searchNodes (dataOps y getAll) (dp_Value d) es) (dp_Value ` set (g d))"
  shows "cv \<in> set (given getAll v) \<Longrightarrow> yields (searchNodes (dataOps y getAll) cv es) (\<Union>c \<in> expand getAll cv. below y getAll es c)"
    and "(\<Union>c \<in> set (childVals y v). below y getAll es c) = dp_Value ` (\<Union>d \<in> set ds. set (g d))"
proof -
  have b: "below y getAll es (dp_Value d) = dp_Value ` set (g d)" if "d \<in> set ds" for d
    using IH [OF that] by (auto simp: yields_def)
  then show "(\<Union>c \<in> set (childVals y v). below y getAll es c) = dp_Value ` (\<Union>d \<in> set ds. set (g d))"
    unfolding ds by auto
  show "yields (searchNodes (dataOps y getAll) cv es) (\<Union>c \<in> expand getAll cv. below y getAll es c)" if cv: "cv \<in> set (given getAll v)"
  proof (rule search_expand)
    fix c
    assume "c \<in> expand getAll cv"
    then obtain d where "d \<in> set ds" "c = dp_Value d" using in_given_child [OF l w v cv] ds by blast
    with IH b show "yields (searchNodes (dataOps y getAll) c es) (below y getAll es c)" by simp
  qed
qed

lemma search_found:
  assumes l: "listsChildren y getAll W" and w: "dp_Value dpath \<in> W" and f: "ValFind y (dp_Value dpath) (elemKey e) = Some cv"
    and IH: "\<And>d. d \<in> set (findChildren y dpath (elemKey e)) \<Longrightarrow>
      yields (searchNodes (dataOps y getAll) (dp_Value d) es) (dp_Value ` set (g d))"
  shows "yields (searchNodes (dataOps y getAll) cv es) (dp_Value ` (\<Union>d \<in> set (findChildren y dpath (elemKey e)). set (g d)))"
proof -
  note cv = listsChildren_expand(6) [OF l w f]
  show ?thesis
  proof (cases "isMapVal cv")
    case True
    then have fc: "findChildren y dpath (elemKey e) = children y (dpath\<lparr>dp_Value := cv\<rparr>) (elemKey e)"
      using f listsChildren_expand(4) [OF l cv] by (simp add: findChildren_def)
    have ds: "set (given getAll cv) = dp_Value ` set (findChildren y dpath (elemKey e))"
      using listsChildren_expand(1) [OF l cv True] children_childVals [of y "dpath\<lparr>dp_Value := cv\<rparr>" "elemKey e"] fc by simp
    have b: "below y getAll es (dp_Value d) = dp_Value ` set (g d)" if "d \<in> set (findChildren y dpath (elemKey e))" for d
      using IH [OF that] by (auto simp: yields_def)
    have "yields (collect (\<lambda>c. searchNodes (dataOps y getAll) c es) (given getAll cv)) (\<Union>c \<in> set (given getAll cv). below y getAll es c)"
    proof (rule yields_collect)
      fix c
      assume "c \<in> set (given getAll cv)"
      then obtain d where "d \<in> set (findChildren y dpath (elemKey e))" "c = dp_Value d" unfolding ds by blast
      with IH b show "yields (searchNodes (dataOps y getAll) c es) (below y getAll es c)" by simp
    qed
    moreover have "(\<Union>c \<in> set (given getAll cv). below y getAll es c) = dp_Value ` (\<Union>d \<in> set (findChildren y dpath (elemKey e)). set (g d))"
      unfolding ds using b by auto
    ultimately show ?thesis using True by (simp add: searchNodes_map)
  next
    case False
    then have "findChildren y dpath (elemKey e) = [\<lparr>dp_Value = cv, dp_Key = appendCopy (dp_Key dpath) (elemKey e)\<rparr>]"
      using f listsChildren_expand(4) [OF l cv] by (simp add: findChildren_def)
    with IH show ?thesis by simp
  qed
qed

lemma findAllDataNodes_yields:
  assumes l: "listsChildren y getAll W"
  shows "dp_Value dpath \<in> W \<Longrightarrow> \<not> isMapVal (dp_Value dpath) \<Longrightarrow>
    yields (searchNodes (dataOps y getAll) (dp_Value dpath) elems) (dp_Value ` set (findAllData y dpath elems))"
  using l
proof (induction y dpath elems rule: findAllData.induct)
  case (1 y dpath)
  then show ?case by (simp add: searchNodes_end yields_def)
next
  case (2 y dpath e elems)
  note l = \<open>listsChildren y getAll W\<close> and w = \<open>dp_Value dpath \<in> W\<close>
  let ?v = "dp_Value dpath" and ?ds = "children y dpath []"
  have v: "\<not> isMapVal ?v" by fact
  have ds: "set (childVals y ?v) = dp_Value ` set ?ds" by (rule children_childVals)
  have nomap: "\<not> isMapVal (dp_Value d)" and inW: "dp_Value d \<in> W" if "d \<in> set ?ds" for d
    using listsChildren_expand(3,5) [OF l w, of "dp_Value d"] that ds by auto
  consider (scalar) "IsValScalar y ?v" | (star) "\<not> IsValScalar y ?v" "pe_Name e = ''*''"
    | (dots) "\<not> IsValScalar y ?v" "pe_Name e = ''...''"
    | (named) "\<not> IsValScalar y ?v" "pe_Name e \<noteq> ''*''" "pe_Name e \<noteq> ''...''" by blast
  then show ?case
  proof cases
    case scalar
    then show ?thesis by (simp add: searchNodes_elem v findAllData.simps(2) yields_def)
  next
    case star
    have IH: "yields (searchNodes (dataOps y getAll) (dp_Value d) elems) (dp_Value ` set (findAllData y d elems))" if "d \<in> set ?ds" for d
      using "2.IH"(1) [OF star that inW [OF that] nomap [OF that] l] .
    have "yields (collect (\<lambda>cv. searchNodes (dataOps y getAll) cv elems) (given getAll ?v)) (\<Union>c \<in> set (childVals y ?v). below y getAll elems c)"
      by (rule search_children [OF l w v]) (rule search_below(1) [OF l w v ds IH])
    then show ?thesis
      using star search_below(2) [OF l w v ds IH] by (simp add: searchNodes_elem v findAllData.simps(2))
  next
    case dots
    have IH1: "yields (searchNodes (dataOps y getAll) (dp_Value d) elems) (dp_Value ` set (findAllData y d elems))" if "d \<in> set ?ds" for d
      using "2.IH"(2) [OF dots(1) _ dots(2) that inW [OF that] nomap [OF that] l] dots(2) by simp
    have IH2: "yields (searchNodes (dataOps y getAll) (dp_Value d) (e # elems)) (dp_Value ` set (findAllData y d (e # elems)))"
      if "d \<in> set ?ds" for d
      using "2.IH"(3) [OF dots(1) _ dots(2) that inW [OF that] nomap [OF that] l] dots(2) by simp
    have found: "set (findAllData y dpath (e # elems))
        = (\<Union>d \<in> set ?ds. set (findAllData y d elems)) \<union> (\<Union>d \<in> set ?ds. set (findAllData y d (e # elems)))"
      using dots by (subst findAllData.simps(2)) simp
    have "yields (collect (\<lambda>cv. Option.bind (searchNodes (dataOps y getAll) cv elems) (\<lambda>xs.
          Option.bind (searchNodes (dataOps y getAll) cv (e # elems)) (\<lambda>ys. Some (xs @ ys)))) (given getAll ?v))
        (\<Union>c \<in> set (childVals y ?v). below y getAll elems c \<union> below y getAll (e # elems) c)"
      by (rule search_children [OF l w v])
        (simp only: UN_Un_distrib, rule yields_bind [OF search_below(1) [OF l w v ds IH1] search_below(1) [OF l w v ds IH2]])
    then have "yields (searchNodes (dataOps y getAll) ?v (e # elems))
        (\<Union>c \<in> set (childVals y ?v). below y getAll elems c \<union> below y getAll (e # elems) c)"
      using dots by (simp add: searchNodes_elem v)
    then show ?thesis
      using search_below(2) [OF l w v ds IH1] search_below(2) [OF l w v ds IH2] by (simp only: found UN_Un_distrib image_Un)
  next
    case named
    show ?thesis
    proof (cases "ValFind y ?v (elemKey e)")
      case None
      then show ?thesis using named by (simp add: searchNodes_elem v findAllData.simps(2) findChildren_def yields_def)
    next
      case (Some cv)
      note cv = listsChildren_expand(6) [OF l w Some]
      have "dp_Value d \<in> W \<and> \<not> isMapVal (dp_Value d)" if "d \<in> set (findChildren y dpath (elemKey e))" for d
        using that Some cv listsChildren_expand(4) [OF l cv] listsChildren_expand(3,5) [OF l cv, of "dp_Value d"]
          children_childVals [of y "dpath\<lparr>dp_Value := cv\<rparr>" "elemKey e"]
        by (auto simp: findChildren_def split: if_splits)
      then have "yields (searchNodes (dataOps y getAll) (dp_Value d) elems) (dp_Value ` set (findAllData y d elems))"
        if "d \<in> set (findChildren y dpath (elemKey e))" for d
        using "2.IH"(4) [OF named that _ _ l] that by blast
      from search_found [OF l w Some this] show ?thesis
        using named Some by (simp add: searchNodes_elem v findAllData.simps(2))
    qed
  qed
qed

section \<open>The search of types\<close>

text \<open>\<open>TypeGetAll\<close> and \<open>TypeFind\<close> are the functions of \<open>ydb\<close>; elements are searched by name only.\<close>

record ydbTypeSearch =
  TypeGetAll :: "gotype \<Rightarrow> gotype list option"
  TypeFind :: "gotype \<Rightarrow> string \<Rightarrow> gotype option"

definition isMapType :: "gotype \<Rightarrow> bool" where
  "isMapType t = (case t of TMap _ \<Rightarrow> True | _ \<Rightarrow> False)"

definition typeOps :: "ydbTypes \<Rightarrow> ydbTypeSearch \<Rightarrow> gotype nodeOps" where
  "typeOps y ts = \<lparr>no_isMap = isMapType, no_isScalar = IsTypeScalar y, no_getAll = TypeGetAll ts,
     no_find = (\<lambda>t elem. TypeFind ts t (pe_Name elem))\<rparr>"

definition findAllSchemaTypes :: "ydbTypes \<Rightarrow> ydbTypeSearch \<Rightarrow> gotype \<Rightarrow> pathElem list \<Rightarrow> gotype list option" where
  "findAllSchemaTypes y ts t elems = searchNodes (typeOps y ts) t elems"

definition FindAllSchemaTypes :: "ydbTypes \<Rightarrow> ydbTypeSearch \<Rightarrow> gotype \<Rightarrow> gpath option \<Rightarrow> (gotype list \<times> bool) option" where
  "FindAllSchemaTypes y ts t path =
     (if GetElem path = [] then Some ([t], True)
      else
        (case findAllSchemaTypes y ts t (GetElem path) of
           None \<Rightarrow> None
         | Some rtlist \<Rightarrow> if rtlist = [] then Some ([], False) else Some (rtlist, True)))"

text \<open>\<open>getAllSchemaPaths\<close> and \<open>findSchemaPath\<close> of the source are \<open>ydb.TypeGetAll\<close> and \<open>ydb.TypeFind\<close> with paths.\<close>

definition typesLikePaths :: "ydbTypes \<Rightarrow> ydbTypeSearch \<Rightarrow> bool" where
  "typesLikePaths y ts =
     ((\<forall>t. TypeGetAll ts t =
         (let r = getAllSchemaPaths (IsStartedWithUpper y) t [] in if snd r then Some (map pf_t (fst r)) else None))
      \<and> (\<forall>t name. TypeFind ts t name = map_option pf_t (findSchemaPath t [] name)))"

lemma structPaths_types: "map pf_t (structPaths upper path fs) = map pf_t (structPaths upper path' fs)"
  by (induction upper path fs rule: structPaths.induct) (auto split: option.splits)

lemma schemaPaths_types: "map pf_t (fst (getAllSchemaPaths upper t path)) = map pf_t (fst (getAllSchemaPaths upper t path'))"
  by (induction upper t path rule: getAllSchemaPaths.induct) (auto intro: structPaths_types)

lemma schemaPaths_none: "\<not> snd (getAllSchemaPaths upper t path) \<Longrightarrow> fst (getAllSchemaPaths upper t path) = []"
proof (induction upper t path rule: getAllSchemaPaths.induct)
  case (3 upper n fs path)
  then show ?case by (induction upper path fs rule: structPaths.induct) (auto split: if_splits option.splits)
qed auto

lemma schemaPath_type: "map_option pf_t (findSchemaPath t path name) = map_option pf_t (findSchemaPath t path' name)"
  by (induction t path name arbitrary: path' rule: findSchemaPath.induct) (auto split: option.splits)

lemma given_types:
  assumes "typesLikePaths y ts"
  shows "given (TypeGetAll ts) t = map pf_t (fst (getAllSchemaPaths (IsStartedWithUpper y) t path))"
proof -
  have "TypeGetAll ts t = (let r = getAllSchemaPaths (IsStartedWithUpper y) t [] in if snd r then Some (map pf_t (fst r)) else None)"
    using assms by (simp add: typesLikePaths_def)
  then have "given (TypeGetAll ts) t = map pf_t (fst (getAllSchemaPaths (IsStartedWithUpper y) t []))"
    using schemaPaths_none [of "IsStartedWithUpper y" t "[]"] by (auto simp: given_def Let_def)
  also have "\<dots> = map pf_t (fst (getAllSchemaPaths (IsStartedWithUpper y) t path))"
    by (rule schemaPaths_types)
  finally show ?thesis .
qed

lemma found_type:
  assumes "typesLikePaths y ts"
  shows "TypeFind ts t name = map_option pf_t (findSchemaPath t path name)"
  using assms schemaPath_type [of t "[]" name path] by (simp add: typesLikePaths_def)

lemma typeOps_simps [simp]:
  "no_isMap (typeOps y ts) = isMapType" "no_isScalar (typeOps y ts) = IsTypeScalar y"
  "no_getAll (typeOps y ts) = TypeGetAll ts" "no_find (typeOps y ts) t e = TypeFind ts t (pe_Name e)"
  by (simp_all add: typeOps_def)

lemma schemaPaths_end: "\<not> isMapType t \<Longrightarrow> findAllSchemaPaths y t path [] = [\<lparr>pf_t = t, pf_path = path\<rparr>]"
  by (cases t) (simp_all add: isMapType_def)

lemma schemaPaths_map:
  "isMapType t \<Longrightarrow> findAllSchemaPaths y t path elems = concat (map (\<lambda>csp. findAllSchemaPaths y (pf_t csp) (pf_path csp) elems)
       (fst (getAllSchemaPaths (IsStartedWithUpper y) t path)))"
  by (cases t) (simp_all add: isMapType_def)

lemma schemaPaths_elem:
  "\<not> isMapType t \<Longrightarrow> findAllSchemaPaths y t path (e # elems) =
     (if IsTypeScalar y t then []
      else if pe_Name e = ''*'' then
        concat (map (\<lambda>csp. findAllSchemaPaths y (pf_t csp) (pf_path csp) elems)
          (fst (getAllSchemaPaths (IsStartedWithUpper y) t path)))
      else if pe_Name e = ''...'' then
        concat (map (\<lambda>csp. findAllSchemaPaths y (pf_t csp) (pf_path csp) elems
                       @ findAllSchemaPaths y (pf_t csp) (pf_path csp) (e # elems))
          (fst (getAllSchemaPaths (IsStartedWithUpper y) t path)))
      else
        (case findSchemaPath t path (pe_Name e) of
           None \<Rightarrow> []
         | Some csp \<Rightarrow> findAllSchemaPaths y (pf_t csp) (pf_path csp) elems))"
  by (cases t) (simp_all add: isMapType_def)

text \<open>\<open>findAllSchemaPaths\<close> is the same search over types with paths; the functions of the source that list and find children keep the contract.\<close>

definition pathOps :: "ydbTypes \<Rightarrow> pathFinder nodeOps" where
  "pathOps y = \<lparr>no_isMap = isMapType \<circ> pf_t, no_isScalar = IsTypeScalar y \<circ> pf_t,
     no_getAll = (\<lambda>sp. let r = getAllSchemaPaths (IsStartedWithUpper y) (pf_t sp) (pf_path sp) in if snd r then Some (fst r) else None),
     no_find = (\<lambda>sp elem. findSchemaPath (pf_t sp) (pf_path sp) (pe_Name elem))\<rparr>"

interpretation schema_paths: node_search "pathOps y" "\<lambda>sp. size (pf_t sp)"
  by unfold_locales (auto simp: pathOps_def Let_def size_getAllSchemaPaths simp del: getAllSchemaPaths.simps split: if_splits)

lemma pathOps_simps [simp]:
  "no_isMap (pathOps y) sp = isMapType (pf_t sp)" "no_isScalar (pathOps y) sp = IsTypeScalar y (pf_t sp)"
  "no_find (pathOps y) sp e = findSchemaPath (pf_t sp) (pf_path sp) (pe_Name e)"
  "given (no_getAll (pathOps y)) sp = fst (getAllSchemaPaths (IsStartedWithUpper y) (pf_t sp) (pf_path sp))"
  using schemaPaths_none [of "IsStartedWithUpper y" "pf_t sp" "pf_path sp"]
  by (simp_all add: pathOps_def given_def Let_def)

lemma findAllSchemaPaths_search: "searchNodes (pathOps y) \<lparr>pf_t = t, pf_path = path\<rparr> elems = Some (findAllSchemaPaths y t path elems)"
proof (induction "size t + length elems" arbitrary: t path elems rule: less_induct)
  case less
  have child: "searchNodes (pathOps y) csp es = Some (findAllSchemaPaths y (pf_t csp) (pf_path csp) es)"
    if "size (pf_t csp) + length es < size t + length elems" for csp es
    using less [OF that, of "pf_path csp"] by (cases csp) simp
  have below: "searchNodes (pathOps y) csp es = Some (findAllSchemaPaths y (pf_t csp) (pf_path csp) es)"
    if "csp \<in> set (fst (getAllSchemaPaths (IsStartedWithUpper y) t path))" "length es \<le> length elems" for csp es
    using child size_getAllSchemaPaths [OF that(1)] that(2) by simp
  show ?case
  proof (cases "isMapType t")
    case True
    have "collect (\<lambda>csp. searchNodes (pathOps y) csp elems) (fst (getAllSchemaPaths (IsStartedWithUpper y) t path))
      = Some (concat (map (\<lambda>csp. findAllSchemaPaths y (pf_t csp) (pf_path csp) elems) (fst (getAllSchemaPaths (IsStartedWithUpper y) t path))))"
      by (rule collect_Some) (rule below, simp_all)
    with True show ?thesis by (simp add: searchNodes_map schemaPaths_map)
  next
    case False
    show ?thesis
    proof (cases elems)
      case Nil
      with False show ?thesis by (simp add: searchNodes_end schemaPaths_end)
    next
      case (Cons e es)
      let ?csps = "fst (getAllSchemaPaths (IsStartedWithUpper y) t path)"
      have star: "collect (\<lambda>csp. searchNodes (pathOps y) csp es) ?csps
          = Some (concat (map (\<lambda>csp. findAllSchemaPaths y (pf_t csp) (pf_path csp) es) ?csps))"
        by (rule collect_Some) (rule below, simp_all add: Cons)
      have dots: "collect (\<lambda>csp. Option.bind (searchNodes (pathOps y) csp es) (\<lambda>xs.
            Option.bind (searchNodes (pathOps y) csp (e # es)) (\<lambda>ys. Some (xs @ ys)))) ?csps
          = Some (concat (map (\<lambda>csp. findAllSchemaPaths y (pf_t csp) (pf_path csp) es
              @ findAllSchemaPaths y (pf_t csp) (pf_path csp) (e # es)) ?csps))"
        by (rule collect_Some) (simp add: below Cons)
      have named: "searchNodes (pathOps y) csp es = Some (findAllSchemaPaths y (pf_t csp) (pf_path csp) es)"
        if "findSchemaPath t path (pe_Name e) = Some csp" for csp
        using child [of csp es] size_findSchemaPath [OF that] Cons by simp
      show ?thesis
        unfolding Cons schemaPaths_elem [OF False]
        by (subst searchNodes_elem) (simp_all add: False star dots named split: option.split)
    qed
  qed
qed

text \<open>A search is carried over by a map of nodes that keeps what the search asks of them.\<close>

lemma collect_image:
  "(\<And>x. x \<in> set xs \<Longrightarrow> f (h x) = map_option (map h) (g x)) \<Longrightarrow> collect f (map h xs) = map_option (map h) (collect g xs)"
proof (induction xs)
  case (Cons x xs)
  then show ?case by (cases "g x"; cases "collect g xs") auto
qed simp

lemma searchNodes_image:
  assumes search: "node_search ops sz"
    and maps: "\<And>v. no_isMap ops' (h v) = no_isMap ops v" "\<And>v. no_isScalar ops' (h v) = no_isScalar ops v"
    and all: "\<And>v. given (no_getAll ops') (h v) = map h (given (no_getAll ops) v)"
    and one: "\<And>v e. no_find ops' (h v) e = map_option h (no_find ops v e)"
  shows "searchNodes ops' (h v) elems = map_option (map h) (searchNodes ops v elems)"
proof (induction "length elems" arbitrary: elems v rule: less_induct)
  case less
  note shorter = less
  show ?case
  proof (induction "sz v" arbitrary: v rule: less_induct)
    case (less v)
    have sub: "searchNodes ops' (h cv) elems' = map_option (map h) (searchNodes ops cv elems')"
      if "length elems' < length elems \<or> elems' = elems \<and> cv \<in> set (given (no_getAll ops) v)" for cv elems'
      using shorter less node_search.given_smaller [OF search] that by blast
    show ?case
    proof (cases "no_isMap ops v")
      case True
      then show ?thesis by (simp add: searchNodes_map maps all collect_image sub)
    next
      case False
      show ?thesis
      proof (cases elems)
        case Nil
        with False show ?thesis by (simp add: searchNodes_end maps)
      next
        case (Cons e es)
        have "collect (\<lambda>cv. Option.bind (searchNodes ops' cv es) (\<lambda>xs. Option.bind (searchNodes ops' cv (e # es)) (\<lambda>ys. Some (xs @ ys))))
              (map h (given (no_getAll ops) v))
            = map_option (map h) (collect (\<lambda>cv. Option.bind (searchNodes ops cv es) (\<lambda>xs.
                Option.bind (searchNodes ops cv (e # es)) (\<lambda>ys. Some (xs @ ys)))) (given (no_getAll ops) v))"
        proof (rule collect_image)
          fix cv
          assume "cv \<in> set (given (no_getAll ops) v)"
          with sub [of es cv] sub [of "e # es" cv] Cons
          show "Option.bind (searchNodes ops' (h cv) es) (\<lambda>xs. Option.bind (searchNodes ops' (h cv) (e # es)) (\<lambda>ys. Some (xs @ ys)))
            = map_option (map h) (Option.bind (searchNodes ops cv es) (\<lambda>xs. Option.bind (searchNodes ops cv (e # es)) (\<lambda>ys. Some (xs @ ys))))"
            by (cases "searchNodes ops cv es"; cases "searchNodes ops cv (e # es)") auto
        qed
        with False show ?thesis
          by (simp add: Cons searchNodes_elem maps all one collect_image sub split: option.split)
      qed
    qed
  qed
qed

lemma findAllSchemaTypes_paths:
  assumes ts: "typesLikePaths y ts"
  shows "searchNodes (typeOps y ts) t elems = Some (map pf_t (findAllSchemaPaths y t path elems))"
  using searchNodes_image [OF schema_paths.node_search_axioms, of "typeOps y ts" pf_t y "\<lparr>pf_t = t, pf_path = path\<rparr>" elems]
    findAllSchemaPaths_search [of y t path elems]
  by (simp add: given_types [OF ts] found_type [OF ts])

section \<open>Properties\<close>

text \<open>A node that lists itself is searched for ever by \<open>...\<close>.\<close>

lemma search_itself:
  assumes "\<not> no_isMap ops v" "\<not> no_isScalar ops v" "no_getAll ops v = Some (v # vs)"
  shows "searchNodes ops v (mkElem ''...'' keys # elems) = None"
proof -
  have "ops' = ops \<longrightarrow> w = v \<longrightarrow> es \<noteq> mkElem ''...'' keys # elems" if "searchNodes ops' w es = Some r" for ops' w es r
  proof (rule searchNodes.raw_induct [OF _ that], goal_cases)
    case (1 search ops' w es r)
    then have "search ops v (mkElem ''...'' keys # elems) = None"
      by (cases "search ops v (mkElem ''...'' keys # elems)") auto
    with 1(2) show ?case using assms by (auto simp: mkElem_def)
  qed
  then show ?thesis by (cases "searchNodes ops v (mkElem ''...'' keys # elems)") auto
qed

text \<open>C30: Both searches end, for every path, if every value that \<open>ydb.ValGetAll\<close> and every type that
  \<open>ydb.TypeGetAll\<close> lists is smaller than its parent: a step with \<open>...\<close> keeps the path but goes down, and any other
  step shortens the path.\<close>

theorem node_searches_end:
  assumes "descends sz (dataOps y getAll)" "descends tz (typeOps yt ts)"
  shows "(\<exists>r. FindAllDataNodes y getAll gs path = Some r) \<and> (\<exists>r. FindAllSchemaTypes yt ts t path = Some r)"
  using node_search.search_ends [OF descends_search [OF assms(1)], of "\<lparr>rv_val = gs, rv_RO = False\<rparr>" "GetElem path"]
    node_search.search_ends [OF descends_search [OF assms(2)], of t "GetElem path"]
  by (auto simp: FindAllDataNodes_def FindAllSchemaTypes_def findAllDataNodes_def findAllSchemaTypes_def Let_def)

text \<open>The fields of a struct with their values as they are, the entries of a map, the elements of a slice.\<close>

fun rawChildren :: "gval \<Rightarrow> bool \<Rightarrow> reflectVal list option" where
  "rawChildren (VPtr t (Some v)) ro = rawChildren v ro"
| "rawChildren (VIface (Some v)) ro = rawChildren v ro"
| "rawChildren (VStruct n flds) ro = Some (map (\<lambda>(name, tag, fv). \<lparr>rv_val = fv, rv_RO = ro \<or> \<not> exported name\<rparr>) flds)"
| "rawChildren (VMap entries) ro = Some (map (\<lambda>(k, v). \<lparr>rv_val = v, rv_RO = ro\<rparr>) entries)"
| "rawChildren (VSlice elems) ro = Some (map (\<lambda>v. \<lparr>rv_val = v, rv_RO = ro\<rparr>) elems)"
| "rawChildren _ ro = None"

definition exGetAll :: "reflectVal \<Rightarrow> reflectVal list option" where
  "exGetAll v = rawChildren (rv_val v) (rv_RO v)"

definition exTypeSearch :: ydbTypeSearch where
  "exTypeSearch = \<lparr>TypeGetAll = (\<lambda>t. let r = getAllSchemaPaths (IsStartedWithUpper exTypes) t [] in
       if snd r then Some (map pf_t (fst r)) else None),
     TypeFind = (\<lambda>t name. map_option pf_t (findSchemaPath t [] name))\<rparr>"

lemma rawChildren_smaller: "rawChildren v ro = Some cvs \<Longrightarrow> cv \<in> set cvs \<Longrightarrow> size (rv_val cv) < size v"
proof (induction v ro arbitrary: cvs rule: rawChildren.induct)
  case (3 n flds ro)
  then show ?case using size_field_val by (auto simp del: gval.size)
next
  case (4 entries ro)
  then show ?case using size_entry_val by (auto simp del: gval.size)
next
  case (5 elems ro)
  then show ?case using size_elem_val by (auto simp del: gval.size)
qed fastforce+

lemma ex_descends: "descends (\<lambda>v. size (rv_val v)) (dataOps exVals exGetAll)" "descends size (typeOps exTypes exTypeSearch)"
  by (auto simp: descends_def exGetAll_def rawChildren_smaller exTypeSearch_def Let_def size_getAllSchemaPaths
      simp del: getAllSchemaPaths.simps split: if_splits)

theorem node_searches_end_witness:
  "(\<exists>r. FindAllDataNodes exVals exGetAll exRoot (Some WildcardGNMIPathDot3) = Some r)
   \<and> (\<exists>r. FindAllSchemaTypes exTypes exTypeSearch (rootType exModel) (Some WildcardGNMIPathDot3) = Some r)"
  by (rule node_searches_end [OF ex_descends])


text \<open>The values of the sample tree.\<close>

definition exTree :: "reflectVal set" where
  "exTree = (\<lambda>v. \<lparr>rv_val = v, rv_RO = False\<rparr>) ` {exRoot, VMap [(''eth0'', exInterface ''eth0'')], exInterface ''eth0'',
     VPtr (TScalar ''string'') (Some (VScalar ''string'' ''eth0'')), VPtr (TScalar ''uint16'') None}"

lemma ex_listsChildren: "listsChildren exVals exGetAll exTree"
  by (auto simp: listsChildren_def exTree_def exRoot_def exInterface_def exVals_def isMapVal_def childVals_def given_def
      exGetAll_def expand_def exported_def mapChildren_def keyMapText_def Let_def less_eq_char_def split: if_splits)


text \<open>The search of types and the search of their paths find the same nodes in the same order.\<close>

lemma FindAllSchemaTypes_paths:
  assumes "typesLikePaths y ts"
  shows "\<exists>types. FindAllSchemaTypes y ts t path = Some (types, snd (FindAllSchemaPaths y t path))
    \<and> length types = length (fst (FindAllSchemaPaths y t path))
    \<and> (GetElem path \<noteq> [] \<longrightarrow> types = map pf_t (findAllSchemaPaths y t [] (GetElem path)))"
  using findAllSchemaTypes_paths [OF assms, of t "GetElem path" "[]"]
  by (auto simp: FindAllSchemaTypes_def FindAllSchemaPaths_def findAllSchemaTypes_def Let_def)

lemma FindAllSchemaTypes_paths_witness:
  "\<exists>types. FindAllSchemaTypes exTypes exTypeSearch (rootType exModel) (Some WildcardGNMIPathDot3) = Some (types, True) \<and> length types = 2"
proof -
  have "typesLikePaths exTypes exTypeSearch" by (simp add: typesLikePaths_def exTypeSearch_def)
  note paths = FindAllSchemaTypes_paths [OF this, of "rootType exModel" "Some WildcardGNMIPathDot3"]
  have "FindAllSchemaPaths exTypes (rootType exModel) (Some WildcardGNMIPathDot3) = ([''/interface'', ''/interface/name''], True)"
    by code_simp
  with paths show ?thesis by auto
qed

end
