(* ===== verification/CertManager.thy ===== *)
theory CertManager
  imports Prelude
begin

text \<open>
  The certificate manager \<open>gnoi/cert/manager.go\<close>. PEM and DER decoding, CSR generation and the
  clock are parameters. Each operation holds the manager's mutex from its first to its last
  statement, so it is one step on the state; the accept and rollback closures that \<open>update\<close> returns
  are records of the variables they capture; a started \<open>notify\<close> goroutine is counted until it runs.
\<close>

section \<open>State\<close>

record 'x info =
  certID :: string
  cert :: 'x
  updated :: nat

text \<open>
  A notifier is known by its index of registration. \<open>pendingNotify\<close> counts the \<open>go cm.notify()\<close>
  goroutines that have not run yet, \<open>calls\<close> is what the notifiers have been called with, oldest first.
\<close>

record 'x manager =
  privateKey :: string
  certInfo :: "(string, 'x info option) gomap"
  caBundle :: "'x list"
  locks :: "(string, bool) gomap"
  notifiers :: "nat list"
  pendingNotify :: nat
  calls :: "(nat \<times> nat \<times> nat) list"

definition NewManager :: "string \<Rightarrow> 'x manager" where
  "NewManager key =
     \<lparr>privateKey = key, certInfo = [], caBundle = [], locks = [], notifiers = [],
      pendingNotify = 0, calls = []\<rparr>"

definition RegisterNotifier :: "nat \<Rightarrow> 'x manager \<Rightarrow> 'x manager" where
  "RegisterNotifier f cm = cm\<lparr>notifiers := notifiers cm @ [f]\<rparr>"

definition goNotify :: "'x manager \<Rightarrow> 'x manager" where
  "goNotify cm = cm\<lparr>pendingNotify := Suc (pendingNotify cm)\<rparr>"

text \<open>The goroutine runs: each notifier is called with the numbers at that time.\<close>

definition notify :: "'x manager \<Rightarrow> 'x manager" where
  "notify cm =
     cm\<lparr>pendingNotify := pendingNotify cm - 1,
        calls := calls cm @ map (\<lambda>f. (f, length (certInfo cm), length (caBundle cm))) (notifiers cm)\<rparr>"

section \<open>Reading\<close>

record 'x tlsCertificate =
  leaf :: 'x
  tlsKey :: string

fun tlsCerts :: "string \<Rightarrow> (string, 'x info option) gomap \<Rightarrow> ('e, 'x tlsCertificate list) result" where
  "tlsCerts key [] = Ok []"
| "tlsCerts key ((_, None) # m) = Panics NilDereference"
| "tlsCerts key ((_, Some ci) # m) =
     (case tlsCerts key m of
        Inl e \<Rightarrow> Inl e
      | Inr certs \<Rightarrow> Ok (\<lparr>leaf = cert ci, tlsKey = key\<rparr> # certs))"

definition TLSCertificates :: "'x manager \<Rightarrow> ('e, 'x tlsCertificate list \<times> 'x set) result" where
  "TLSCertificates cm =
     (case tlsCerts (privateKey cm) (certInfo cm) of
        Inl e \<Rightarrow> Inl e
      | Inr certs \<Rightarrow> Ok (certs, set (caBundle cm)))"

definition GetCertInfo :: "'x manager \<Rightarrow> 'x info option list" where
  "GetCertInfo cm = map snd (certInfo cm)"

section \<open>Updating\<close>

datatype cert_error =
    CertAlreadyExists
  | CertDoesNotExist
  | OperationInProgress
  | CertNotDecoded
  | CABundleNotDecoded
  | CSRNotCreated

text \<open>\<open>PEMtox509\<close>: \<open>pemDecode\<close> is the first block of the PEM text, \<open>parse\<close> the DER parser.\<close>

definition PEMtox509 :: "('b \<Rightarrow> 'd option) \<Rightarrow> ('d \<Rightarrow> 'x option) \<Rightarrow> 'b \<Rightarrow> 'x option" where
  "PEMtox509 pemDecode parse bytes =
     (case pemDecode bytes of
        None \<Rightarrow> None
      | Some der \<Rightarrow> (case parse der of None \<Rightarrow> None | Some c \<Rightarrow> Some c))"

text \<open>What the two closures of one update capture.\<close>

record 'x closure =
  c_certID :: string
  oldCertInfo :: "'x info option"
  oldCABundle :: "'x list option"

fun decodeBundle :: "('b \<Rightarrow> 'x option) \<Rightarrow> 'b list \<Rightarrow> 'x list \<Rightarrow> 'x list option" where
  "decodeBundle decode [] newBundle = Some newBundle"
| "decodeBundle decode (pem # pems) newBundle =
     (case decode pem of
        None \<Rightarrow> None
      | Some c \<Rightarrow> decodeBundle decode pems (newBundle @ [c]))"

definition update ::
    "('b \<Rightarrow> 'x option) \<Rightarrow> nat \<Rightarrow> bool \<Rightarrow> string \<Rightarrow> 'b \<Rightarrow> 'b list \<Rightarrow> 'x manager
     \<Rightarrow> 'x manager \<times> (cert_error, 'x closure) result" where
  "update decode now requireExisting cid pemCert pemCACerts cm =
     (let ok = (map_get (certInfo cm) cid \<noteq> None) in
      if ok \<and> \<not> requireExisting then (cm, Failed CertAlreadyExists)
      else if \<not> ok \<and> requireExisting then (cm, Failed CertDoesNotExist)
      else if map_get (locks cm) cid \<noteq> None then (cm, Failed OperationInProgress)
      else
        (let cm1 = cm\<lparr>locks := map_put cid True (locks cm)\<rparr> in
         case decode pemCert of
           None \<Rightarrow> (cm1, Failed CertNotDecoded)
         | Some x \<Rightarrow>
             (let old = (case map_get (certInfo cm1) cid of None \<Rightarrow> None | Some p \<Rightarrow> p);
                  cm2 = cm1\<lparr>certInfo :=
                    map_put cid (Some \<lparr>certID = cid, cert = x, updated = now\<rparr>) (certInfo cm1)\<rparr> in
              if pemCACerts = [] then
                (goNotify cm2, Ok \<lparr>c_certID = cid, oldCertInfo = old, oldCABundle = None\<rparr>)
              else
                (case decodeBundle decode pemCACerts [] of
                   None \<Rightarrow> (cm2, Failed CABundleNotDecoded)
                 | Some newBundle \<Rightarrow>
                     (goNotify (cm2\<lparr>caBundle := newBundle\<rparr>),
                      Ok \<lparr>c_certID = cid, oldCertInfo = old,
                          oldCABundle = Some (caBundle cm2)\<rparr>)))))"

definition rollback :: "'x closure \<Rightarrow> 'x manager \<Rightarrow> 'x manager" where
  "rollback cl cm =
     goNotify (cm\<lparr>certInfo := map_put (c_certID cl) (oldCertInfo cl) (certInfo cm),
        caBundle := (case oldCABundle cl of None \<Rightarrow> caBundle cm | Some old \<Rightarrow> old),
        locks := map_del (c_certID cl) (locks cm)\<rparr>)"

definition accept :: "'x closure \<Rightarrow> 'x manager \<Rightarrow> 'x manager" where
  "accept cl cm = cm\<lparr>locks := map_del (c_certID cl) (locks cm)\<rparr>"

definition Install ::
    "('b \<Rightarrow> 'x option) \<Rightarrow> nat \<Rightarrow> string \<Rightarrow> 'b \<Rightarrow> 'b list \<Rightarrow> 'x manager
     \<Rightarrow> 'x manager \<times> (cert_error, unit) result" where
  "Install decode now cid pemCert pemCACerts cm =
     (case update decode now False cid pemCert pemCACerts cm of
        (cm', Inl e) \<Rightarrow> (cm', Inl e)
      | (cm', Inr cl) \<Rightarrow> (accept cl cm', Ok ()))"

definition Rotate ::
    "('b \<Rightarrow> 'x option) \<Rightarrow> nat \<Rightarrow> string \<Rightarrow> 'b \<Rightarrow> 'b list \<Rightarrow> 'x manager
     \<Rightarrow> 'x manager \<times> (cert_error, 'x closure) result" where
  "Rotate decode now cid pemCert pemCACerts cm = update decode now True cid pemCert pemCACerts cm"

text \<open>
  \<open>GenCSR\<close>: \<open>createRequest\<close> is \<open>x509.CreateCertificateRequest\<close> with SHA256WithRSA followed by the PEM
  encoding.
\<close>

definition createCSR :: "('s \<Rightarrow> string \<Rightarrow> 'd option) \<Rightarrow> ('d \<Rightarrow> 'b) \<Rightarrow> 's \<Rightarrow> string \<Rightarrow> (cert_error, 'b) result" where
  "createCSR createRequest pemEncode template priv =
     (case createRequest template priv of
        None \<Rightarrow> Failed CSRNotCreated
      | Some der \<Rightarrow> Ok (pemEncode der))"

definition GenCSR :: "('s \<Rightarrow> string \<Rightarrow> 'd option) \<Rightarrow> ('d \<Rightarrow> 'b) \<Rightarrow> 's \<Rightarrow> 'x manager \<Rightarrow> (cert_error, 'b) result" where
  "GenCSR createRequest pemEncode subject cm =
     (case createCSR createRequest pemEncode subject (privateKey cm) of
        Inl e \<Rightarrow> Inl e
      | Inr pemCSR \<Rightarrow> Ok pemCSR)"

section \<open>Revoking\<close>

datatype revoke_error = InProgress | DoesNotExist

fun revoke_loop ::
    "string list \<Rightarrow> (string, bool) gomap \<Rightarrow> (string, 'x info option) gomap \<Rightarrow> string list
     \<Rightarrow> (string, revoke_error) gomap
     \<Rightarrow> (string, 'x info option) gomap \<times> string list \<times> (string, revoke_error) gomap" where
  "revoke_loop [] lk ci revoked notRevoked = (ci, revoked, notRevoked)"
| "revoke_loop (cid # ids) lk ci revoked notRevoked =
     (if map_get lk cid \<noteq> None
      then revoke_loop ids lk ci revoked (map_put cid InProgress notRevoked)
      else if map_get ci cid \<noteq> None
      then revoke_loop ids lk (map_del cid ci) (revoked @ [cid]) notRevoked
      else revoke_loop ids lk ci revoked (map_put cid DoesNotExist notRevoked))"

definition Revoke :: "string list \<Rightarrow> 'x manager \<Rightarrow> 'x manager \<times> string list \<times> (string, revoke_error) gomap" where
  "Revoke ids cm =
     (case revoke_loop ids (locks cm) (certInfo cm) [] [] of
        (ci, revoked, notRevoked) \<Rightarrow> (goNotify (cm\<lparr>certInfo := ci\<rparr>), revoked, notRevoked))"

section \<open>Runs of the manager\<close>

text \<open>
  The manager is called from several goroutines; its mutex makes each call one step. A run is a
  sequence of calls. The closures handed out by \<open>Rotate\<close> and not yet called are part of the state of
  a run; \<open>OpAccept\<close> and \<open>OpRollback\<close> call the one of an identifier, \<open>OpNotify\<close> schedules a waiting
  \<open>notify\<close> goroutine.
\<close>

datatype 'b op =
    OpInstall nat string 'b "'b list"
  | OpRotate nat string 'b "'b list"
  | OpAccept string
  | OpRollback string
  | OpRevoke "string list"
  | OpNotify
  | OpRegister nat

type_synonym 'x sys = "'x manager \<times> 'x closure list"

definition outstanding :: "string \<Rightarrow> 'x closure list \<Rightarrow> 'x closure option" where
  "outstanding cid P = List.find (\<lambda>cl. c_certID cl = cid) P"

definition finished :: "string \<Rightarrow> 'x closure list \<Rightarrow> 'x closure list" where
  "finished cid P = filter (\<lambda>cl. c_certID cl \<noteq> cid) P"

fun exec :: "('b \<Rightarrow> 'x option) \<Rightarrow> 'b op \<Rightarrow> 'x sys \<Rightarrow> 'x sys" where
  "exec decode (OpInstall now cid c cas) (cm, P) = (fst (Install decode now cid c cas cm), P)"
| "exec decode (OpRotate now cid c cas) (cm, P) =
     (case Rotate decode now cid c cas cm of
        (cm', Inl e) \<Rightarrow> (cm', P)
      | (cm', Inr cl) \<Rightarrow> (cm', cl # P))"
| "exec decode (OpAccept cid) (cm, P) =
     (case outstanding cid P of None \<Rightarrow> (cm, P) | Some cl \<Rightarrow> (accept cl cm, finished cid P))"
| "exec decode (OpRollback cid) (cm, P) =
     (case outstanding cid P of None \<Rightarrow> (cm, P) | Some cl \<Rightarrow> (rollback cl cm, finished cid P))"
| "exec decode (OpRevoke ids) (cm, P) = (fst (Revoke ids cm), P)"
| "exec decode OpNotify (cm, P) = ((if pendingNotify cm = 0 then cm else notify cm), P)"
| "exec decode (OpRegister f) (cm, P) = (RegisterNotifier f cm, P)"

definition run :: "('b \<Rightarrow> 'x option) \<Rightarrow> 'b op list \<Rightarrow> 'x sys \<Rightarrow> 'x sys" where
  "run decode ops s = fold (exec decode) ops s"

lemma run_simps [simp]:
  "run decode [] s = s"
  "run decode (op # ops) s = run decode ops (exec decode op s)"
  by (simp_all add: run_def)

text \<open>An invariant of single steps is one of runs.\<close>

lemma run_invariant:
  assumes "\<And>op s. op \<in> set ops \<Longrightarrow> I s \<Longrightarrow> I (exec decode op s)" "I s"
  shows "I (run decode ops s)"
  using assms by (induction ops arbitrary: s) auto

section \<open>What one operation changes\<close>

lemma outstanding_Some: "outstanding cid P = Some cl \<Longrightarrow> cl \<in> set P \<and> c_certID cl = cid"
  by (auto simp: outstanding_def find_Some_iff)

lemma outstanding_None: "outstanding cid P = None \<longleftrightarrow> cid \<notin> c_certID ` set P"
  by (auto simp: outstanding_def find_None_iff)

lemma update_locked:
  "map_get (locks cm) cid \<noteq> None \<Longrightarrow> \<exists>e. update decode now req cid c cas cm = (cm, Inl e)"
  by (auto simp: update_def Let_def)

lemma update_Inr:
  assumes "update decode now req cid c cas cm = (cm', Inr cl)"
  obtains x where "decode c = Some x" "map_get (locks cm) cid = None"
    "(map_get (certInfo cm) cid \<noteq> None) = req"
    "certInfo cm' = map_put cid (Some \<lparr>certID = cid, cert = x, updated = now\<rparr>) (certInfo cm)"
    "locks cm' = map_put cid True (locks cm)"
    "c_certID cl = cid"
    "oldCertInfo cl = (case map_get (certInfo cm) cid of None \<Rightarrow> None | Some p \<Rightarrow> p)"
    "(case oldCABundle cl of None \<Rightarrow> caBundle cm' | Some old \<Rightarrow> old) = caBundle cm"
    "pendingNotify cm' = Suc (pendingNotify cm)"
    "privateKey cm' = privateKey cm" "notifiers cm' = notifiers cm" "calls cm' = calls cm"
  using assms by (auto simp: update_def goNotify_def Let_def split: if_splits option.splits)

lemma update_succeeds:
  assumes "decode c = Some x" "decodeBundle decode cas [] = Some xs"
    and "(map_get (certInfo cm) cid \<noteq> None) = req" "map_get (locks cm) cid = None"
  shows "\<exists>cm' cl. update decode now req cid c cas cm = (cm', Inr cl)
    \<and> caBundle cm' = (if cas = [] then caBundle cm else xs)"
  using assms by (cases "cas = []") (auto simp: update_def Let_def goNotify_def)

lemma update_Inl:
  assumes "update decode now req cid c cas cm = (cm', Inl e)"
  shows "cm' = cm
    \<or> (e = Err CertNotDecoded \<and> map_get (locks cm) cid = None \<and> cm' = cm\<lparr>locks := map_put cid True (locks cm)\<rparr>)
    \<or> (e = Err CABundleNotDecoded \<and> map_get (locks cm) cid = None
       \<and> (\<exists>x. cm' = cm\<lparr>locks := map_put cid True (locks cm), certInfo :=
              map_put cid (Some \<lparr>certID = cid, cert = x, updated = now\<rparr>) (certInfo cm)\<rparr>))"
  using assms by (auto simp: update_def Let_def split: if_splits option.splits)

lemma update_decode_failure:
  assumes "update decode now req cid c cas cm = (cm', Failed e)" "e \<in> {CertNotDecoded, CABundleNotDecoded}"
  shows "map_get (locks cm) cid = None \<and> locks cm' = map_put cid True (locks cm)"
  using assms by (simp add: update_def Let_def split: if_splits option.splits) auto

text \<open>
  The four outcomes of an update: refused without a change, the two failures that keep the lock, and
  success.
\<close>

lemma update_outcome:
  obtains (Refused) e where "update decode now req cid c cas cm = (cm, Inl e)"
  | (BadCert) "map_get (locks cm) cid = None"
      "update decode now req cid c cas cm = (cm\<lparr>locks := map_put cid True (locks cm)\<rparr>, Failed CertNotDecoded)"
  | (BadBundle) x where "map_get (locks cm) cid = None"
      "update decode now req cid c cas cm =
        (cm\<lparr>locks := map_put cid True (locks cm), certInfo :=
           map_put cid (Some \<lparr>certID = cid, cert = x, updated = now\<rparr>) (certInfo cm)\<rparr>, Failed CABundleNotDecoded)"
  | (Updated) cm' cl where "update decode now req cid c cas cm = (cm', Inr cl)"
proof (cases "update decode now req cid c cas cm")
  case (Pair cm' r)
  show ?thesis
  proof (cases r)
    case (Inl e)
    with Pair update_Inl [of decode now req cid c cas cm cm' e] show ?thesis
      using Refused BadCert BadBundle by blast
  qed (use Pair Updated in simp)
qed

lemma revoke_loop_ci:
  "(case revoke_loop ids lk ci rv nr of (ci', rv', nr') \<Rightarrow>
      (map_ok ci \<longrightarrow> map_ok ci') \<and>
      (\<forall>k. map_get ci' k = (if k \<in> set ids \<and> map_get lk k = None then None else map_get ci k)))"
  by (induction ids lk ci rv nr rule: revoke_loop.induct)
    (auto simp: gomap_simps split: prod.splits if_splits)

lemma Revoke_certInfo:
  "map_get (certInfo (fst (Revoke ids cm))) k =
     (if k \<in> set ids \<and> map_get (locks cm) k = None then None else map_get (certInfo cm) k)"
  "map_ok (certInfo cm) \<Longrightarrow> map_ok (certInfo (fst (Revoke ids cm)))"
  "locks (fst (Revoke ids cm)) = locks cm"
  "caBundle (fst (Revoke ids cm)) = caBundle cm"
  "notifiers (fst (Revoke ids cm)) = notifiers cm"
  "pendingNotify (fst (Revoke ids cm)) = Suc (pendingNotify cm)"
  using revoke_loop_ci [where ids = ids and lk = "locks cm" and ci = "certInfo cm" and rv = "[]" and nr = "[]"]
  by (auto simp: Revoke_def goNotify_def split: prod.splits)

section \<open>Invariants\<close>

text \<open>
  A well-formed manager: an entry of \<open>certInfo\<close> is never a nil pointer and carries its own key; each
  outstanding closure holds the lock of its identifier, has an entry there and an old entry to go
  back to.
\<close>

definition entry_ok :: "string \<Rightarrow> 'x info option \<Rightarrow> bool" where
  "entry_ok k p = (case p of None \<Rightarrow> False | Some ci \<Rightarrow> certID ci = k)"

definition wf_manager :: "'x manager \<Rightarrow> bool" where
  "wf_manager cm =
     (map_ok (certInfo cm) \<and> map_ok (locks cm) \<and>
      (\<forall>k p. map_get (certInfo cm) k = Some p \<longrightarrow> entry_ok k p))"

definition closure_ok :: "'x manager \<Rightarrow> 'x closure \<Rightarrow> bool" where
  "closure_ok cm cl =
     (map_get (locks cm) (c_certID cl) \<noteq> None \<and> map_get (certInfo cm) (c_certID cl) \<noteq> None \<and>
      entry_ok (c_certID cl) (oldCertInfo cl))"

definition wf_sys :: "'x sys \<Rightarrow> bool" where
  "wf_sys s = (case s of (cm, P) \<Rightarrow>
     wf_manager cm \<and> (\<forall>cl \<in> set P. closure_ok cm cl) \<and> distinct (map c_certID P))"

lemma wf_sys_init: "wf_sys (NewManager key, [])"
  by (simp add: wf_sys_def wf_manager_def NewManager_def)

lemma entry_ok_new [simp]: "entry_ok k (Some \<lparr>certID = k, cert = x, updated = t\<rparr>)"
  by (simp add: entry_ok_def)

lemma wf_manager_certInfo:
  "wf_manager cm \<Longrightarrow> map_get (certInfo cm) k = Some p \<Longrightarrow> entry_ok k p"
  by (simp add: wf_manager_def)

text \<open>An update keeps the entry and the lock of every other identifier.\<close>

lemma update_frame:
  assumes "cid' \<noteq> cid"
  shows "map_get (certInfo (fst (update decode now req cid c cas cm))) cid' = map_get (certInfo cm) cid'"
    "map_get (locks (fst (update decode now req cid c cas cm))) cid' = map_get (locks cm) cid'"
  using assms
  by (cases rule: update_outcome [of decode now req cid c cas cm];
      auto simp: gomap_simps elim!: update_Inr)+

lemma update_keeps_certInfo:
  "map_get (certInfo cm) k \<noteq> None \<Longrightarrow> map_get (certInfo (fst (update decode now req cid c cas cm))) k \<noteq> None"
  by (cases rule: update_outcome [of decode now req cid c cas cm])
    (auto simp: gomap_simps elim!: update_Inr split: if_splits)

lemma update_keeps_locks:
  "map_get (locks cm) k \<noteq> None \<Longrightarrow> map_get (locks (fst (update decode now req cid c cas cm))) k \<noteq> None"
  by (cases rule: update_outcome [of decode now req cid c cas cm])
    (auto simp: gomap_simps elim!: update_Inr split: if_splits)

lemma wf_update:
  "wf_manager cm \<Longrightarrow> wf_manager (fst (update decode now req cid c cas cm))"
  by (cases rule: update_outcome [of decode now req cid c cas cm])
    (auto simp: gomap_simps wf_manager_def elim!: update_Inr split: if_splits)

lemma closure_ok_update:
  "closure_ok cm cl \<Longrightarrow> closure_ok (fst (update decode now req cid c cas cm)) cl"
  using update_keeps_certInfo update_keeps_locks by (metis closure_ok_def)

lemma closure_ok_new:
  assumes "wf_manager cm" "update decode now True cid c cas cm = (cm', Inr cl)"
  shows "closure_ok cm' cl \<and> c_certID cl = cid \<and> map_get (locks cm) cid = None"
  using assms(2)
proof (rule update_Inr)
  fix x
  assume *: "(map_get (certInfo cm) cid \<noteq> None) = True" "c_certID cl = cid"
    "oldCertInfo cl = (case map_get (certInfo cm) cid of None \<Rightarrow> None | Some p \<Rightarrow> p)"
    "certInfo cm' = map_put cid (Some \<lparr>certID = cid, cert = x, updated = now\<rparr>) (certInfo cm)"
    "locks cm' = map_put cid True (locks cm)" "map_get (locks cm) cid = None"
  then show ?thesis
    using wf_manager_certInfo [OF assms(1), of cid] by (auto simp: closure_ok_def gomap_simps)
qed

lemma fst_Install:
  "fst (Install decode now cid c cas cm) =
     (case update decode now False cid c cas cm of
        (cm', Inl e) \<Rightarrow> cm'
      | (cm', Inr cl) \<Rightarrow> cm'\<lparr>locks := map_del cid (locks cm')\<rparr>)"
  by (cases rule: update_outcome [of decode now False cid c cas cm])
    (auto simp: Install_def accept_def elim!: update_Inr)

lemma wf_unlock: "wf_manager cm \<Longrightarrow> wf_manager (cm\<lparr>locks := map_del cid (locks cm)\<rparr>)"
  by (simp add: wf_manager_def)

lemma wf_Install: "wf_manager cm \<Longrightarrow> wf_manager (fst (Install decode now cid c cas cm))"
  using wf_update [of cm decode now False cid c cas] wf_unlock
  by (cases "update decode now False cid c cas cm"; cases "snd (update decode now False cid c cas cm)")
    (auto simp: fst_Install)

text \<open>Taking back a lock other than the one of a closure leaves the closure good.\<close>

lemma closure_ok_unlock:
  "closure_ok cm cl \<Longrightarrow> c_certID cl \<noteq> cid \<Longrightarrow> closure_ok (cm\<lparr>locks := map_del cid (locks cm)\<rparr>) cl"
  by (simp add: closure_ok_def gomap_simps)

lemma closure_ok_Install:
  assumes "closure_ok cm cl"
  shows "closure_ok (fst (Install decode now cid c cas cm)) cl"
proof (cases rule: update_outcome [of decode now False cid c cas cm])
  case (Updated cm' cl')
  then have "map_get (locks cm) cid = None" by (auto elim: update_Inr)
  with assms have "c_certID cl \<noteq> cid" by (auto simp: closure_ok_def)
  with Updated show ?thesis
    using closure_ok_unlock closure_ok_update [OF assms, of decode now False cid c cas]
    by (simp add: fst_Install)
qed (use closure_ok_update [OF assms, of decode now False cid c cas] in \<open>simp_all add: fst_Install\<close>)

lemma closure_ok_Revoke:
  "closure_ok cm cl \<Longrightarrow> closure_ok (fst (Revoke ids cm)) cl"
  by (simp add: closure_ok_def Revoke_certInfo)

lemma wf_rollback: "wf_manager cm \<Longrightarrow> closure_ok cm cl \<Longrightarrow> wf_manager (rollback cl cm)"
  by (auto simp: wf_manager_def rollback_def goNotify_def closure_ok_def gomap_simps)

lemma closure_ok_rollback:
  "closure_ok cm cl \<Longrightarrow> c_certID cl \<noteq> c_certID cl' \<Longrightarrow> closure_ok (rollback cl' cm) cl"
  by (auto simp: closure_ok_def rollback_def goNotify_def gomap_simps)

lemma finished_ok:
  "(\<forall>cl \<in> set P. closure_ok cm cl) \<Longrightarrow> distinct (map c_certID P) \<Longrightarrow>
   (\<And>cl. cl \<in> set P \<Longrightarrow> c_certID cl \<noteq> cid \<Longrightarrow> closure_ok cm cl \<Longrightarrow> closure_ok cm' cl) \<Longrightarrow>
   (\<forall>cl \<in> set (finished cid P). closure_ok cm' cl) \<and> distinct (map c_certID (finished cid P))"
  by (auto simp: finished_def distinct_map_filter)

lemma wf_exec: "wf_sys s \<Longrightarrow> wf_sys (exec decode opn s)"
proof (induction decode opn s rule: exec.induct)
  case (1 decode now cid c cas cm P)
  then show ?case by (auto simp: wf_sys_def wf_Install closure_ok_Install)
next
  case (2 decode now cid c cas cm P)
  then have wf: "wf_manager cm" and P: "\<forall>cl \<in> set P. closure_ok cm cl" "distinct (map c_certID P)"
    by (auto simp: wf_sys_def)
  note upd = wf_update [OF wf, of decode now True cid c cas]
    closure_ok_update [where decode = decode and now = now and req = True and cid = cid and c = c and cas = cas and cm = cm]
  obtain cm' r where r: "update decode now True cid c cas cm = (cm', r)" by fastforce
  show ?case
  proof (cases r)
    case (Inr cl)
    with closure_ok_new [OF wf r [unfolded Inr]] have "closure_ok cm' cl" "c_certID cl = cid" "map_get (locks cm) cid = None"
      by auto
    moreover from this P(1) have "cid \<notin> c_certID ` set P" by (auto simp: closure_ok_def)
    ultimately show ?thesis using r Inr upd P by (auto simp: wf_sys_def Rotate_def)
  qed (use r upd P in \<open>auto simp: wf_sys_def Rotate_def\<close>)
next
  case (3 decode cid cm P)
  then show ?case
    using finished_ok [of P cm cid "cm\<lparr>locks := map_del cid (locks cm)\<rparr>"]
    by (auto simp: wf_sys_def accept_def wf_unlock closure_ok_unlock dest!: outstanding_Some
        split: option.splits)
next
  case (4 decode cid cm P)
  show ?case
  proof (cases "outstanding cid P")
    case (Some cl)
    with 4 have cl: "closure_ok cm cl" "c_certID cl = cid"
      using outstanding_Some by (fastforce simp: wf_sys_def)+
    with 4 finished_ok [of P cm cid "rollback cl cm"] Some show ?thesis
      by (auto simp: wf_sys_def wf_rollback closure_ok_rollback)
  qed (use 4 in simp)
next
  case (5 decode ids cm P)
  then show ?case by (auto simp: wf_sys_def wf_manager_def closure_ok_Revoke Revoke_certInfo)
next
  case (6 decode cm P)
  then show ?case by (auto simp: wf_sys_def wf_manager_def closure_ok_def notify_def)
next
  case (7 decode f cm P)
  then show ?case by (auto simp: wf_sys_def wf_manager_def closure_ok_def RegisterNotifier_def)
qed

lemma wf_run: "wf_sys s \<Longrightarrow> wf_sys (run decode ops s)"
  by (rule run_invariant) (auto intro: wf_exec)

lemma tlsCerts_ok:
  "\<forall>(k, p) \<in> set m. p \<noteq> None \<Longrightarrow>
   tlsCerts key m = Ok (map (\<lambda>(k, p). \<lparr>leaf = cert (the p), tlsKey = key\<rparr>) m)"
  by (induction m rule: tlsCerts.induct) auto

lemma wf_entries: "wf_manager cm \<Longrightarrow> (k, p) \<in> set (certInfo cm) \<Longrightarrow> entry_ok k p"
  by (auto simp: wf_manager_def map_get_in)

section \<open>Isolation of an operation in progress\<close>

definition finishes :: "string \<Rightarrow> 'b op \<Rightarrow> bool" where
  "finishes cid opn = (opn = OpAccept cid \<or> opn = OpRollback cid)"

text \<open>
  While the lock of an identifier is held, no operation but the accept or the rollback of its own
  closure touches its entry, its lock or its closure.
\<close>

definition held :: "string \<Rightarrow> 'x info option option \<Rightarrow> 'x closure option \<Rightarrow> 'x sys \<Rightarrow> bool" where
  "held cid e cl s =
     (map_get (certInfo (fst s)) cid = e \<and> map_get (locks (fst s)) cid \<noteq> None \<and>
      outstanding cid (snd s) = cl)"

lemma outstanding_finished: "cid' \<noteq> cid \<Longrightarrow> outstanding cid (finished cid' P) = outstanding cid P"
  unfolding outstanding_def finished_def by (induction P) auto

lemma outstanding_Cons: "outstanding cid (cl # P) = (if c_certID cl = cid then Some cl else outstanding cid P)"
  by (simp add: outstanding_def)

lemma held_other_update:
  assumes "cid' \<noteq> cid" "held cid e k (cm, P)"
  shows "held cid e k (fst (update decode now req cid' c cas cm), P)"
  using assms by (simp add: held_def update_frame)

lemma exec_held_Install:
  assumes "held cid e k (cm, P)"
  shows "held cid e k (fst (Install decode now cid' c cas cm), P)"
proof (cases "cid' = cid")
  case True
  with assms update_locked [of cm cid decode now False c cas] show ?thesis
    by (auto simp: held_def fst_Install)
next
  case False
  with held_other_update [OF False assms, of decode now False c cas] show ?thesis
    by (cases "update decode now False cid' c cas cm"; cases "snd (update decode now False cid' c cas cm)")
      (auto simp: held_def fst_Install gomap_simps)
qed

lemma exec_held_Rotate:
  assumes "held cid e k (cm, P)"
  shows "held cid e k (exec decode (OpRotate now cid' c cas) (cm, P))"
proof (cases "cid' = cid")
  case True
  with assms update_locked [of cm cid decode now True c cas] show ?thesis
    by (auto simp: held_def Rotate_def)
next
  case False
  obtain cm' r where r: "update decode now True cid' c cas cm = (cm', r)" by fastforce
  with held_other_update [OF False assms, of decode now True c cas] have "held cid e k (cm', P)" by simp
  with r False show ?thesis
    by (cases r) (auto simp: held_def Rotate_def outstanding_Cons elim: update_Inr)
qed

lemma exec_held:
  assumes "held cid e k s" "\<not> finishes cid opn"
  shows "held cid e k (exec decode opn s)"
proof (cases s)
  case (Pair cm P)
  show ?thesis
  proof (cases opn)
    case (OpAccept cid')
    with assms Pair show ?thesis
      by (auto simp: held_def finishes_def accept_def gomap_simps outstanding_finished
          dest!: outstanding_Some split: option.splits)
  next
    case (OpRollback cid')
    with assms Pair show ?thesis
      by (auto simp: held_def finishes_def rollback_def goNotify_def gomap_simps outstanding_finished
          dest!: outstanding_Some split: option.splits)
  next
    case (OpInstall now cid' c cas)
    with assms Pair exec_held_Install [of cid e k cm P decode now cid' c cas] show ?thesis by simp
  next
    case (OpRotate now cid' c cas)
    with assms Pair exec_held_Rotate [of cid e k cm P decode now cid' c cas] show ?thesis by simp
  qed (use assms Pair in \<open>auto simp: held_def Revoke_certInfo notify_def RegisterNotifier_def\<close>)
qed

lemma run_held:
  assumes "held cid e k s" "\<forall>opn \<in> set ops. \<not> finishes cid opn"
  shows "held cid e k (run decode ops s)"
  by (rule run_invariant) (use assms in \<open>auto intro: exec_held\<close>)

section \<open>Notifications\<close>

text \<open>The last call of a notifier.\<close>

definition lastCall :: "nat \<Rightarrow> 'x manager \<Rightarrow> (nat \<times> nat) option" where
  "lastCall f cm = map_of (rev (calls cm)) f"

definition notified :: "'x manager \<Rightarrow> bool" where
  "notified cm =
     (pendingNotify cm = 0 \<longrightarrow> (\<forall>f n. lastCall f cm = Some n \<longrightarrow> n = (length (certInfo cm), length (caBundle cm))))"

definition calls_ok :: "'x manager \<Rightarrow> bool" where
  "calls_ok cm = (fst ` set (calls cm) \<subseteq> set (notifiers cm))"

fun bundle_ok :: "('b \<Rightarrow> 'x option) \<Rightarrow> 'b op \<Rightarrow> bool" where
  "bundle_ok decode (OpInstall now cid c cas) = list_all (\<lambda>p. decode p \<noteq> None) cas"
| "bundle_ok decode (OpRotate now cid c cas) = list_all (\<lambda>p. decode p \<noteq> None) cas"
| "bundle_ok decode _ = True"

lemma decodeBundle_ok: "list_all (\<lambda>p. decode p \<noteq> None) cas \<Longrightarrow> decodeBundle decode cas xs = Some (xs @ map (the \<circ> decode) cas)"
  by (induction cas arbitrary: xs) auto

lemma map_of_rev_const: "map_of (rev (map (\<lambda>f. (f, v)) fs)) f = (if f \<in> set fs then Some v else None)"
  by (induction fs) (auto simp: map_add_def split: option.splits)

lemma lastCall_notify:
  "lastCall f (notify cm) =
     (if f \<in> set (notifiers cm) then Some (length (certInfo cm), length (caBundle cm)) else lastCall f cm)"
  by (simp add: notify_def lastCall_def map_add_def map_of_rev_const)

lemma calls_ok_lastCall: "calls_ok cm \<Longrightarrow> f \<notin> set (notifiers cm) \<Longrightarrow> lastCall f cm = None"
  by (force simp: calls_ok_def lastCall_def map_of_eq_None_iff)

lemma notified_notify: "calls_ok cm \<Longrightarrow> notified (notify cm) \<and> calls_ok (notify cm)"
  by (auto simp: notified_def lastCall_notify calls_ok_lastCall)
    (auto simp: notify_def calls_ok_def)

lemma notified_update:
  assumes "notified cm \<and> calls_ok cm" "list_all (\<lambda>p. decode p \<noteq> None) cas"
  shows "notified (fst (update decode now req cid c cas cm)) \<and> calls_ok (fst (update decode now req cid c cas cm))"
  using assms(1) decodeBundle_ok [OF assms(2), of "[]"]
  by (auto simp: update_def Let_def notified_def calls_ok_def lastCall_def goNotify_def split: option.splits)

lemma notified_locks: "notified (cm\<lparr>locks := l\<rparr>) = notified cm" "calls_ok (cm\<lparr>locks := l\<rparr>) = calls_ok cm"
  by (simp_all add: notified_def calls_ok_def lastCall_def)

lemma notified_goNotify: "notified (goNotify cm)" "calls_ok (goNotify cm) = calls_ok cm"
  by (simp_all add: notified_def calls_ok_def goNotify_def)

lemma notified_exec:
  assumes "notified (fst s) \<and> calls_ok (fst s)" "bundle_ok decode opn"
  shows "notified (fst (exec decode opn s)) \<and> calls_ok (fst (exec decode opn s))"
proof (cases s)
  case (Pair cm P)
  show ?thesis
  proof (cases opn)
    case (OpInstall now cid c cas)
    with assms Pair notified_update [of cm decode cas now False cid c] show ?thesis
      by (auto simp: fst_Install notified_locks split: prod.splits sum.splits)
  next
    case (OpRotate now cid c cas)
    with assms Pair notified_update [of cm decode cas now True cid c] show ?thesis
      by (auto simp: Rotate_def split: prod.splits sum.splits)
  next
    case OpNotify
    with assms Pair notified_notify [of cm] show ?thesis by simp
  qed (use assms Pair in \<open>auto simp: accept_def rollback_def notified_goNotify notified_locks Revoke_def
      calls_ok_def RegisterNotifier_def notified_def lastCall_def split: option.splits prod.splits\<close>;
      simp add: goNotify_def)+
qed

section \<open>Properties\<close>

text \<open>
  The decoder of the examples: texts of one letter are certificates, everything else is not.
\<close>

definition sampleDecode :: "string \<Rightarrow> string option" where
  "sampleDecode s = (if length s = 1 then Some s else None)"

text \<open>Whatever calls a manager gets, \<open>TLSCertificates\<close> never meets a nil entry: it returns the
  installed certificates, each with the private key, and the CA bundle.\<close>

lemma TLSCertificates_total:
  "let cm = fst (run decode ops (NewManager key, [])) in
   TLSCertificates cm =
     Ok (map (\<lambda>(k, p). \<lparr>leaf = cert (the p), tlsKey = privateKey cm\<rparr>) (certInfo cm), set (caBundle cm))"
proof -
  have "wf_sys (run decode ops (NewManager key, []))" by (rule wf_run [OF wf_sys_init])
  then have "wf_manager (fst (run decode ops (NewManager key, [])))"
    by (auto simp: wf_sys_def split: prod.splits)
  then have "\<forall>(k, p) \<in> set (certInfo (fst (run decode ops (NewManager key, [])))). p \<noteq> None"
    by (auto simp: entry_ok_def dest!: wf_entries split: option.splits)
  then show ?thesis by (simp add: Let_def TLSCertificates_def tlsCerts_ok)
qed

lemma update_rollback:
  assumes "update decode now True cid c cas cm = (cm1, Inr cl)"
  shows "rollback cl cm1 = cm\<lparr>pendingNotify := pendingNotify cm + 2\<rparr>"
  using assms by (auto elim!: update_Inr simp: rollback_def goNotify_def gomap_simps)

text \<open>C6: A rotation that is rolled back at once leaves the manager exactly as it was before, the CA
  bundle included; only the two goroutines that notify are added.\<close>

theorem Rotate_rollback_restores:
  assumes "Rotate decode now cid c cas cm = (cm1, Ok cl)"
  shows "rollback cl cm1 = cm\<lparr>pendingNotify := pendingNotify cm + 2\<rparr>"
  using assms by (simp add: Rotate_def update_rollback)

theorem Rotate_rollback_restores_witness:
  "rollback \<lparr>c_certID = ''id'', oldCertInfo = Some \<lparr>certID = ''id'', cert = ''a'', updated = 1\<rparr>, oldCABundle = Some []\<rparr>
     (fst (Rotate sampleDecode 2 ''id'' ''b'' [''c''] (fst (Install sampleDecode 1 ''id'' ''a'' [] (NewManager ''key'')))))
   = (fst (Install sampleDecode 1 ''id'' ''a'' [] (NewManager ''key'')))\<lparr>pendingNotify := 3\<rparr>"
  by (subst Rotate_rollback_restores [where decode = sampleDecode and now = 2 and cid = "''id''" and c = "''b''"
        and cas = "[''c'']" and cm = "fst (Install sampleDecode 1 ''id'' ''a'' [] (NewManager ''key''))"])
    (simp_all add: Install_def Rotate_def update_def NewManager_def sampleDecode_def accept_def goNotify_def)

text \<open>C4: Between a rotation and its end, no sequence of other operations, the installation, rotation and
  revocation of the same identifier included, changes its certificate; rolling back then gives the
  certificate it had before the rotation, and accepting keeps the new one; both free the lock.\<close>

theorem Rotate_isolated:
  assumes "wf_sys (cm, P)" "Rotate decode now cid c cas cm = (cm1, Ok cl)"
    and "\<forall>opn \<in> set ops. \<not> finishes cid opn"
  shows "let s = run decode ops (cm1, cl # P);
             back = fst (exec decode (OpRollback cid) s);
             acc = fst (exec decode (OpAccept cid) s);
             new = Some (Some \<lparr>certID = cid, cert = the (decode c), updated = now\<rparr>) in
         map_get (certInfo (fst s)) cid = new
       \<and> map_get (certInfo back) cid = map_get (certInfo cm) cid \<and> map_get (locks back) cid = None
       \<and> map_get (certInfo acc) cid = new \<and> map_get (locks acc) cid = None"
proof -
  define s where "s = run decode ops (cm1, cl # P)"
  let ?new = "Some (Some \<lparr>certID = cid, cert = the (decode c), updated = now\<rparr>)"
  have wf: "wf_manager cm" using assms(1) by (simp add: wf_sys_def)
  have u: "update decode now True cid c cas cm = (cm1, Inr cl)" using assms(2) by (simp add: Rotate_def)
  have cl: "c_certID cl = cid" "map_get (certInfo cm) cid = Some (oldCertInfo cl)"
    using u by (auto elim!: update_Inr)
  have "held cid ?new (Some cl) (cm1, cl # P)"
    using u by (auto simp: held_def gomap_simps outstanding_Cons elim!: update_Inr)
  then have "held cid ?new (Some cl) s" unfolding s_def using assms(3) by (rule run_held)
  then have h: "map_get (certInfo (fst s)) cid = ?new" "outstanding cid (snd s) = Some cl"
    by (simp_all add: held_def)
  have "exec decode (OpRollback cid) s = (rollback cl (fst s), finished cid (snd s))"
    "exec decode (OpAccept cid) s = (accept cl (fst s), finished cid (snd s))"
    using h(2) by (cases s; simp)+
  with h cl show ?thesis unfolding s_def [symmetric]
    by (simp add: Let_def rollback_def goNotify_def accept_def gomap_simps)
qed

lemma map_get_singleton: "map_get [(k, v)] k' = (if k' = k then Some v else None)"
  by simp

theorem Rotate_isolated_witness:
  "let cm = \<lparr>privateKey = ''key'', certInfo = [(''id'', Some \<lparr>certID = ''id'', cert = ''a'', updated = 1\<rparr>)],
              caBundle = [], locks = [], notifiers = [], pendingNotify = 1, calls = []\<rparr>;
       ops = [OpInstall 3 ''id'' ''x'' [], OpRotate 4 ''id'' ''y'' [], OpRevoke [''id''], OpInstall 5 ''other'' ''z'' [''c'']];
       s = run sampleDecode ops (exec sampleDecode (OpRotate 2 ''id'' ''b'' []) (cm, []))
   in map_get (certInfo (fst s)) ''id'' = Some (Some \<lparr>certID = ''id'', cert = ''b'', updated = 2\<rparr>)
    \<and> map_get (certInfo (fst (exec sampleDecode (OpRollback ''id'') s))) ''id''
      = Some (Some \<lparr>certID = ''id'', cert = ''a'', updated = 1\<rparr>)"
proof -
  define cm :: "string manager" where
    "cm = \<lparr>privateKey = ''key'', certInfo = [(''id'', Some \<lparr>certID = ''id'', cert = ''a'', updated = 1\<rparr>)],
       caBundle = [], locks = [], notifiers = [], pendingNotify = 1, calls = []\<rparr>"
  define ops :: "string op list" where
    "ops = [OpInstall 3 ''id'' ''x'' [], OpRotate 4 ''id'' ''y'' [], OpRevoke [''id''], OpInstall 5 ''other'' ''z'' [''c'']]"
  define r where "r = Rotate sampleDecode 2 ''id'' ''b'' [] cm"
  obtain cm1 cl where r: "r = (cm1, Ok cl)" and x: "exec sampleDecode (OpRotate 2 ''id'' ''b'' []) (cm, []) = (cm1, [cl])"
    by (auto simp: r_def cm_def Rotate_def update_def sampleDecode_def Let_def)
  have "wf_sys (cm, [])"
    by (simp add: wf_sys_def wf_manager_def map_ok_def entry_ok_def cm_def map_get_singleton)
  moreover have "\<forall>opn \<in> set ops. \<not> finishes ''id'' opn" by (simp add: ops_def finishes_def)
  ultimately show ?thesis
    using Rotate_isolated [of cm "[]" sampleDecode 2 "''id''" "''b''" "[]" cm1 cl ops] r x
    unfolding r_def Let_def cm_def [symmetric] ops_def [symmetric]
    by (simp add: sampleDecode_def) (simp add: cm_def)
qed

text \<open>C27: A certificate or CA certificate that does not decode makes \<open>update\<close> return with the lock of
  the identifier taken and no closure to release it: in no later state is the identifier unlocked,
  installed, rotated or revoked.\<close>

theorem failed_update_locks_forever:
  assumes "wf_sys (cm, P)"
    and "update decode now req cid c cas cm = (cm1, Failed e)" "e \<in> {CertNotDecoded, CABundleNotDecoded}"
  shows "let cm2 = fst (run decode ops (cm1, P)) in
     map_get (locks cm2) cid \<noteq> None
   \<and> fst (update decode now2 req2 cid c2 cas2 cm2) = cm2
   \<and> Revoke [cid] cm2 = (goNotify cm2, [], [(cid, InProgress)])"
proof -
  have l: "map_get (locks cm) cid = None" "map_get (locks cm1) cid \<noteq> None"
    using update_decode_failure [OF assms(2,3)] by (simp_all add: gomap_simps)
  with assms(1) have "outstanding cid P = None"
    by (auto simp: outstanding_None wf_sys_def closure_ok_def)
  with l have "held cid (map_get (certInfo cm1) cid) None (cm1, P)" by (simp add: held_def)
  then have "map_get (locks (fst (run decode ops (cm1, P)))) cid \<noteq> None"
  proof (induction ops arbitrary: cm1 P)
    case (Cons opn ops)
    have "held cid (map_get (certInfo cm1) cid) None (exec decode opn (cm1, P))"
      using Cons.prems exec_held [OF Cons.prems, of opn decode]
      by (cases "finishes cid opn") (auto simp: finishes_def held_def)
    then have "held cid (map_get (certInfo (fst (exec decode opn (cm1, P)))) cid) None (exec decode opn (cm1, P))"
      by (simp add: held_def)
    with Cons.IH [of "fst (exec decode opn (cm1, P))" "snd (exec decode opn (cm1, P))"]
    show ?case by simp
  qed (simp add: held_def)
  moreover from this
  have "fst (update decode now2 req2 cid c2 cas2 (fst (run decode ops (cm1, P)))) = fst (run decode ops (cm1, P))"
    using update_locked [of "fst (run decode ops (cm1, P))" cid decode now2 req2 c2 cas2] by auto
  ultimately show ?thesis by (auto simp: Let_def Revoke_def)
qed

theorem failed_update_locks_forever_witness:
  "let cm1 = fst (Install sampleDecode 1 ''id'' ''bad'' [] (NewManager ''key''));
       cm2 = fst (run sampleDecode [OpInstall 2 ''id'' ''a'' [], OpAccept ''id'', OpRevoke [''id'']] (cm1, []))
   in Revoke [''id''] cm2 = (goNotify cm2, [], [(''id'', InProgress)])"
proof -
  have "update sampleDecode 1 False ''id'' ''bad'' [] (NewManager ''key'')
      = (fst (Install sampleDecode 1 ''id'' ''bad'' [] (NewManager ''key'')), Failed CertNotDecoded)"
    by (simp add: Install_def update_def NewManager_def sampleDecode_def)
  from failed_update_locks_forever [OF wf_sys_init this, of "[OpInstall 2 ''id'' ''a'' [], OpAccept ''id'', OpRevoke [''id'']]"]
  show ?thesis unfolding Let_def by blast
qed

text \<open>Two rotations that replace the CA bundle interfere: rolling back the first restores the bundle
  from before both, although the second has been accepted; its certificate stays without its bundle.\<close>

lemma rollback_clobbers_bundle:
  assumes "Rotate decode t1 a c1 cas1 cm = (cm1, Ok cl1)" "Rotate decode t2 b c2 cas2 cm1 = (cm2, Ok cl2)"
    and "cas1 \<noteq> []" "cas2 \<noteq> []"
  shows "caBundle cm2 = map (the \<circ> decode) cas2
       \<and> caBundle (rollback cl1 (accept cl2 cm2)) = caBundle cm
       \<and> (a \<noteq> b \<longrightarrow> map_get (certInfo (rollback cl1 (accept cl2 cm2))) b
            = Some (Some \<lparr>certID = b, cert = the (decode c2), updated = t2\<rparr>))"
proof -
  have dec: "decodeBundle decode cas xs = Some ys \<Longrightarrow> ys = xs @ map (the \<circ> decode) cas" for cas xs ys
    by (induction cas arbitrary: xs) (fastforce split: option.splits)+
  have "a = c_certID cl1" "oldCABundle cl1 = Some (caBundle cm)"
    using assms(1,3) by (auto simp: Rotate_def update_def Let_def goNotify_def split: if_splits option.splits)
  moreover have "caBundle cm2 = map (the \<circ> decode) cas2" "b = c_certID cl2"
      "map_get (certInfo cm2) b = Some (Some \<lparr>certID = b, cert = the (decode c2), updated = t2\<rparr>)"
    using assms(2,4) by (auto simp: Rotate_def update_def Let_def goNotify_def gomap_simps
        split: if_splits option.splits dest!: dec)
  ultimately show ?thesis by (auto simp: rollback_def accept_def goNotify_def gomap_simps)
qed

lemma rollback_clobbers_bundle_witness:
  "let cm = \<lparr>privateKey = ''key'', certInfo = [(''p'', Some \<lparr>certID = ''p'', cert = ''a'', updated = 1\<rparr>),
                (''q'', Some \<lparr>certID = ''q'', cert = ''a'', updated = 1\<rparr>)],
              caBundle = [''o''], locks = [], notifiers = [], pendingNotify = 0, calls = []\<rparr>;
       s = run sampleDecode [OpRotate 2 ''p'' ''b'' [''x''], OpRotate 3 ''q'' ''c'' [''y''], OpAccept ''q'', OpRollback ''p''] (cm, [])
   in caBundle (fst s) = [''o'']"
proof -
  define cm :: "string manager" where
    "cm = \<lparr>privateKey = ''key'', certInfo = [(''p'', Some \<lparr>certID = ''p'', cert = ''a'', updated = 1\<rparr>),
                (''q'', Some \<lparr>certID = ''q'', cert = ''a'', updated = 1\<rparr>)],
              caBundle = [''o''], locks = [], notifiers = [], pendingNotify = 0, calls = []\<rparr>"
  obtain cm1 cl1 where r1: "Rotate sampleDecode 2 ''p'' ''b'' [''x''] cm = (cm1, Ok cl1)" and i1: "c_certID cl1 = ''p''"
      "map_get (certInfo cm1) ''q'' \<noteq> None" "map_get (locks cm1) ''q'' = None"
    by (auto simp: cm_def Rotate_def update_def sampleDecode_def goNotify_def)
  then obtain cm2 cl2 where r2: "Rotate sampleDecode 3 ''q'' ''c'' [''y''] cm1 = (cm2, Ok cl2)" "c_certID cl2 = ''q''"
    by (auto simp: Rotate_def update_def sampleDecode_def goNotify_def)
  have "caBundle (rollback cl1 (accept cl2 cm2)) = caBundle cm"
    using rollback_clobbers_bundle [OF r1 r2(1)] by simp
  then show ?thesis unfolding Let_def cm_def [symmetric]
    using r1 r2 i1(1) by (simp add: outstanding_def finished_def) (simp add: cm_def)
qed

text \<open>Once no notify goroutine is waiting, every notifier that has been called has last been called
  with the present numbers of certificates and CA certificates, in runs whose CA bundles decode.\<close>

lemma notifiers_up_to_date:
  assumes "\<forall>opn \<in> set ops. bundle_ok decode opn"
  shows "let cm = fst (run decode ops (NewManager key, [])) in
    pendingNotify cm = 0 \<longrightarrow> lastCall f cm = Some n \<longrightarrow> n = (length (certInfo cm), length (caBundle cm))"
proof -
  have "(\<lambda>s. notified (fst s) \<and> calls_ok (fst s)) (run decode ops (NewManager key, []))"
  proof (rule run_invariant)
    show "notified (fst (NewManager key, [])) \<and> calls_ok (fst (NewManager key, []))"
      by (simp add: NewManager_def notified_def calls_ok_def lastCall_def)
    fix opn and s :: "'b sys"
    assume "opn \<in> set ops" "notified (fst s) \<and> calls_ok (fst s)"
    with assms show "notified (fst (exec decode opn s)) \<and> calls_ok (fst (exec decode opn s))"
      by (intro notified_exec) auto
  qed
  then show ?thesis by (cases n) (simp add: notified_def Let_def)
qed

end
