(* ===== verification/CertServer.thy ===== *)
theory CertServer
  imports CertManager
begin

text \<open>
  The certificate management service \<open>gnoi/cert/server.go\<close> and its client \<open>gnoi/cert/client.go\<close>.
  A handler of a bidirectional stream is a process that receives, sends and acts on the shared state;
  it is run against a script of messages, of send outcomes and of what other goroutines do to the
  state in between, or a client and a server process are run against each other.
\<close>

section \<open>Processes\<close>

datatype ('i, 'o, 's, 'r) proc =
    Done 'r
  | Recv "'i option \<Rightarrow> ('i, 'o, 's, 'r) proc"
  | Send 'o "bool \<Rightarrow> ('i, 'o, 's, 'r) proc"
  | Atomic "'s \<Rightarrow> 's \<times> ('i, 'o, 's, 'r) proc"

text \<open>
  \<open>play p rs ss es s\<close>: each \<open>Recv\<close> takes the next of \<open>rs\<close> (\<open>None\<close>, and the end of the script, is an
  error of \<open>stream.Recv\<close>), each \<open>Send\<close> the next of \<open>ss\<close> (\<open>False\<close> is an error, the end is success),
  and before each action on the state the environment makes the next change of \<open>es\<close>.
\<close>

primrec play :: "('i, 'o, 's, 'r) proc \<Rightarrow> 'i option list \<Rightarrow> bool list \<Rightarrow> ('s \<Rightarrow> 's) list \<Rightarrow> 's \<Rightarrow> 's \<times> 'r \<times> 'o list" where
  "play (Done r) rs ss es s = (s, r, [])"
| "play (Recv k) rs ss es s =
     (case rs of [] \<Rightarrow> play (k None) [] ss es s | m # ms \<Rightarrow> play (k m) ms ss es s)"
| "play (Send out k) rs ss es s =
     (case (case ss of [] \<Rightarrow> play (k True) rs [] es s | b # bs \<Rightarrow> play (k b) rs bs es s) of
        (s', r, outs) \<Rightarrow> (s', r, out # outs))"
| "play (Atomic f) rs ss es s =
     (let e = (case es of [] \<Rightarrow> id | e # _ \<Rightarrow> e); r = map_prod id play (f (e s))
      in snd r rs ss (tl es) (fst r))"

lemma play_Atomic [simp]:
  "play (Atomic f) rs ss [] s = play (snd (f s)) rs ss [] (fst (f s))"
  "play (Atomic f) rs ss (e # es) s = play (snd (f (e s))) rs ss es (fst (f (e s)))"
  by (simp_all add: Let_def)

declare play.simps(4) [simp del]

section \<open>Messages\<close>

text \<open>
  Enumerations of proto3 are open, so a type is an \<open>int\<close>. Message fields are pointers; elements of a
  repeated field that came over the wire are never nil.
\<close>

definition CT_X509 :: int where "CT_X509 = 1"
definition KT_RSA :: int where "KT_RSA = 1"

record csrParams =
  csr_Type :: int
  csr_MinKeySize :: "32 word"
  csr_KeyType :: int
  csr_CommonName :: string
  csr_Country :: string
  csr_Organization :: string
  csr_OrganizationalUnit :: string
  csr_State :: string
  csr_IpAddress :: string

record pkixName =
  Country :: "string list"
  Organization :: "string list"
  OrganizationalUnit :: "string list"
  Province :: "string list"
  Locality :: "string list"
  StreetAddress :: "string list"
  PostalCode :: "string list"
  CommonName :: string

record 'b pbCertificate =
  pb_Type :: int
  pb_Certificate :: 'b

datatype 'b request =
    GenerateCsr "csrParams option" string
  | LoadCertificate "'b pbCertificate option" "'b pbCertificate list"
  | FinalizeRotation
  | NoRequest

datatype 'b response =
    GeneratedCsr "(int \<times> 'b) option"
  | LoadCertificateResponse
  | NoResponse

section \<open>The service\<close>

text \<open>\<open>ManagerInterface\<close>, with the accept and rollback closures applied by the last two.\<close>

record ('s, 'b, 'x, 'cl) managerInterface =
  mi_Install :: "string \<Rightarrow> 'b \<Rightarrow> 'b list \<Rightarrow> 's \<Rightarrow> 's \<times> (cert_error, unit) result"
  mi_Rotate :: "string \<Rightarrow> 'b \<Rightarrow> 'b list \<Rightarrow> 's \<Rightarrow> 's \<times> (cert_error, 'cl) result"
  mi_GenCSR :: "pkixName \<Rightarrow> 's \<Rightarrow> (cert_error, 'b) result"
  mi_GetCertInfo :: "'s \<Rightarrow> 'x info option list"
  mi_Revoke :: "string list \<Rightarrow> 's \<Rightarrow> 's \<times> string list \<times> (string, revoke_error) gomap"
  mi_accept :: "'cl \<Rightarrow> 's \<Rightarrow> 's"
  mi_rollback :: "'cl \<Rightarrow> 's \<Rightarrow> 's"

datatype service_error =
    RecvFailed
  | SendCSRFailed
  | SendLoadFailed
  | ExpectedGenerateCSR
  | ExpectedLoadCertificate
  | CertificateTypeNotSupported
  | KeyTypeNotSupported
  | UnexpectedCertificateType
  | GenCSRFailed
  | LoadFailed cert_error
  | RolledBackRecvFailed
  | RolledBackExpectedFinalize

text \<open>The first half of both handlers: the CSR that the client asks for.\<close>

definition csrSubject :: "csrParams \<Rightarrow> pkixName" where
  "csrSubject p =
     \<lparr>Country = [csr_Country p], Organization = [csr_Organization p],
      OrganizationalUnit = [csr_OrganizationalUnit p], Province = [], Locality = [], StreetAddress = [], PostalCode = [], CommonName = csr_CommonName p\<rparr>"

definition csrPhase ::
    "('s, 'b, 'x, 'cl) managerInterface
     \<Rightarrow> (string \<Rightarrow> ('b request, 'b response, 's, (service_error, unit) result) proc)
     \<Rightarrow> ('b request, 'b response, 's, (service_error, unit) result) proc" where
  "csrPhase mi k =
     Recv (\<lambda>m. case m of
         None \<Rightarrow> Done (Failed RecvFailed)
       | Some (GenerateCsr params cid) \<Rightarrow>
           (case params of
              None \<Rightarrow> Done (Panics NilDereference)
            | Some p \<Rightarrow>
                if csr_Type p \<noteq> CT_X509 then Done (Failed CertificateTypeNotSupported)
                else if csr_KeyType p \<noteq> KT_RSA then Done (Failed KeyTypeNotSupported)
                else Atomic (\<lambda>s. (s,
                  (case mi_GenCSR mi (csrSubject p) s of
                     Inl (Err e) \<Rightarrow> Done (Failed GenCSRFailed)
                   | Inl (Panic q) \<Rightarrow> Done (Panics q)
                   | Inr pemCSR \<Rightarrow>
                       Send (GeneratedCsr (Some (CT_X509, pemCSR)))
                         (\<lambda>sent. if sent then k cid else Done (Failed SendCSRFailed))))))
       | Some _ \<Rightarrow> Done (Failed ExpectedGenerateCSR))"

text \<open>The second half: the certificate and the CA certificates to load.\<close>

fun caCertificates :: "'b pbCertificate list \<Rightarrow> 'b list \<Rightarrow> 'b list option" where
  "caCertificates [] pemCACerts = Some pemCACerts"
| "caCertificates (c # cs) pemCACerts =
     (if pb_Type c \<noteq> CT_X509 then None else caCertificates cs (pemCACerts @ [pb_Certificate c]))"

definition loadPhase ::
    "('b \<Rightarrow> 'b list \<Rightarrow> ('b request, 'b response, 's, (service_error, unit) result) proc)
     \<Rightarrow> ('b request, 'b response, 's, (service_error, unit) result) proc" where
  "loadPhase k =
     Recv (\<lambda>m. case m of
         None \<Rightarrow> Done (Failed RecvFailed)
       | Some (LoadCertificate crt cas) \<Rightarrow>
           (case crt of
              None \<Rightarrow> Done (Panics NilDereference)
            | Some c \<Rightarrow>
                if pb_Type c \<noteq> CT_X509 then Done (Failed UnexpectedCertificateType)
                else
                  (case caCertificates cas [] of
                     None \<Rightarrow> Done (Failed UnexpectedCertificateType)
                   | Some pemCACerts \<Rightarrow> k (pb_Certificate c) pemCACerts))
       | Some _ \<Rightarrow> Done (Failed ExpectedLoadCertificate))"

definition Server_Install ::
    "('s, 'b, 'x, 'cl) managerInterface
     \<Rightarrow> ('b request, 'b response, 's, (service_error, unit) result) proc" where
  "Server_Install mi =
     csrPhase mi (\<lambda>cid. loadPhase (\<lambda>pemCert pemCACerts.
       Atomic (\<lambda>s. case mi_Install mi cid pemCert pemCACerts s of
           (s', Inl (Err e)) \<Rightarrow> (s', Done (Failed (LoadFailed e)))
         | (s', Inl (Panic q)) \<Rightarrow> (s', Done (Panics q))
         | (s', Inr _) \<Rightarrow>
             (s', Send LoadCertificateResponse
               (\<lambda>sent. if sent then Done (Ok ()) else Done (Failed SendLoadFailed))))))"

definition finalPhase ::
    "('s, 'b, 'x, 'cl) managerInterface \<Rightarrow> 'cl
     \<Rightarrow> ('b request, 'b response, 's, (service_error, unit) result) proc" where
  "finalPhase mi cl =
     Recv (\<lambda>m. case m of
         None \<Rightarrow> Atomic (\<lambda>s. (mi_rollback mi cl s, Done (Failed RolledBackRecvFailed)))
       | Some FinalizeRotation \<Rightarrow> Atomic (\<lambda>s. (mi_accept mi cl s, Done (Ok ())))
       | Some _ \<Rightarrow> Atomic (\<lambda>s. (mi_rollback mi cl s, Done (Failed RolledBackExpectedFinalize))))"

definition Server_Rotate ::
    "('s, 'b, 'x, 'cl) managerInterface
     \<Rightarrow> ('b request, 'b response, 's, (service_error, unit) result) proc" where
  "Server_Rotate mi =
     csrPhase mi (\<lambda>cid. loadPhase (\<lambda>pemCert pemCACerts.
       Atomic (\<lambda>s. case mi_Rotate mi cid pemCert pemCACerts s of
           (s', Inl (Err e)) \<Rightarrow> (s', Done (Failed (LoadFailed e)))
         | (s', Inl (Panic q)) \<Rightarrow> (s', Done (Panics q))
         | (s', Inr cl) \<Rightarrow>
             (s', Send LoadCertificateResponse
               (\<lambda>sent. if sent then finalPhase mi cl else Done (Failed SendLoadFailed))))))"

text \<open>\<open>certPEMEncoder\<close> is \<open>x509toPEM\<close>: \<open>pemEncode\<close> of the raw bytes.\<close>

definition x509toPEM :: "('d \<Rightarrow> 'b) \<Rightarrow> ('x \<Rightarrow> 'd) \<Rightarrow> 'x \<Rightarrow> 'b" where
  "x509toPEM pemEncode raw crt = pemEncode (raw crt)"

record 'b certificateInfo =
  ci_CertificateId :: string
  ci_Certificate :: "'b pbCertificate option"
  ci_ModificationTime :: nat

fun certificateInfos :: "('x \<Rightarrow> 'b) \<Rightarrow> 'x info option list \<Rightarrow> ('e, 'b certificateInfo list) result" where
  "certificateInfos enc [] = Ok []"
| "certificateInfos enc (None # cis) = Panics NilDereference"
| "certificateInfos enc (Some ci # cis) =
     (case certificateInfos enc cis of
        Inl e \<Rightarrow> Inl e
      | Inr r \<Rightarrow> Ok (\<lparr>ci_CertificateId = certID ci,
          ci_Certificate = Some \<lparr>pb_Type = CT_X509, pb_Certificate = enc (cert ci)\<rparr>,
          ci_ModificationTime = updated ci\<rparr> # r))"

definition GetCertificates ::
    "('x \<Rightarrow> 'b) \<Rightarrow> ('s, 'b, 'x, 'cl) managerInterface \<Rightarrow> 's \<Rightarrow> (service_error, 'b certificateInfo list) result" where
  "GetCertificates enc mi s = certificateInfos enc (mi_GetCertInfo mi s)"

definition RevokeCertificates ::
    "('s, 'b, 'x, 'cl) managerInterface \<Rightarrow> string list \<Rightarrow> 's
     \<Rightarrow> 's \<times> string list \<times> (string \<times> revoke_error) list" where
  "RevokeCertificates mi ids s =
     (case mi_Revoke mi ids s of (s', revoked, notRevoked) \<Rightarrow>
        (s', revoked, map (\<lambda>(cid, msg). (cid, msg)) notRevoked))"

definition CanGenerateCSR :: "int \<Rightarrow> int \<Rightarrow> 32 word \<Rightarrow> bool" where
  "CanGenerateCSR keyType certificateType keySize =
     (keyType = KT_RSA \<and> certificateType = CT_X509 \<and> 2048 \<le> keySize \<and> keySize \<le> 4096)"

section \<open>The client\<close>

datatype client_error =
    StreamFailed
  | C_SendGenerateCSR
  | C_RecvFailed
  | C_ExpectedCSR
  | C_CSRNotPEM
  | C_CSRNotParsed
  | C_SignFailed
  | C_SendLoad
  | C_ExpectedLoad
  | C_ValidateFailed
  | C_SendFinalize
  | C_CertNotDecoded

text \<open>
  What the client is given: \<open>parseCSR\<close> is the PEM decoding and the parser of a request
  (\<open>Inl\<close> tells which of the two fails), \<open>sign\<close> and \<open>validate\<close> are the caller's functions.
\<close>

record ('b, 'x, 'c) clientOps =
  co_parseCSR :: "'b \<Rightarrow> client_error + 'c"
  co_sign :: "'c \<Rightarrow> 'x option"
  co_encode :: "'x \<Rightarrow> 'b"

definition firstOf :: "string list \<Rightarrow> (client_error, string) result" where
  "firstOf xs = index_at xs 0"

definition clientParams :: "32 word \<Rightarrow> pkixName \<Rightarrow> string \<Rightarrow> (client_error, csrParams) result" where
  "clientParams minKeySize params ipAddress =
     (case (firstOf (Country params), firstOf (Organization params),
            firstOf (OrganizationalUnit params), firstOf (Province params)) of
        (Inr co, Inr org, Inr ou, Inr st) \<Rightarrow>
          Ok \<lparr>csr_Type = CT_X509, csr_MinKeySize = minKeySize, csr_KeyType = KT_RSA,
              csr_CommonName = CommonName params, csr_Country = co, csr_Organization = org,
              csr_OrganizationalUnit = ou, csr_State = st, csr_IpAddress = ipAddress\<rparr>
      | _ \<Rightarrow> Panics IndexOutOfRange)"

definition clientSession ::
    "('b, 'x, 'c) clientOps \<Rightarrow> string \<Rightarrow> 32 word \<Rightarrow> pkixName \<Rightarrow> string \<Rightarrow> 'x list
     \<Rightarrow> ('b response, 'b request, unit, (client_error, unit) result) proc
     \<Rightarrow> ('b response, 'b request, unit, (client_error, unit) result) proc" where
  "clientSession ops cid minKeySize params ipAddress bundle k =
     (case clientParams minKeySize params ipAddress of
        Inl e \<Rightarrow> Done (Inl e)
      | Inr p \<Rightarrow>
          Send (GenerateCsr (Some p) cid) (\<lambda>sent.
            if \<not> sent then Done (Failed C_SendGenerateCSR)
            else Recv (\<lambda>m. case m of
                None \<Rightarrow> Done (Failed C_RecvFailed)
              | Some (GeneratedCsr (Some (ty, pemCSR))) \<Rightarrow>
                  (case co_parseCSR ops pemCSR of
                     Inl e \<Rightarrow> Done (Failed e)
                   | Inr csr \<Rightarrow>
                       (case co_sign ops csr of
                          None \<Rightarrow> Done (Failed C_SignFailed)
                        | Some signedCert \<Rightarrow>
                            Send (LoadCertificate
                                (Some \<lparr>pb_Type = CT_X509, pb_Certificate = co_encode ops signedCert\<rparr>)
                                (map (\<lambda>ca. \<lparr>pb_Type = CT_X509, pb_Certificate = co_encode ops ca\<rparr>) bundle))
                              (\<lambda>sent. if \<not> sent then Done (Failed C_SendLoad)
                                 else Recv (\<lambda>m. case m of
                                     None \<Rightarrow> Done (Failed C_RecvFailed)
                                   | Some LoadCertificateResponse \<Rightarrow> k
                                   | Some _ \<Rightarrow> Done (Failed C_ExpectedLoad)))))
              | Some _ \<Rightarrow> Done (Failed C_ExpectedCSR))))"

definition Client_Install ::
    "('b, 'x, 'c) clientOps \<Rightarrow> string \<Rightarrow> 32 word \<Rightarrow> pkixName \<Rightarrow> string \<Rightarrow> 'x list
     \<Rightarrow> ('b response, 'b request, unit, (client_error, unit) result) proc" where
  "Client_Install ops cid minKeySize params ipAddress bundle =
     clientSession ops cid minKeySize params ipAddress bundle (Done (Ok ()))"

definition Client_Rotate ::
    "('b, 'x, 'c) clientOps \<Rightarrow> string \<Rightarrow> 32 word \<Rightarrow> pkixName \<Rightarrow> string \<Rightarrow> 'x list \<Rightarrow> bool
     \<Rightarrow> ('b response, 'b request, unit, (client_error, unit) result) proc" where
  "Client_Rotate ops cid minKeySize params ipAddress bundle validate =
     clientSession ops cid minKeySize params ipAddress bundle
       (if \<not> validate then Done (Failed C_ValidateFailed)
        else Send FinalizeRotation (\<lambda>sent. if sent then Done (Ok ()) else Done (Failed C_SendFinalize)))"

text \<open>\<open>PEMtox509\<close> is \<open>decode\<close>; an entry without a certificate is skipped.\<close>

fun clientCertificates ::
    "('b \<Rightarrow> 'x option) \<Rightarrow> 'b certificateInfo list \<Rightarrow> (string, 'x) gomap \<Rightarrow> (client_error, (string, 'x) gomap) result" where
  "clientCertificates decode [] ret = Ok ret"
| "clientCertificates decode (ci # cis) ret =
     (case ci_Certificate ci of
        None \<Rightarrow> clientCertificates decode cis ret
      | Some c \<Rightarrow>
          (case decode (pb_Certificate c) of
             None \<Rightarrow> Failed C_CertNotDecoded
           | Some x \<Rightarrow> clientCertificates decode cis (map_put (ci_CertificateId ci) x ret)))"

definition Client_GetCertificates ::
    "('b \<Rightarrow> 'x option) \<Rightarrow> 'b certificateInfo list option \<Rightarrow> (client_error, (string, 'x) gomap) result" where
  "Client_GetCertificates decode out =
     (case out of None \<Rightarrow> Failed StreamFailed | Some cis \<Rightarrow> clientCertificates decode cis [])"

definition Client_RevokeCertificates ::
    "(string \<times> revoke_error) list option \<Rightarrow> (client_error, (string, revoke_error) gomap) result" where
  "Client_RevokeCertificates out =
     (case out of
        None \<Rightarrow> Failed StreamFailed
      | Some es \<Rightarrow> Ok (fold (\<lambda>(cid, msg) ret. map_put cid msg ret) es []))"

definition Client_CanGenerateCSR :: "(int \<Rightarrow> int \<Rightarrow> 32 word \<Rightarrow> bool option) \<Rightarrow> (client_error, bool) result" where
  "Client_CanGenerateCSR call =
     (case call KT_RSA CT_X509 2048 of None \<Rightarrow> Failed StreamFailed | Some b \<Rightarrow> Ok b)"

section \<open>A client and a server, linked\<close>

text \<open>
  The two ends of one stream: messages are delivered in order, a \<open>Recv\<close> fails once the other end has
  returned. The client moves first where both can; neither looks at the other except through the
  two queues, so the order does not matter. \<open>None\<close> is a deadlock or the end of the fuel.
\<close>

fun link ::
    "nat \<Rightarrow> ('o, 'i, unit, 'a) proc \<Rightarrow> ('i, 'o, 's, 'r) proc \<Rightarrow> 'i list \<Rightarrow> 'o list \<Rightarrow> 's \<Rightarrow> ('s \<times> 'a \<times> 'r) option" where
  "link 0 cl sv up down s = None"
| "link (Suc n) (Done a) (Done b) up down s = Some (s, a, b)"
| "link (Suc n) (Send m k) sv up down s = link n (k True) sv (up @ [m]) down s"
| "link (Suc n) (Atomic f) sv up down s = link n (snd (f ())) sv up down s"
| "link (Suc n) (Recv k) sv up (m # down) s = link n (k (Some m)) sv up down s"
| "link (Suc n) (Recv k) (Done b) up [] s = link n (k None) (Done b) up [] s"
| "link (Suc n) cl (Send m k) up down s = link n cl (k True) up (down @ [m]) s"
| "link (Suc n) cl (Atomic f) up down s = link n cl (snd (f s)) up down (fst (f s))"
| "link (Suc n) cl (Recv k) (m # up) down s = link n cl (k (Some m)) up down s"
| "link (Suc n) (Done a) (Recv k) [] down s = link n (Done a) (k None) [] down s"
| "link (Suc n) (Recv k) (Recv k') [] [] s = None"

section \<open>The contract of the manager\<close>

text \<open>
  What the service relies on: a successful rotation is pending, with the entry to go back to; nothing
  that other goroutines do (\<open>env\<close>) ends it or changes its entry; accepting and rolling back end it.
\<close>

locale manager_contract =
  fixes mi :: "('s, 'b, 'x, 'cl) managerInterface"
    and inv :: "'s \<Rightarrow> bool"
    and entry :: "'s \<Rightarrow> string \<Rightarrow> 'e"
    and free :: "'s \<Rightarrow> string \<Rightarrow> bool"
    and pending :: "'s \<Rightarrow> string \<Rightarrow> 'cl \<Rightarrow> 'e \<Rightarrow> bool"
    and env :: "string \<Rightarrow> ('s \<Rightarrow> 's) \<Rightarrow> bool"
  assumes env_inv: "env cid f \<Longrightarrow> inv s \<Longrightarrow> inv (f s)"
    and rotate_pending: "inv s \<Longrightarrow> mi_Rotate mi cid c cas s = (s', Ok cl) \<Longrightarrow> inv s' \<and> pending s' cid cl (entry s cid)"
    and pending_busy: "pending s cid cl old \<Longrightarrow> \<not> free s cid"
    and env_pending: "env cid f \<Longrightarrow> pending s cid cl old \<Longrightarrow> pending (f s) cid cl old \<and> entry (f s) cid = entry s cid"
    and accept_ends: "pending s cid cl old \<Longrightarrow> free (mi_accept mi cl s) cid \<and> entry (mi_accept mi cl s) cid = entry s cid"
    and rollback_ends: "pending s cid cl old \<Longrightarrow> free (mi_rollback mi cl s) cid \<and> entry (mi_rollback mi cl s) cid = old"
begin

lemma final_phase:
  assumes "pending s cid cl old" "env cid e" "play (finalPhase mi cl) [fin] ss [e] s = (s', r, outs)"
  shows "free s' cid \<and>
    (if fin = Some FinalizeRotation then r = Ok () \<and> entry s' cid = entry s cid
     else r \<in> {Failed RolledBackRecvFailed, Failed RolledBackExpectedFinalize} \<and> entry s' cid = old)"
  using assms(3) env_pending [OF assms(2,1)] accept_ends [of "e s" cid cl old] rollback_ends [of "e s" cid cl old]
  by (auto simp: finalPhase_def split: option.splits request.splits)

lemma rotate_handler:
  assumes "inv s" "env cid e1" "env cid e2" "env cid e3"
    and "csr_Type p = CT_X509" "csr_KeyType p = KT_RSA" "mi_GenCSR mi (csrSubject p) (e1 s) = Ok pemCSR"
    and "pb_Type crt = CT_X509" "caCertificates cas [] = Some pems"
    and rotate: "mi_Rotate mi cid (pb_Certificate crt) pems (e2 (e1 s)) = (s2, Ok cl)"
    and play: "play (Server_Rotate mi) [Some (GenerateCsr (Some p) cid), Some (LoadCertificate (Some crt) cas), fin]
      [True, sent] [e1, e2, e3] s = (s', r, outs)"
  shows "if \<not> sent then r = Failed SendLoadFailed \<and> \<not> free s' cid
     else free s' cid \<and>
      (if fin = Some FinalizeRotation then r = Ok () \<and> entry s' cid = entry s2 cid
       else r \<in> {Failed RolledBackRecvFailed, Failed RolledBackExpectedFinalize}
          \<and> entry s' cid = entry (e2 (e1 s)) cid)"
proof -
  have "inv (e2 (e1 s))" using assms env_inv by blast
  with rotate have pend: "pending s2 cid cl (entry (e2 (e1 s)) cid)" using rotate_pending by blast
  show ?thesis
  proof (cases sent)
    case True
    with assms(5-10) play have "play (finalPhase mi cl) [fin] [] [e3] s2 = (s', r, drop 2 outs)"
      by (auto simp: Server_Rotate_def csrPhase_def loadPhase_def split: prod.splits)
    from final_phase [OF pend assms(4) this] True show ?thesis by (cases "fin = Some FinalizeRotation") auto
  next
    case False
    with assms(5-10) play have "s' = s2 \<and> r = Failed SendLoadFailed"
      by (auto simp: Server_Rotate_def csrPhase_def loadPhase_def)
    with False pend pending_busy show ?thesis by auto
  qed
qed

end

text \<open>The interface of the manager, over the states of its runs.\<close>

definition managerOf ::
    "('b \<Rightarrow> 'x option) \<Rightarrow> nat \<Rightarrow> (pkixName \<Rightarrow> 'x manager \<Rightarrow> (cert_error, 'b) result)
     \<Rightarrow> ('x sys, 'b, 'x, 'x closure) managerInterface" where
  "managerOf decode now genCSR =
     \<lparr>mi_Install = (\<lambda>cid c cas s. (exec decode (OpInstall now cid c cas) s, snd (Install decode now cid c cas (fst s)))),
      mi_Rotate = (\<lambda>cid c cas s. (exec decode (OpRotate now cid c cas) s, snd (Rotate decode now cid c cas (fst s)))),
      mi_GenCSR = (\<lambda>subject s. genCSR subject (fst s)),
      mi_GetCertInfo = (\<lambda>s. GetCertInfo (fst s)),
      mi_Revoke = (\<lambda>ids s. (exec decode (OpRevoke ids) s, snd (Revoke ids (fst s)))),
      mi_accept = (\<lambda>cl. exec decode (OpAccept (c_certID cl))),
      mi_rollback = (\<lambda>cl. exec decode (OpRollback (c_certID cl)))\<rparr>"

definition pendingRotation :: "'x sys \<Rightarrow> string \<Rightarrow> 'x closure \<Rightarrow> 'x info option option \<Rightarrow> bool" where
  "pendingRotation s cid cl old =
     (held cid (map_get (certInfo (fst s)) cid) (Some cl) s \<and> Some (oldCertInfo cl) = old)"

definition otherOps :: "('b \<Rightarrow> 'x option) \<Rightarrow> string \<Rightarrow> ('x sys \<Rightarrow> 'x sys) \<Rightarrow> bool" where
  "otherOps decode cid f = (\<exists>ops. f = run decode ops \<and> (\<forall>opn \<in> set ops. \<not> finishes cid opn))"

lemma exec_Rotate_ok:
  assumes "wf_sys (cm, P)" "Rotate decode now cid c cas cm = (cm1, Ok cl)"
  shows "wf_sys (cm1, cl # P) \<and> pendingRotation (cm1, cl # P) cid cl (map_get (certInfo cm) cid)"
proof
  show "wf_sys (cm1, cl # P)"
    using wf_exec [OF assms(1), of decode "OpRotate now cid c cas"] assms(2) by simp
  have "update decode now True cid c cas cm = (cm1, Inr cl)" using assms(2) by (simp add: Rotate_def)
  then show "pendingRotation (cm1, cl # P) cid cl (map_get (certInfo cm) cid)"
    by (auto elim!: update_Inr simp: pendingRotation_def held_def gomap_simps outstanding_Cons)
qed

interpretation cert_mgr: manager_contract "managerOf decode now genCSR" wf_sys
    "\<lambda>s. map_get (certInfo (fst s))" "\<lambda>s cid. map_get (locks (fst s)) cid = None" pendingRotation "otherOps decode"
proof unfold_locales
  fix cid f and s :: "'b sys"
  assume "otherOps decode cid f" "wf_sys s"
  then show "wf_sys (f s)" by (auto simp: otherOps_def wf_run)
next
  fix s cid c cas s' and cl :: "'b closure"
  assume *: "wf_sys s" "mi_Rotate (managerOf decode now genCSR) cid c cas s = (s', Ok cl)"
  obtain cm P cm1 where "s = (cm, P)" "Rotate decode now cid c cas cm = (cm1, Ok cl)" "s' = (cm1, cl # P)"
    using *(2) by (cases s; cases "Rotate decode now cid c cas (fst s)") (auto simp: managerOf_def)
  with *(1) exec_Rotate_ok show "wf_sys s' \<and> pendingRotation s' cid cl (map_get (certInfo (fst s)) cid)"
    by fastforce
next
  fix s cid old and cl :: "'b closure"
  assume p: "pendingRotation s cid cl old"
  then show "map_get (locks (fst s)) cid \<noteq> None" by (simp add: pendingRotation_def held_def)
  fix f assume "otherOps decode cid f"
  then obtain ops where f: "f = run decode ops" "\<forall>opn \<in> set ops. \<not> finishes cid opn"
    by (auto simp: otherOps_def)
  with p have "held cid (map_get (certInfo (fst s)) cid) (Some cl) (f s)"
    by (auto simp: pendingRotation_def intro: run_held)
  with p show "pendingRotation (f s) cid cl old \<and> map_get (certInfo (fst (f s))) cid = map_get (certInfo (fst s)) cid"
    by (auto simp: pendingRotation_def held_def)
next
  fix s cid old and cl :: "'b closure"
  assume p: "pendingRotation s cid cl old"
  then have o: "outstanding cid (snd s) = Some cl" "c_certID cl = cid" "Some (oldCertInfo cl) = old"
    using outstanding_Some by (fastforce simp: pendingRotation_def held_def)+
  show "map_get (locks (fst (mi_accept (managerOf decode now genCSR) cl s))) cid = None
      \<and> map_get (certInfo (fst (mi_accept (managerOf decode now genCSR) cl s))) cid = map_get (certInfo (fst s)) cid"
    using o by (cases s) (auto simp: managerOf_def accept_def gomap_simps)
  show "map_get (locks (fst (mi_rollback (managerOf decode now genCSR) cl s))) cid = None
      \<and> map_get (certInfo (fst (mi_rollback (managerOf decode now genCSR) cl s))) cid = old"
    using o by (cases s) (auto simp: managerOf_def rollback_def goNotify_def gomap_simps)
qed

section \<open>Properties\<close>


definition sampleManager :: "string manager" where
  "sampleManager = \<lparr>privateKey = ''key'', certInfo = [(''id'', Some \<lparr>certID = ''id'', cert = ''a'', updated = 1\<rparr>)],
     caBundle = [], locks = [], notifiers = [], pendingNotify = 0, calls = []\<rparr>"

definition sampleParams :: csrParams where
  "sampleParams = \<lparr>csr_Type = CT_X509, csr_MinKeySize = 0, csr_KeyType = KT_RSA, csr_CommonName = ''n'', csr_Country = [],
     csr_Organization = [], csr_OrganizationalUnit = [], csr_State = [], csr_IpAddress = []\<rparr>"

lemma sampleManager_wf: "wf_sys (sampleManager, [])"
  by (simp add: wf_sys_def wf_manager_def map_ok_def entry_ok_def sampleManager_def map_get_singleton)

lemma otherOps_run: "\<forall>opn \<in> set ops. \<not> finishes cid opn \<Longrightarrow> otherOps decode cid (run decode ops)"
  by (auto simp: otherOps_def)


text \<open>A request without CSR parameters and a load request without a certificate make both handlers
  dereference a nil pointer, whatever the manager.\<close>

lemma handlers_nil_messages:
  "play (Server_Rotate mi) (Some (GenerateCsr None cid) # rs) ss es s = (s, Panics NilDereference, [])
   \<and> play (Server_Install mi) (Some (GenerateCsr None cid) # rs) ss es s = (s, Panics NilDereference, [])
   \<and> play (loadPhase k) (Some (LoadCertificate None cas) # rs) ss es s = (s, Panics NilDereference, [])"
  by (simp add: Server_Rotate_def Server_Install_def csrPhase_def loadPhase_def)

lemma caCertificates_map:
  "caCertificates (map (\<lambda>ca. \<lparr>pb_Type = CT_X509, pb_Certificate = enc ca\<rparr>) cas) xs = Some (xs @ map enc cas)"
  by (induction cas arbitrary: xs) auto

lemma clientParams_ok:
  assumes "Country n \<noteq> []" "Organization n \<noteq> []" "OrganizationalUnit n \<noteq> []" "Province n \<noteq> []"
  obtains p where "clientParams k n ip = Ok p" "csr_Type p = CT_X509" "csr_KeyType p = KT_RSA"
    "csrSubject p = \<lparr>Country = [hd (Country n)], Organization = [hd (Organization n)],
      OrganizationalUnit = [hd (OrganizationalUnit n)], Province = [], Locality = [], StreetAddress = [], PostalCode = [], CommonName = CommonName n\<rparr>"
  using assms by (auto simp: clientParams_def firstOf_def index_at_def csrSubject_def hd_conv_nth)


definition sampleName :: pkixName where
  "sampleName = \<lparr>Country = [''c''], Organization = [''o''], OrganizationalUnit = [''u''], Province = [''p''],
     Locality = [], StreetAddress = [], PostalCode = [], CommonName = ''n''\<rparr>"


section \<open>The protocols end\<close>

lemma clientParams_types: "clientParams k n ip = Inr p \<Longrightarrow> csr_Type p = CT_X509 \<and> csr_KeyType p = KT_RSA"
  by (auto simp: clientParams_def split: sum.splits)

lemmas protocol_defs = clientSession_def csrPhase_def loadPhase_def finalPhase_def eval_nat_numeral caCertificates_map

lemma install_ends:
  "\<exists>s' a b. link 20 (Client_Install ops cid k n ip cas) (Server_Install mi) [] [] s = Some (s', a, b) \<and> (a = Ok () \<longleftrightarrow> b = Ok ())"
  using clientParams_types [of k n ip]
  by (cases "clientParams k n ip")
    (auto simp: Client_Install_def Server_Install_def protocol_defs split: sum.split exn.split option.split prod.split)

lemma rotate_ends:
  "\<exists>s' a b. link 20 (Client_Rotate ops cid k n ip cas validate) (Server_Rotate mi) [] [] s = Some (s', a, b) \<and> (a = Ok () \<longleftrightarrow> b = Ok ())"
  using clientParams_types [of k n ip]
  by (cases "clientParams k n ip"; cases validate)
    (auto simp: Client_Rotate_def Server_Rotate_def protocol_defs split: sum.split exn.split option.split prod.split)


end
