(* ===== verification/Aliases.thy ===== *)
theory Aliases
  imports GnmiPath Status
begin

text \<open>
  The alias tables of a subscription session, \<open>gnmi/server/aliases.go\<close>. The two tables share their
  entries, which are never changed after their creation, so an entry is a value. Each operation holds
  the tables' mutex throughout.
\<close>

section \<open>State\<close>

record aliasEntry =
  ae_name :: string
  ae_path :: string
  ae_gpath :: "gpath option"
  ae_isServer :: bool

record clientAliases =
  alias2path :: "(string, aliasEntry) gomap"
  path2alias :: "(string, aliasEntry) gomap"
  useServerAliases :: bool

definition newClientAliases :: clientAliases where
  "newClientAliases = \<lparr>alias2path = [], path2alias = [], useServerAliases = False\<rparr>"

section \<open>Updates\<close>

text \<open>One round of the loop, with the name it appends to the result.\<close>

definition serverAlias ::
    "bool \<Rightarrow> string \<Rightarrow> string \<Rightarrow> clientAliases \<Rightarrow> (serr, clientAliases \<times> string list) result" where
  "serverAlias add name path cas =
     (if \<not> HasPrefix name ''#'' then Ok (cas, [])
      else
        (case ToGNMIPath path of
           Inl (Panic p) \<Rightarrow> Panics p
         | Inl (Err e) \<Rightarrow> Ok (cas, [])
         | Inr gpath \<Rightarrow>
             if add then
               (case map_get (alias2path cas) name of
                  None \<Rightarrow>
                    (let ca = \<lparr>ae_name = name, ae_path = path, ae_gpath = Some gpath, ae_isServer = True\<rparr> in
                     Ok (cas\<lparr>path2alias := map_put path ca (path2alias cas),
                             alias2path := map_put name ca (alias2path cas)\<rparr>, [name]))
                | Some _ \<Rightarrow> Ok (cas, []))
             else
               (case map_get (alias2path cas) name of
                  None \<Rightarrow> Ok (cas, [])
                | Some ca \<Rightarrow>
                    if ae_isServer ca then
                      Ok (cas\<lparr>alias2path := map_del name (alias2path cas),
                              path2alias := map_del (ae_path ca) (path2alias cas)\<rparr>, [name])
                    else Ok (cas, []))))"

fun serverAliases_loop ::
    "bool \<Rightarrow> (string, string) gomap \<Rightarrow> clientAliases \<Rightarrow> string list \<Rightarrow> (serr, clientAliases \<times> string list) result" where
  "serverAliases_loop add [] cas aliaslist = Ok (cas, aliaslist)"
| "serverAliases_loop add ((name, path) # serverAliases) cas aliaslist =
     (case serverAlias add name path cas of
        Inl e \<Rightarrow> Inl e
      | Inr (cas', names) \<Rightarrow> serverAliases_loop add serverAliases cas' (aliaslist @ names))"

definition updateServerAliases ::
    "(string, string) gomap \<Rightarrow> bool \<Rightarrow> clientAliases \<Rightarrow> (serr, clientAliases \<times> string list) result" where
  "updateServerAliases serverAliases add cas =
     (case serverAliases_loop add serverAliases cas [] of
        Inl e \<Rightarrow> Inl e
      | Inr (cas', aliaslist) \<Rightarrow> Ok (cas'\<lparr>useServerAliases := add\<rparr>, aliaslist))"

text \<open>A \<open>gnmi.Alias\<close> message, through its nil-safe getters.\<close>

record alias_msg =
  al_Path :: "gpath option"
  al_Alias :: string

definition updateClientAlias ::
    "(gpath \<Rightarrow> gpath) \<Rightarrow> alias_msg \<Rightarrow> clientAliases \<Rightarrow> clientAliases \<times> (serr, unit) result" where
  "updateClientAlias clone alias cas =
     (let name = al_Alias alias; gpath = al_Path alias in
      if name = [] then (cas, Failed (Tagged InvalidArgument TagInvalidAlias))
      else if \<not> HasPrefix name ''#'' then (cas, Failed (Tagged InvalidArgument TagInvalidAlias))
      else if gpath = None \<or> length (GetElem gpath) = 0 then
        (case map_get (alias2path cas) name of
           None \<Rightarrow> (cas, Ok ())
         | Some ca \<Rightarrow>
             (cas\<lparr>alias2path := map_del name (alias2path cas),
                  path2alias := map_del (ae_path ca) (path2alias cas)\<rparr>, Ok ()))
      else
        (let path = ToXPath gpath in
         case ValidateGNMIPath clone [gpath] of
           Inl (Panic p) \<Rightarrow> (cas, Panics p)
         | Inl (Err e) \<Rightarrow> (cas, Failed (Tagged InvalidArgument TagInvalidAlias))
         | Inr _ \<Rightarrow>
             if map_get (path2alias cas) path \<noteq> None then (cas, Failed (Tagged AlreadyExists TagInvalidAlias))
             else if map_get (alias2path cas) name \<noteq> None then (cas, Failed (Tagged AlreadyExists TagInvalidAlias))
             else
               (let ca = \<lparr>ae_name = name, ae_path = path, ae_gpath = gpath, ae_isServer = False\<rparr> in
                (cas\<lparr>path2alias := map_put path ca (path2alias cas),
                     alias2path := map_put name ca (alias2path cas)\<rparr>, Ok ()))))"

fun updateClientAliases_loop ::
    "(gpath \<Rightarrow> gpath) \<Rightarrow> alias_msg list \<Rightarrow> clientAliases \<Rightarrow> string list
     \<Rightarrow> clientAliases \<times> string list \<times> (serr, unit) result" where
  "updateClientAliases_loop clone [] cas aliasname = (cas, aliasname, Ok ())"
| "updateClientAliases_loop clone (alias # aliases) cas aliasname =
     (case updateClientAlias clone alias cas of
        (cas', Inl e) \<Rightarrow> (cas', aliasname, Inl e)
      | (cas', Inr _) \<Rightarrow> updateClientAliases_loop clone aliases cas' (aliasname @ [al_Alias alias]))"

definition updateClientAliases ::
    "(gpath \<Rightarrow> gpath) \<Rightarrow> alias_msg list \<Rightarrow> clientAliases \<Rightarrow> clientAliases \<times> string list \<times> (serr, unit) result" where
  "updateClientAliases clone aliases cas = updateClientAliases_loop clone aliases cas []"

section \<open>Translation\<close>

text \<open>
  \<open>ToPath\<close> and \<open>ToAlias\<close> take and return an \<open>interface{}\<close>: a path pointer, a string, or anything else,
  which they return. \<open>ToPath\<close> writes the elements of the aliased path into the path it is given and
  returns that path. The second result of \<open>xpath.ToGNMIPath\<close> is ignored.
\<close>

datatype 'o pathval = GPath "gpath option" | SPath string | OtherValue 'o

definition ignoreError :: "(xpath_error, gpath) result \<Rightarrow> (serr, 'o pathval) result" where
  "ignoreError r =
     (case r of
        Inl (Panic p) \<Rightarrow> Panics p
      | Inl (Err e) \<Rightarrow> Ok (GPath None)
      | Inr g \<Rightarrow> Ok (GPath (Some g)))"

definition ToPath ::
    "(gpath \<Rightarrow> gpath) \<Rightarrow> clientAliases \<Rightarrow> 'o pathval \<Rightarrow> bool \<Rightarrow> (serr, 'o pathval) result" where
  "ToPath clone cas alias diffFormat =
     (case alias of
        GPath None \<Rightarrow> Ok (if diffFormat then SPath [] else GPath None)
      | GPath (Some a) \<Rightarrow>
          (let ca = (case p_Elem a of
                 [] \<Rightarrow> None
               | e # _ \<Rightarrow> if HasPrefix (pe_Name e) ''#'' then map_get (alias2path cas) (pe_Name e) else None)
           in case ca of
                Some c \<Rightarrow>
                  Ok (if diffFormat then SPath (ae_path c)
                      else GPath (UpdateGNMIPathElem clone (Some a) (ae_gpath c)))
              | None \<Rightarrow> Ok (if diffFormat then SPath (ToXPath (Some a)) else GPath (Some a)))
      | SPath a \<Rightarrow>
          (case map_get (alias2path cas) a of
             Some c \<Rightarrow> Ok (if diffFormat then GPath (ae_gpath c) else SPath (ae_path c))
           | None \<Rightarrow> if diffFormat then ignoreError (ToGNMIPath a) else Ok (SPath a))
      | OtherValue v \<Rightarrow> Ok (OtherValue v))"

text \<open>The gNMI path of \<open>ToAlias\<close> is dereferenced once an alias is found.\<close>

definition ToAlias ::
    "clientAliases \<Rightarrow> 'o pathval \<Rightarrow> bool \<Rightarrow> (serr, 'o pathval) result" where
  "ToAlias cas path diffFormat =
     (case path of
        GPath gpath \<Rightarrow>
          (let p = ToXPath gpath in
           case map_get (path2alias cas) p of
             Some ca \<Rightarrow>
               if diffFormat then Ok (SPath (ae_name ca))
               else (case gpath of
                       None \<Rightarrow> Panics NilDereference
                     | Some g \<Rightarrow> Ok (GPath (Some (GNMIAliasPath (ae_name ca) (p_Target g) (p_Origin g)))))
           | None \<Rightarrow> Ok (if diffFormat then SPath p else GPath gpath))
      | SPath p \<Rightarrow>
          (case map_get (path2alias cas) p of
             Some ca \<Rightarrow> Ok (if diffFormat then GPath (Some (GNMIAliasPath (ae_name ca) [] [])) else SPath (ae_name ca))
           | None \<Rightarrow> if diffFormat then ignoreError (ToGNMIPath p) else Ok (SPath p))
      | OtherValue v \<Rightarrow> Ok (OtherValue v))"

section \<open>The invariant of the two tables\<close>

definition alias_wf :: "clientAliases \<Rightarrow> bool" where
  "alias_wf cas =
     ((\<forall>p ca. map_get (path2alias cas) p = Some ca \<longrightarrow> ae_path ca = p \<and> map_get (alias2path cas) (ae_name ca) = Some ca) \<and>
      (\<forall>n ca. map_get (alias2path cas) n = Some ca \<longrightarrow> ae_name ca = n \<and> HasPrefix n ''#''))"

text \<open>
  Tables that hold client-defined aliases only: an alias is then in both tables, under the printed form
  of its path.
\<close>

definition client_wf :: "clientAliases \<Rightarrow> bool" where
  "client_wf cas =
     (\<forall>n ca. map_get (alias2path cas) n = Some ca \<longrightarrow>
        ae_path ca = ToXPath (ae_gpath ca) \<and> ae_gpath ca \<noteq> None \<and> map_get (path2alias cas) (ae_path ca) = Some ca)"

lemma alias_wf_init: "alias_wf newClientAliases" "client_wf newClientAliases"
  by (simp_all add: alias_wf_def client_wf_def newClientAliases_def)

lemma alias_wf_path: "alias_wf cas \<Longrightarrow> map_get (path2alias cas) p = Some ca \<Longrightarrow>
    ae_path ca = p \<and> map_get (alias2path cas) (ae_name ca) = Some ca"
  by (simp add: alias_wf_def)

lemma alias_wf_name: "alias_wf cas \<Longrightarrow> map_get (alias2path cas) n = Some ca \<Longrightarrow> ae_name ca = n \<and> HasPrefix n ''#''"
  by (simp add: alias_wf_def)

lemma alias_wf_add:
  assumes "alias_wf cas" "map_get (alias2path cas) (ae_name ca) = None" "HasPrefix (ae_name ca) ''#''"
  shows "alias_wf (cas\<lparr>path2alias := map_put (ae_path ca) ca (path2alias cas),
    alias2path := map_put (ae_name ca) ca (alias2path cas)\<rparr>)"
  using assms unfolding alias_wf_def by (auto simp: gomap_simps) (metis option.distinct(1) option.inject)+

lemmas alias_wf_add_record = alias_wf_add [where ca = "\<lparr>ae_name = n, ae_path = p, ae_gpath = q, ae_isServer = b\<rparr>" for n p q b]

lemmas alias_wf_new = alias_wf_add_record [simplified]

lemma alias_wf_del:
  assumes "alias_wf cas" "map_get (alias2path cas) name = Some ca"
  shows "alias_wf (cas\<lparr>alias2path := map_del name (alias2path cas), path2alias := map_del (ae_path ca) (path2alias cas)\<rparr>)"
  using assms unfolding alias_wf_def by (auto simp: gomap_simps)

lemma client_wf_add:
  assumes "client_wf cas" "map_get (path2alias cas) (ToXPath (Some g)) = None" "ae_gpath ca = Some g" "ae_path ca = ToXPath (Some g)"
  shows "client_wf (cas\<lparr>path2alias := map_put (ae_path ca) ca (path2alias cas),
    alias2path := map_put (ae_name ca) ca (alias2path cas)\<rparr>)"
  using assms unfolding client_wf_def by (auto simp: gomap_simps) (metis option.distinct(1) option.inject)+

lemmas client_wf_add_record = client_wf_add [where ca = "\<lparr>ae_name = n, ae_path = p, ae_gpath = q, ae_isServer = b\<rparr>" for n p q b]

lemmas client_wf_new = client_wf_add_record [simplified]

lemma client_wf_del:
  assumes "client_wf cas" "alias_wf cas" "map_get (alias2path cas) name = Some ca"
  shows "client_wf (cas\<lparr>alias2path := map_del name (alias2path cas), path2alias := map_del (ae_path ca) (path2alias cas)\<rparr>)"
  using assms unfolding client_wf_def alias_wf_def by (auto simp: gomap_simps) (metis option.distinct(1) option.inject)+

lemma alias_wf_serverAlias:
  assumes "alias_wf cas" "serverAlias add name path cas = Ok (cas', names)"
  shows "alias_wf cas'"
proof (cases "cas' = cas")
  case False
  with assms(2) obtain g where g: "HasPrefix name ''#''" "ToGNMIPath path = Ok g"
    by (auto simp: serverAlias_def split: if_splits sum.splits exn.splits)
  show ?thesis
  proof (cases "map_get (alias2path cas) name")
    case None
    with assms False g show ?thesis
      by (auto simp: serverAlias_def Let_def alias_wf_new split: if_splits)
  next
    case (Some ca)
    with assms False g show ?thesis
      by (auto simp: serverAlias_def alias_wf_del split: if_splits)
  qed
qed (use assms in simp)

lemma alias_wf_server:
  "alias_wf cas \<Longrightarrow> serverAliases_loop add sa cas names = Ok (cas', names') \<Longrightarrow> alias_wf cas'"
  by (induction add sa cas names rule: serverAliases_loop.induct)
    (auto dest: alias_wf_serverAlias split: sum.splits)

lemma alias_wf_use [simp]: "alias_wf (cas\<lparr>useServerAliases := b\<rparr>) = alias_wf cas"
  by (simp add: alias_wf_def)

lemma alias_wf_updateServer:
  "alias_wf cas \<Longrightarrow> updateServerAliases sa add cas = Ok (cas', names) \<Longrightarrow> alias_wf cas'"
  by (auto simp: updateServerAliases_def split: sum.splits dest: alias_wf_server)

text \<open>The outcomes of one client alias.\<close>

lemma updateClientAlias_cases:
  obtains (Refused) e where "updateClientAlias clone alias cas = (cas, Inl e)"
  | (Ignored) "updateClientAlias clone alias cas = (cas, Ok ())" "map_get (alias2path cas) (al_Alias alias) = None"
      "length (GetElem (al_Path alias)) = 0"
  | (Deleted) ca where "map_get (alias2path cas) (al_Alias alias) = Some ca" "length (GetElem (al_Path alias)) = 0"
      "updateClientAlias clone alias cas =
        (cas\<lparr>alias2path := map_del (al_Alias alias) (alias2path cas), path2alias := map_del (ae_path ca) (path2alias cas)\<rparr>, Ok ())"
  | (Added) g ca where "al_Path alias = Some g" "ca = \<lparr>ae_name = al_Alias alias, ae_path = ToXPath (Some g), ae_gpath = Some g, ae_isServer = False\<rparr>"
      "HasPrefix (al_Alias alias) ''#''" "p_Elem g \<noteq> []"
      "map_get (path2alias cas) (ToXPath (Some g)) = None" "map_get (alias2path cas) (al_Alias alias) = None"
      "updateClientAlias clone alias cas =
        (cas\<lparr>path2alias := map_put (ae_path ca) ca (path2alias cas), alias2path := map_put (ae_name ca) ca (alias2path cas)\<rparr>, Ok ())"
proof -
  let ?n = "al_Alias alias" and ?g = "al_Path alias"
  consider (name) "?n = [] \<or> \<not> HasPrefix ?n ''#''"
    | (del) "?n \<noteq> []" "HasPrefix ?n ''#''" "length (GetElem ?g) = 0"
    | (add) "?n \<noteq> []" "HasPrefix ?n ''#''" "length (GetElem ?g) \<noteq> 0" by blast
  then show thesis
  proof cases
    case name
    then show ?thesis by (intro Refused) (auto simp: updateClientAlias_def Let_def)
  next
    case del
    then show ?thesis
      by (cases "map_get (alias2path cas) ?n") (rule Ignored Deleted; simp add: updateClientAlias_def)+
  next
    case add
    then obtain g where g: "?g = Some g" "p_Elem g \<noteq> []" by (cases ?g) auto
    show ?thesis
    proof (cases "ValidateGNMIPath clone [?g]")
      case (Inl x)
      with add g show ?thesis
        by (cases x) (auto intro!: Refused simp: updateClientAlias_def)
    next
      case (Inr q)
      show ?thesis
      proof (cases "map_get (path2alias cas) (ToXPath (Some g)) = None \<and> map_get (alias2path cas) ?n = None")
        case True
        with add g Inr show ?thesis by (intro Added) (auto simp: updateClientAlias_def Let_def)
      next
        case False
        with add g Inr show ?thesis
          by (intro Refused [of "Err (Tagged AlreadyExists TagInvalidAlias)"]) (auto simp: updateClientAlias_def Let_def)
      qed
    qed
  qed
qed

lemma updateClientAlias_wf:
  "alias_wf cas \<Longrightarrow> alias_wf (fst (updateClientAlias clone alias cas))"
  by (cases rule: updateClientAlias_cases [of clone "alias" cas])
    (auto intro: alias_wf_del alias_wf_new)

lemma updateClientAlias_client_wf:
  "alias_wf cas \<Longrightarrow> client_wf cas \<Longrightarrow> client_wf (fst (updateClientAlias clone alias cas))"
  by (cases rule: updateClientAlias_cases [of clone "alias" cas])
    (auto intro: client_wf_del client_wf_new)

lemma updateClientAliases_wf:
  "alias_wf cas \<Longrightarrow> alias_wf (fst (updateClientAliases clone aliases cas))"
  "alias_wf cas \<Longrightarrow> client_wf cas \<Longrightarrow> client_wf (fst (updateClientAliases clone aliases cas))"
proof -
  have "alias_wf cas \<longrightarrow> alias_wf (fst (updateClientAliases_loop clone aliases cas names))
      \<and> (client_wf cas \<longrightarrow> client_wf (fst (updateClientAliases_loop clone aliases cas names)))" for names
  proof (induction clone aliases cas names rule: updateClientAliases_loop.induct)
    case (2 clone msg aliases cas names)
    then show ?case
      using updateClientAlias_wf [of cas clone msg] updateClientAlias_client_wf [of cas clone msg]
      by (auto split: prod.splits sum.splits)
  qed simp
  then show "alias_wf cas \<Longrightarrow> alias_wf (fst (updateClientAliases clone aliases cas))"
    "alias_wf cas \<Longrightarrow> client_wf cas \<Longrightarrow> client_wf (fst (updateClientAliases clone aliases cas))"
    by (auto simp: updateClientAliases_def)
qed

section \<open>Runs\<close>

datatype alias_op =
    ServerAliases "(string, string) gomap" bool
  | ClientAliases "alias_msg list"

fun alias_exec :: "(gpath \<Rightarrow> gpath) \<Rightarrow> alias_op \<Rightarrow> clientAliases \<Rightarrow> clientAliases" where
  "alias_exec clone (ServerAliases sa add) cas =
     (case updateServerAliases sa add cas of Inl e \<Rightarrow> cas | Inr (cas', names) \<Rightarrow> cas')"
| "alias_exec clone (ClientAliases aliases) cas = fst (updateClientAliases clone aliases cas)"

definition alias_run :: "(gpath \<Rightarrow> gpath) \<Rightarrow> alias_op list \<Rightarrow> clientAliases" where
  "alias_run clone ops = fold (alias_exec clone) ops newClientAliases"

definition client_op :: "alias_op \<Rightarrow> bool" where
  "client_op opn = (case opn of ClientAliases _ \<Rightarrow> True | ServerAliases _ _ \<Rightarrow> False)"

lemma alias_exec_wf: "alias_wf cas \<Longrightarrow> alias_wf (alias_exec clone opn cas)"
  by (cases opn) (auto intro: updateClientAliases_wf dest: alias_wf_updateServer split: sum.splits)

lemma alias_run_wf: "alias_wf (alias_run clone ops)"
proof -
  have "alias_wf cas \<Longrightarrow> alias_wf (fold (alias_exec clone) ops cas)" for cas
    by (induction ops arbitrary: cas) (auto intro: alias_exec_wf)
  then show ?thesis by (simp add: alias_run_def alias_wf_init)
qed

lemma alias_run_client_wf:
  assumes "list_all client_op ops"
  shows "client_wf (alias_run clone ops)"
proof -
  have "alias_wf cas \<and> client_wf cas \<Longrightarrow> list_all client_op ops \<Longrightarrow> client_wf (fold (alias_exec clone) ops cas)" for cas
  proof (induction ops arbitrary: cas)
    case (Cons opn ops)
    then show ?case
      by (cases opn) (auto simp: client_op_def intro: updateClientAliases_wf)
  qed simp
  then show ?thesis using assms by (simp add: alias_run_def alias_wf_init)
qed

section \<open>Properties\<close>

text \<open>C22: After any sequence of updates by server and client, the alias that \<open>ToAlias\<close> gives for a path
  starts with \<open>#\<close> and \<open>ToPath\<close> turns it back into that path.\<close>

theorem alias_roundtrip:
  assumes "map_get (path2alias (alias_run clone ops)) p = Some ca"
  shows "(ToAlias (alias_run clone ops) (SPath p) False :: (serr, unit pathval) result) = Ok (SPath (ae_name ca))
    \<and> HasPrefix (ae_name ca) ''#''
    \<and> (ToPath clone (alias_run clone ops) (SPath (ae_name ca)) False :: (serr, unit pathval) result) = Ok (SPath p)"
  using alias_wf_path [OF alias_run_wf assms] alias_wf_name [OF alias_run_wf] assms
  by (auto simp: ToAlias_def ToPath_def)

definition sampleAlias :: alias_msg where
  "sampleAlias = \<lparr>al_Path = Some (empty_gpath\<lparr>p_Elem := [mkElem ''a'' [], mkElem ''b'' [(''k'', ''1'')]]\<rparr>), al_Alias = ''#x''\<rparr>"

lemma sampleAlias_run:
  "alias_run id [ClientAliases [sampleAlias]] =
     (let ca = \<lparr>ae_name = ''#x'', ae_path = ''/a/b[k=1]'', ae_gpath = al_Path sampleAlias, ae_isServer = False\<rparr>
      in \<lparr>alias2path = [(''#x'', ca)], path2alias = [(''/a/b[k=1]'', ca)], useServerAliases = False\<rparr>)"
  by (simp add: alias_run_def newClientAliases_def updateClientAliases_def updateClientAlias_def sampleAlias_def
      HasPrefix_def ValidateGNMIPath_def deprecatedPath_def ToXPath_def elemXPath_def mkElem_def empty_gpath_def Let_def)

theorem alias_roundtrip_witness:
  "(ToPath id (alias_run id [ClientAliases [sampleAlias]]) (SPath ''#x'') False :: (serr, unit pathval) result)
   = Ok (SPath ''/a/b[k=1]'')"
  using alias_roundtrip [where clone = id and ops = "[ClientAliases [sampleAlias]]" and p = "''/a/b[k=1]''"]
  by (simp add: sampleAlias_run Let_def)

text \<open>With client-defined aliases only, a gNMI path whose printed form has an alias goes to a path of one
  element and back to a path with the same printed form, target and origin; every defined alias is
  found from its path.\<close>

lemma gnmi_alias_roundtrip:
  assumes "list_all client_op ops" "map_get (alias2path (alias_run clone ops)) n = Some ca"
    and "ToXPath (Some g) = ae_path ca"
  shows "(ToAlias (alias_run clone ops) (GPath (Some g)) False :: (serr, unit pathval) result)
      = Ok (GPath (Some (GNMIAliasPath n (p_Target g) (p_Origin g))))
    \<and> (\<exists>g'. (ToPath clone (alias_run clone ops) (GPath (Some (GNMIAliasPath n (p_Target g) (p_Origin g)))) False
            :: (serr, unit pathval) result) = Ok (GPath (Some g'))
         \<and> ToXPath (Some g') = ToXPath (Some g) \<and> p_Target g' = p_Target g \<and> p_Origin g' = p_Origin g)"
proof -
  let ?cas = "alias_run clone ops"
  have n: "ae_name ca = n" "HasPrefix n ''#''" using alias_wf_name [OF alias_run_wf assms(2)] by auto
  obtain q where q: "ae_gpath ca = Some q" "ae_path ca = ToXPath (Some q)" "map_get (path2alias ?cas) (ae_path ca) = Some ca"
    using alias_run_client_wf [OF assms(1), of clone] assms(2) unfolding client_wf_def by fastforce
  have x: "ToXPath (Some (r\<lparr>p_Elem := p_Elem q\<rparr>)) = ToXPath (Some q)" for r by (simp add: ToXPath_def)
  show ?thesis
    using n q x assms(2,3)
    by (simp add: ToAlias_def ToPath_def GNMIAliasPath_def UpdateGNMIPathElem_def mkElem_def Let_def)
qed

lemma gnmi_alias_roundtrip_witness:
  "(ToAlias (alias_run id [ClientAliases [sampleAlias]]) (GPath (Some (empty_gpath\<lparr>p_Elem := [mkElem ''a'' [], mkElem ''b'' [(''k'', ''1'')]], p_Target := ''t''\<rparr>))) False
     :: (serr, unit pathval) result) = Ok (GPath (Some (GNMIAliasPath ''#x'' ''t'' [])))"
proof -
  let ?ca = "\<lparr>ae_name = ''#x'', ae_path = ''/a/b[k=1]'', ae_gpath = al_Path sampleAlias, ae_isServer = False\<rparr>"
  let ?g = "empty_gpath\<lparr>p_Elem := [mkElem ''a'' [], mkElem ''b'' [(''k'', ''1'')]], p_Target := ''t''\<rparr>"
  have "map_get (alias2path (alias_run id [ClientAliases [sampleAlias]])) ''#x'' = Some ?ca"
    by (simp add: sampleAlias_run Let_def)
  moreover have "ToXPath (Some ?g) = ae_path ?ca"
    by (simp add: ToXPath_def elemXPath_def mkElem_def empty_gpath_def)
  ultimately show ?thesis
    using gnmi_alias_roundtrip [of "[ClientAliases [sampleAlias]]" id "''#x''" ?ca ?g]
    by (simp add: client_op_def empty_gpath_def)
qed

text \<open>Two server aliases for one path: both names translate to the path, but removing either of them,
  even the one that \<open>ToAlias\<close> does not use, leaves the path without an alias while the other name is
  still defined.\<close>

lemma server_aliases_share_path:
  assumes "m \<noteq> n" "HasPrefix m ''#''" "HasPrefix n ''#''" "ToGNMIPath p = Ok g"
  shows "\<exists>cas. updateServerAliases [(m, p), (n, p)] True newClientAliases = Ok (cas, [m, n])
    \<and> (ToAlias cas (SPath p) False :: (serr, unit pathval) result) = Ok (SPath n)
    \<and> (\<exists>cas'. updateServerAliases [(m, p)] False cas = Ok (cas', [m])
         \<and> (ToAlias cas' (SPath p) False :: (serr, unit pathval) result) = Ok (SPath p)
         \<and> (ToPath id cas' (SPath n) False :: (serr, unit pathval) result) = Ok (SPath p))"
  using assms
  by (auto simp: updateServerAliases_def serverAlias_def newClientAliases_def ToAlias_def ToPath_def Let_def)

lemma server_aliases_share_path_witness:
  "\<exists>cas. updateServerAliases [(''#m'', ''/a''), (''#n'', ''/a'')] True newClientAliases = Ok (cas, [''#m'', ''#n''])"
proof -
  have "ToGNMIPath ''/a'' = Ok (empty_gpath\<lparr>p_Elem := [mkElem ''a'' []]\<rparr>)"
    using ToGNMIPath_rooted [of "[mkElem ''a'' []]"]
    by (simp add: plain_elem_def mkElem_def idRe_def id_first_def elemXPath_def plain_keys_def)
  then show ?thesis
    using server_aliases_share_path [of "''#m''" "''#n''" "''/a''"] by (auto simp: HasPrefix_def)
qed

end
