(* ===== verification/Telemetry.thy ===== *)
theory Telemetry
  imports DataTree Aliases
begin

text \<open>
  The telemetry control block \<open>teleCtrl\<close> of \<open>gnmi/server/subscribe.go\<close>: which subscriptions a data path
  concerns, and the events collected for them between \<open>ChangeStarted\<close> and \<open>ChangeCompleted\<close>. Every
  operation holds the block's mutex throughout.
\<close>

section \<open>The trie\<close>

text \<open>
  \<open>gtrie.Trie\<close>, a trie from strings to values: \<open>All(prefix)\<close> and \<open>FindAll(key)\<close> return maps of the keys
  found to their values.
\<close>

record ('t, 'v) trieOps =
  tNew :: 't
  tFind :: "'t \<Rightarrow> string \<Rightarrow> 'v option"
  tAdd :: "string \<Rightarrow> 'v \<Rightarrow> 't \<Rightarrow> 't"
  tRemove :: "string \<Rightarrow> 't \<Rightarrow> 't"
  tAll :: "'t \<Rightarrow> string \<Rightarrow> (string, 'v) gomap"
  tFindAll :: "'t \<Rightarrow> string \<Rightarrow> (string, 'v) gomap"
  tPrefixSearch :: "'t \<Rightarrow> string \<Rightarrow> string list"
  tSize :: "'t \<Rightarrow> nat"

definition trie_laws :: "('t, 'v) trieOps \<Rightarrow> bool" where
  "trie_laws ops \<longleftrightarrow>
     (\<forall>k. tFind ops (tNew ops) k = None) \<and>
     (\<forall>t k v k'. tFind ops (tAdd ops k v t) k' = (if k' = k then Some v else tFind ops t k')) \<and>
     (\<forall>t k k'. tFind ops (tRemove ops k t) k' = (if k' = k then None else tFind ops t k')) \<and>
     (\<forall>t k v. map_ok (tAll ops t []) \<and> ((k, v) \<in> set (tAll ops t []) \<longleftrightarrow> tFind ops t k = Some v)) \<and>
     (\<forall>t p k v. (k, v) \<in> set (tFindAll ops t p) \<longrightarrow> tFind ops t k = Some v)"

section \<open>State\<close>

type_synonym TeleID = "64 word"

text \<open>A \<open>*Subscription\<close> is known by its ID; \<open>'r\<close> is the type of the changed root.\<close>

record 'r teleEvent =
  ev_sub :: TeleID
  ev_updatedroot :: "'r option"
  ev_updatedPath :: "string list"
  ev_deletedPath :: "string list"

type_synonym subscribers = "(TeleID, TeleID) gomap"

record ('t, 'r) teleCtrl =
  lookup :: 't
  ready :: "(TeleID, 'r teleEvent) gomap"

definition newTeleCtrl :: "('t, subscribers) trieOps \<Rightarrow> ('t, 'r) teleCtrl" where
  "newTeleCtrl ops = \<lparr>lookup = tNew ops, ready = []\<rparr>"

section \<open>Registration\<close>

text \<open>
  The map of subscribers that \<open>Find\<close> returns is the one in the trie, so writing to it is the same as
  adding the changed map under that key.
\<close>

definition subscribe :: "('t, subscribers) trieOps \<Rightarrow> TeleID \<Rightarrow> string \<Rightarrow> 't \<Rightarrow> 't" where
  "subscribe ops sub p t =
     (case tFind ops t p of
        Some subscriber \<Rightarrow> tAdd ops p (map_put sub sub subscriber) t
      | None \<Rightarrow> tAdd ops p [(sub, sub)] t)"

fun register_loop ::
    "('t, subscribers) trieOps \<Rightarrow> (gpath \<Rightarrow> gpath) \<Rightarrow> ydbTypes \<Rightarrow> schemaModel \<Rightarrow> TeleID \<Rightarrow> gpath option
     \<Rightarrow> gpath option list \<Rightarrow> 't \<Rightarrow> (serr, 't) result" where
  "register_loop ops clone y m sub prefix [] t = Ok t"
| "register_loop ops clone y m sub prefix (path # paths) t =
     (case GNMIFullPath clone prefix path of
        Inl e \<Rightarrow> Inl e
      | Inr fullpath \<Rightarrow>
          register_loop ops clone y m sub prefix paths
            (fold (subscribe ops sub) (fst (FindAllPaths y m fullpath)) t))"

definition register ::
    "('t, subscribers) trieOps \<Rightarrow> (gpath \<Rightarrow> gpath) \<Rightarrow> ydbTypes \<Rightarrow> schemaModel \<Rightarrow> TeleID \<Rightarrow> gpath option
     \<Rightarrow> gpath option list \<Rightarrow> ('t, 'r) teleCtrl \<Rightarrow> (serr, ('t, 'r) teleCtrl) result" where
  "register ops clone y m sub prefix paths tcb =
     (case register_loop ops clone y m sub prefix paths (lookup tcb) of
        Inl e \<Rightarrow> Inl e
      | Inr t \<Rightarrow> Ok (tcb\<lparr>lookup := t\<rparr>))"

definition unsubscribe :: "('t, subscribers) trieOps \<Rightarrow> TeleID \<Rightarrow> string \<times> subscribers \<Rightarrow> 't \<Rightarrow> 't" where
  "unsubscribe ops sub entry t =
     (case entry of (p, subscriber) \<Rightarrow>
        if map_get subscriber sub \<noteq> None then
          (let subscriber' = map_del sub subscriber in
           if length subscriber' = 0 then tRemove ops p t else tAdd ops p subscriber' t)
        else t)"

definition unregister :: "('t, subscribers) trieOps \<Rightarrow> TeleID \<Rightarrow> ('t, 'r) teleCtrl \<Rightarrow> ('t, 'r) teleCtrl" where
  "unregister ops sub tcb =
     tcb\<lparr>lookup := fold (unsubscribe ops sub) (tAll ops (lookup tcb) []) (lookup tcb)\<rparr>"

section \<open>Events\<close>

definition ChangeStarted :: "('t, 'r) teleCtrl \<Rightarrow> ('t, 'r) teleCtrl" where
  "ChangeStarted tcb = tcb\<lparr>ready := []\<rparr>"

text \<open>The event of one subscriber; the second result tells whether the function goes on.\<close>

definition addEvent ::
    "char \<Rightarrow> string \<Rightarrow> TeleID \<Rightarrow> (TeleID, 'r teleEvent) gomap \<Rightarrow> (TeleID, 'r teleEvent) gomap \<times> bool" where
  "addEvent opc datapath sub rdy =
     (let event = (case map_get rdy sub of
            Some ev \<Rightarrow> ev
          | None \<Rightarrow> \<lparr>ev_sub = sub, ev_updatedroot = None, ev_updatedPath = [], ev_deletedPath = []\<rparr>)
      in if opc = CHR ''C'' then
           (map_put sub (event\<lparr>ev_updatedPath := ev_updatedPath event @ [datapath]\<rparr>) rdy, True)
         else if opc = CHR ''R'' then
           (map_put sub (event\<lparr>ev_updatedPath := ev_updatedPath event @ [datapath],
                              ev_deletedPath := ev_deletedPath event @ [datapath]\<rparr>) rdy, True)
         else if opc = CHR ''D'' then
           (map_put sub (event\<lparr>ev_deletedPath := ev_deletedPath event @ [datapath]\<rparr>) rdy, True)
         else (map_put sub event rdy, False))"

fun addEvents ::
    "char \<Rightarrow> string \<Rightarrow> TeleID list \<Rightarrow> (TeleID, 'r teleEvent) gomap \<Rightarrow> (TeleID, 'r teleEvent) gomap" where
  "addEvents opc datapath [] rdy = rdy"
| "addEvents opc datapath (sub # subs) rdy =
     (case addEvent opc datapath sub rdy of
        (rdy', goon) \<Rightarrow> if goon then addEvents opc datapath subs rdy' else rdy')"

text \<open>The subscribers of all groups that \<open>FindAll\<close> returns, in the order of the two loops.\<close>

definition subscribersOf :: "('t, subscribers) trieOps \<Rightarrow> 't \<Rightarrow> string \<Rightarrow> TeleID list" where
  "subscribersOf ops t searchpath = concat (map (\<lambda>g. map snd (snd g)) (tFindAll ops t searchpath))"

definition updateTeleEvent ::
    "('t, subscribers) trieOps \<Rightarrow> char \<Rightarrow> string \<Rightarrow> string \<Rightarrow> ('t, 'r) teleCtrl \<Rightarrow> ('t, 'r) teleCtrl" where
  "updateTeleEvent ops opc datapath searchpath tcb =
     tcb\<lparr>ready := addEvents opc datapath (subscribersOf ops (lookup tcb) searchpath) (ready tcb)\<rparr>"

text \<open>\<open>ChangeCreated\<close>, \<open>ChangeReplaced\<close> and \<open>ChangeDeleted\<close> differ in the operation only.\<close>

definition change ::
    "('t, subscribers) trieOps \<Rightarrow> char \<Rightarrow> string \<Rightarrow> ('t, 'r) teleCtrl \<Rightarrow> (serr, ('t, 'r) teleCtrl) result" where
  "change ops opc datapath tcb =
     (case ToGNMIPath datapath of
        Inl (Panic p) \<Rightarrow> Panics p
      | Inl (Err e) \<Rightarrow> Ok tcb
      | Inr gpath \<Rightarrow>
          (let tcb1 = updateTeleEvent ops opc datapath datapath tcb in
           Ok (if \<not> IsSchemaPath (Some gpath)
               then updateTeleEvent ops opc datapath (PathElemToXPATH (p_Elem gpath) True) tcb1 else tcb1)))"

definition ChangeCreated where "ChangeCreated ops datapath tcb = change ops CHR ''C'' datapath tcb"
definition ChangeReplaced where "ChangeReplaced ops datapath tcb = change ops CHR ''R'' datapath tcb"
definition ChangeDeleted where "ChangeDeleted ops datapath tcb = change ops CHR ''D'' datapath tcb"

text \<open>
  \<open>ChangeCompleted\<close> sends each event to the event queue of its subscription, a channel that holds 64
  events. A full queue blocks the sender, which holds the mutex; a closed one makes it panic. The
  subscription that \<open>event.sub\<close> points to has a queue unless the pointer's \<open>eventque\<close> is nil.
\<close>

record 'a chan =
  ch_cap :: nat
  ch_buf :: "'a list"
  ch_closed :: bool

datatype 'a completion = Completed 'a | BlockedSending 'a TeleID | SendPanics panic

fun complete_loop ::
    "'r \<Rightarrow> (TeleID, 'r teleEvent) gomap \<Rightarrow> (TeleID, 'r teleEvent chan) gomap
     \<Rightarrow> ((TeleID, 'r teleEvent) gomap \<times> (TeleID, 'r teleEvent chan) gomap) completion" where
  "complete_loop changes [] qs = Completed ([], qs)"
| "complete_loop changes ((telesubid, event) # rdy) qs =
     (case map_get qs (ev_sub event) of
        None \<Rightarrow> complete_loop changes rdy qs
      | Some q \<Rightarrow>
          (let event' = event\<lparr>ev_updatedroot := Some changes\<rparr> in
           if ch_closed q then SendPanics SendOnClosedChannel
           else if length (ch_buf q) \<ge> ch_cap q then BlockedSending ((telesubid, event') # rdy, qs) telesubid
           else complete_loop changes rdy (map_put (ev_sub event) (q\<lparr>ch_buf := ch_buf q @ [event']\<rparr>) qs)))"

definition ChangeCompleted ::
    "'r \<Rightarrow> (TeleID, 'r teleEvent chan) gomap \<Rightarrow> ('t, 'r) teleCtrl
     \<Rightarrow> (('t, 'r) teleCtrl \<times> (TeleID, 'r teleEvent chan) gomap) completion" where
  "ChangeCompleted changes qs tcb =
     (case complete_loop changes (ready tcb) qs of
        Completed (rdy, qs') \<Rightarrow> Completed (tcb\<lparr>ready := rdy\<rparr>, qs')
      | BlockedSending (rdy, qs') i \<Rightarrow> BlockedSending (tcb\<lparr>ready := rdy\<rparr>, qs') i
      | SendPanics p \<Rightarrow> SendPanics p)"

section \<open>What a round of changes collects\<close>

datatype teleChange = Created string | Replaced string | Deleted string

fun applyChange ::
    "('t, subscribers) trieOps \<Rightarrow> teleChange \<Rightarrow> ('t, 'r) teleCtrl \<Rightarrow> (serr, ('t, 'r) teleCtrl) result" where
  "applyChange ops (Created p) tcb = ChangeCreated ops p tcb"
| "applyChange ops (Replaced p) tcb = ChangeReplaced ops p tcb"
| "applyChange ops (Deleted p) tcb = ChangeDeleted ops p tcb"

fun applyChanges ::
    "('t, subscribers) trieOps \<Rightarrow> teleChange list \<Rightarrow> ('t, 'r) teleCtrl \<Rightarrow> (serr, ('t, 'r) teleCtrl) result" where
  "applyChanges ops [] tcb = Ok tcb"
| "applyChanges ops (c # cs) tcb =
     (case applyChange ops c tcb of Inl e \<Rightarrow> Inl e | Inr tcb' \<Rightarrow> applyChanges ops cs tcb')"

definition updatedPaths :: "(TeleID, 'r teleEvent) gomap \<Rightarrow> TeleID \<Rightarrow> string list" where
  "updatedPaths rdy i = (case map_get rdy i of None \<Rightarrow> [] | Some ev \<Rightarrow> ev_updatedPath ev)"

definition deletedPaths :: "(TeleID, 'r teleEvent) gomap \<Rightarrow> TeleID \<Rightarrow> string list" where
  "deletedPaths rdy i = (case map_get rdy i of None \<Rightarrow> [] | Some ev \<Rightarrow> ev_deletedPath ev)"

text \<open>The texts a data path is searched by, and how often they lead to a subscription.\<close>

definition searchPaths :: "string \<Rightarrow> string list" where
  "searchPaths datapath =
     (case ToGNMIPath datapath of
        Inl _ \<Rightarrow> []
      | Inr g \<Rightarrow> datapath # (if IsSchemaPath (Some g) then [] else [PathElemToXPATH (p_Elem g) True]))"

definition concerned :: "('t, subscribers) trieOps \<Rightarrow> 't \<Rightarrow> TeleID \<Rightarrow> string \<Rightarrow> nat" where
  "concerned ops t i datapath = count_list (concat (map (subscribersOf ops t) (searchPaths datapath))) i"

fun updateOf :: "('t, subscribers) trieOps \<Rightarrow> 't \<Rightarrow> TeleID \<Rightarrow> teleChange \<Rightarrow> string list" where
  "updateOf ops t i (Created p) = replicate (concerned ops t i p) p"
| "updateOf ops t i (Replaced p) = replicate (concerned ops t i p) p"
| "updateOf ops t i (Deleted p) = []"

fun deleteOf :: "('t, subscribers) trieOps \<Rightarrow> 't \<Rightarrow> TeleID \<Rightarrow> teleChange \<Rightarrow> string list" where
  "deleteOf ops t i (Created p) = []"
| "deleteOf ops t i (Replaced p) = replicate (concerned ops t i p) p"
| "deleteOf ops t i (Deleted p) = replicate (concerned ops t i p) p"

lemma replicate_snoc: "replicate n p @ [p] = p # replicate n p"
  by (simp add: replicate_append_same)

lemma addEvents_paths:
  assumes "opc \<in> {CHR ''C'', CHR ''R'', CHR ''D''}"
  shows "updatedPaths (addEvents opc p subs rdy) i =
      updatedPaths rdy i @ (if opc = CHR ''D'' then [] else replicate (count_list subs i) p)
    \<and> deletedPaths (addEvents opc p subs rdy) i =
      deletedPaths rdy i @ (if opc = CHR ''C'' then [] else replicate (count_list subs i) p)"
  using assms
proof (induction subs arbitrary: rdy)
  case (Cons sub subs)
  have one: "updatedPaths (fst (addEvent opc p sub rdy)) i =
        updatedPaths rdy i @ (if i = sub \<and> opc \<noteq> CHR ''D'' then [p] else [])"
      "deletedPaths (fst (addEvent opc p sub rdy)) i =
        deletedPaths rdy i @ (if i = sub \<and> opc \<noteq> CHR ''C'' then [p] else [])"
      "snd (addEvent opc p sub rdy)"
    using Cons.prems
    by (auto simp: addEvent_def Let_def updatedPaths_def deletedPaths_def gomap_simps split: option.splits)
  then show ?case
    using Cons by (cases "addEvent opc p sub rdy") auto
qed simp

lemma change_paths:
  assumes "opc \<in> {CHR ''C'', CHR ''R'', CHR ''D''}" "change ops opc p tcb = Ok tcb'"
  shows "lookup tcb' = lookup tcb
    \<and> updatedPaths (ready tcb') i = updatedPaths (ready tcb) i
        @ (if opc = CHR ''D'' then [] else replicate (concerned ops (lookup tcb) i p) p)
    \<and> deletedPaths (ready tcb') i = deletedPaths (ready tcb) i
        @ (if opc = CHR ''C'' then [] else replicate (concerned ops (lookup tcb) i p) p)"
proof (cases "ToGNMIPath p")
  case (Inl e)
  with assms(2) have "tcb' = tcb" by (auto simp: change_def split: exn.splits)
  with Inl show ?thesis by (simp add: concerned_def searchPaths_def)
next
  case (Inr g)
  with assms show ?thesis
    by (auto simp: change_def updateTeleEvent_def Let_def addEvents_paths concerned_def searchPaths_def
        replicate_add count_list_append split: if_splits)
qed

lemma change_total: "\<exists>tcb'. change ops opc p tcb = Ok tcb'"
  using ToGNMIPath_total [of p] by (auto simp: change_def Let_def split: sum.splits exn.splits)

lemma applyChange_paths:
  "\<exists>tcb'. applyChange ops c tcb = Ok tcb' \<and> lookup tcb' = lookup tcb
    \<and> (\<forall>i. updatedPaths (ready tcb') i = updatedPaths (ready tcb) i @ updateOf ops (lookup tcb) i c
         \<and> deletedPaths (ready tcb') i = deletedPaths (ready tcb) i @ deleteOf ops (lookup tcb) i c)"
proof -
  have "\<exists>tcb'. change ops opc p tcb = Ok tcb' \<and> lookup tcb' = lookup tcb
      \<and> (\<forall>i. updatedPaths (ready tcb') i = updatedPaths (ready tcb) i
            @ (if opc = CHR ''D'' then [] else replicate (concerned ops (lookup tcb) i p) p)
         \<and> deletedPaths (ready tcb') i = deletedPaths (ready tcb) i
            @ (if opc = CHR ''C'' then [] else replicate (concerned ops (lookup tcb) i p) p))"
    if "opc \<in> {CHR ''C'', CHR ''R'', CHR ''D''}" for opc p
    using change_total [of ops opc p tcb] change_paths [OF that] by metis
  from this [of "CHR ''C''"] this [of "CHR ''R''"] this [of "CHR ''D''"] show ?thesis
    by (cases c) (simp_all add: ChangeCreated_def ChangeReplaced_def ChangeDeleted_def)
qed

lemma applyChanges_paths:
  "\<exists>tcb'. applyChanges ops cs tcb = Ok tcb' \<and> lookup tcb' = lookup tcb
    \<and> (\<forall>i. updatedPaths (ready tcb') i = updatedPaths (ready tcb) i @ concat (map (updateOf ops (lookup tcb) i) cs)
         \<and> deletedPaths (ready tcb') i = deletedPaths (ready tcb) i @ concat (map (deleteOf ops (lookup tcb) i) cs))"
proof (induction cs arbitrary: tcb)
  case (Cons c cs)
  from applyChange_paths [of ops c tcb] obtain tcb1 where 1: "applyChange ops c tcb = Ok tcb1" "lookup tcb1 = lookup tcb"
    "\<forall>i. updatedPaths (ready tcb1) i = updatedPaths (ready tcb) i @ updateOf ops (lookup tcb) i c
         \<and> deletedPaths (ready tcb1) i = deletedPaths (ready tcb) i @ deleteOf ops (lookup tcb) i c" by blast
  from Cons.IH [of tcb1] 1 show ?case by auto
qed simp

section \<open>Registration and its end\<close>

text \<open>Groups of subscribers are never empty and map each ID to itself.\<close>

definition groups_ok :: "('t, subscribers) trieOps \<Rightarrow> 't \<Rightarrow> bool" where
  "groups_ok ops t =
     (\<forall>k g. tFind ops t k = Some g \<longrightarrow> map_ok g \<and> g \<noteq> [] \<and> (\<forall>a b. map_get g a = Some b \<longrightarrow> a = b))"

definition inGroup :: "('t, subscribers) trieOps \<Rightarrow> 't \<Rightarrow> string \<Rightarrow> TeleID \<Rightarrow> bool" where
  "inGroup ops t k i = (case tFind ops t k of None \<Rightarrow> False | Some g \<Rightarrow> map_get g i \<noteq> None)"

lemma map_del_not_nil: "map_get g a \<noteq> None \<Longrightarrow> a \<noteq> i \<Longrightarrow> map_del i g \<noteq> []"
  by (induction g) (auto split: if_splits)

lemma map_del_nil: "map_del sub g = [] \<Longrightarrow> i \<noteq> sub \<Longrightarrow> map_get g i = None"
  using map_del_not_nil by metis

lemma map_ok_singleton [simp]: "map_ok [(k, v)]"
  by (simp add: map_ok_def)

lemma subscribe_find:
  assumes "trie_laws ops"
  shows "inGroup ops (subscribe ops sub p t) k i \<longleftrightarrow> inGroup ops t k i \<or> (k = p \<and> i = sub)"
    "groups_ok ops t \<Longrightarrow> groups_ok ops (subscribe ops sub p t)"
proof -
  have add: "\<And>t k v k'. tFind ops (tAdd ops k v t) k' = (if k' = k then Some v else tFind ops t k')"
    using assms by (simp add: trie_laws_def)
  show "inGroup ops (subscribe ops sub p t) k i \<longleftrightarrow> inGroup ops t k i \<or> (k = p \<and> i = sub)"
    by (auto simp: inGroup_def subscribe_def add gomap_simps split: option.splits)
  show "groups_ok ops (subscribe ops sub p t)" if "groups_ok ops t"
    using that unfolding groups_ok_def subscribe_def
    by (cases "tFind ops t p") (auto simp: add gomap_simps split: if_splits)
qed

lemma subscribe_fold:
  assumes "trie_laws ops"
  shows "inGroup ops (fold (subscribe ops sub) ps t) k i \<longleftrightarrow> inGroup ops t k i \<or> (k \<in> set ps \<and> i = sub)"
    "groups_ok ops t \<Longrightarrow> groups_ok ops (fold (subscribe ops sub) ps t)"
  by (induction ps arbitrary: t) (auto simp: subscribe_find [OF assms])

definition targets :: "(gpath \<Rightarrow> gpath) \<Rightarrow> ydbTypes \<Rightarrow> schemaModel \<Rightarrow> gpath option \<Rightarrow> gpath option list \<Rightarrow> string set" where
  "targets clone y m prefix paths =
     {p. \<exists>path \<in> set paths. \<exists>full. GNMIFullPath clone prefix path = (Ok full :: (serr, gpath option) result)
            \<and> p \<in> set (fst (FindAllPaths y m full))}"

lemma register_loop_groups:
  assumes "trie_laws ops" "register_loop ops clone y m sub prefix paths t = Ok t'"
  shows "inGroup ops t' k i \<longleftrightarrow> inGroup ops t k i \<or> (k \<in> targets clone y m prefix paths \<and> i = sub)"
    and "groups_ok ops t \<Longrightarrow> groups_ok ops t'"
proof -
  have "(inGroup ops t' k i \<longleftrightarrow> inGroup ops t k i \<or> (k \<in> targets clone y m prefix paths \<and> i = sub))
      \<and> (groups_ok ops t \<longrightarrow> groups_ok ops t')"
    using assms(2)
  proof (induction paths arbitrary: t)
    case (Cons path paths)
    from Cons.prems obtain full where full: "GNMIFullPath clone prefix path = (Ok full :: (serr, gpath option) result)"
      "register_loop ops clone y m sub prefix paths (fold (subscribe ops sub) (fst (FindAllPaths y m full)) t) = Ok t'"
      by (auto split: sum.splits)
    have "targets clone y m prefix (path # paths) = set (fst (FindAllPaths y m full)) \<union> targets clone y m prefix paths"
      using full(1) by (auto simp: targets_def)
    with Cons.IH [OF full(2)] show ?case by (auto simp: subscribe_fold [OF assms(1)])
  qed (auto simp: targets_def)
  then show "inGroup ops t' k i \<longleftrightarrow> inGroup ops t k i \<or> (k \<in> targets clone y m prefix paths \<and> i = sub)"
    "groups_ok ops t \<Longrightarrow> groups_ok ops t'" by auto
qed

lemma unsubscribe_groups:
  assumes "trie_laws ops" "tFind ops t p = Some g"
  shows "inGroup ops (unsubscribe ops sub (p, g) t) k i \<longleftrightarrow> inGroup ops t k i \<and> \<not> (k = p \<and> i = sub)"
    and "k \<noteq> p \<Longrightarrow> tFind ops (unsubscribe ops sub (p, g) t) k = tFind ops t k"
    and "groups_ok ops t \<Longrightarrow> groups_ok ops (unsubscribe ops sub (p, g) t)"
proof -
  have add: "\<And>t k v k'. tFind ops (tAdd ops k v t) k' = (if k' = k then Some v else tFind ops t k')"
    and rem: "\<And>t k k'. tFind ops (tRemove ops k t) k' = (if k' = k then None else tFind ops t k')"
    using assms(1) by (simp_all add: trie_laws_def)
  show "inGroup ops (unsubscribe ops sub (p, g) t) k i \<longleftrightarrow> inGroup ops t k i \<and> \<not> (k = p \<and> i = sub)"
    using assms(2)
    by (auto dest: map_del_nil simp: inGroup_def unsubscribe_def add rem gomap_simps Let_def split: option.splits)
  show "tFind ops (unsubscribe ops sub (p, g) t) k = tFind ops t k" if "k \<noteq> p"
    using that by (simp add: unsubscribe_def add rem Let_def)
  show "groups_ok ops (unsubscribe ops sub (p, g) t)" if "groups_ok ops t"
    using that assms(2) unfolding groups_ok_def
    by (auto simp: unsubscribe_def add rem gomap_simps Let_def split: if_splits)
qed

lemma unsubscribe_fold:
  assumes "trie_laws ops" "map_ok l" "\<forall>(k, g) \<in> set l. tFind ops t k = Some g"
  shows "inGroup ops (fold (unsubscribe ops sub) l t) k i \<longleftrightarrow> inGroup ops t k i \<and> \<not> (k \<in> fst ` set l \<and> i = sub)"
    and "groups_ok ops t \<Longrightarrow> groups_ok ops (fold (unsubscribe ops sub) l t)"
proof -
  have "(inGroup ops (fold (unsubscribe ops sub) l t) k i \<longleftrightarrow> inGroup ops t k i \<and> \<not> (k \<in> fst ` set l \<and> i = sub))
      \<and> (groups_ok ops t \<longrightarrow> groups_ok ops (fold (unsubscribe ops sub) l t))"
    using assms(2,3)
  proof (induction l arbitrary: t)
    case (Cons e l)
    obtain p g where e: "e = (p, g)" by fastforce
    with Cons.prems have t: "tFind ops t p = Some g" and "map_ok l" and "\<And>k g. (k, g) \<in> set l \<Longrightarrow> k \<noteq> p"
      by (force simp: map_ok_def)+
    then have rest: "map_ok l" "\<forall>(k, g) \<in> set l. k \<noteq> p \<and> tFind ops t k = Some g"
      using Cons.prems by auto
    note u = unsubscribe_groups [OF assms(1) t, where sub = sub]
    have "\<forall>(k, g'') \<in> set l. tFind ops (unsubscribe ops sub (p, g) t) k = Some g''"
      using u(2) rest(2) by auto
    with Cons.IH [OF rest(1), of "unsubscribe ops sub (p, g) t"] show ?case
      using u(1,3) by (auto simp: e)
  qed simp
  then show "inGroup ops (fold (unsubscribe ops sub) l t) k i \<longleftrightarrow> inGroup ops t k i \<and> \<not> (k \<in> fst ` set l \<and> i = sub)"
    "groups_ok ops t \<Longrightarrow> groups_ok ops (fold (unsubscribe ops sub) l t)" by auto
qed


lemma unregister_groups:
  assumes "trie_laws ops" "groups_ok ops (lookup tcb)"
  shows "inGroup ops (lookup (unregister ops sub tcb)) k i \<longleftrightarrow> inGroup ops (lookup tcb) k i \<and> i \<noteq> sub"
    and "groups_ok ops (lookup (unregister ops sub tcb))"
proof -
  let ?l = "tAll ops (lookup tcb) []"
  have ok: "map_ok ?l" and all: "\<And>k v. (k, v) \<in> set ?l \<longleftrightarrow> tFind ops (lookup tcb) k = Some v"
    using assms(1) by (auto simp: trie_laws_def)
  then have l: "\<forall>(k, g) \<in> set ?l. tFind ops (lookup tcb) k = Some g" by auto
  have "inGroup ops (lookup tcb) k i \<Longrightarrow> k \<in> fst ` set ?l"
    by (auto simp: inGroup_def all [symmetric] intro: rev_image_eqI split: option.splits)
  then show "inGroup ops (lookup (unregister ops sub tcb)) k i \<longleftrightarrow> inGroup ops (lookup tcb) k i \<and> i \<noteq> sub"
    using unsubscribe_fold(1) [OF assms(1) ok l, of sub k i] by (auto simp: unregister_def)
  show "groups_ok ops (lookup (unregister ops sub tcb))"
    using unsubscribe_fold(2) [OF assms(1) ok l, of sub] assms(2) by (simp add: unregister_def)
qed

lemma not_in_group_not_concerned:
  assumes "trie_laws ops" "groups_ok ops t" "\<And>k. \<not> inGroup ops t k i"
  shows "concerned ops t i p = 0"
proof -
  have "i \<notin> set (subscribersOf ops t s)" for s
  proof
    assume "i \<in> set (subscribersOf ops t s)"
    then obtain k g a where kg: "(k, g) \<in> set (tFindAll ops t s)" and ai: "(a, i) \<in> set g"
      by (auto simp: subscribersOf_def)
    with assms(1) have find: "tFind ops t k = Some g" unfolding trie_laws_def by blast
    with assms(2) have "map_ok g" "\<And>a b. map_get g a = Some b \<Longrightarrow> a = b"
      by (auto simp: groups_ok_def)
    with ai have "map_get g i = Some i" by (metis map_get_in)
    with find assms(3) [of k] show False by (simp add: inGroup_def)
  qed
  then show ?thesis by (auto simp: concerned_def count_list_0_iff)
qed

lemma updateOf_unconcerned:
  "(\<And>p. concerned ops t i p = 0) \<Longrightarrow> updateOf ops t i c = [] \<and> deleteOf ops t i c = []"
  by (cases c) simp_all

section \<open>Sending the events\<close>

text \<open>A queue with room takes the event; the first full one stops the sender for good.\<close>

lemma complete_loop_room:
  assumes "map_ok rdy" "\<forall>(i, ev) \<in> set rdy. ev_sub ev = i"
    "\<forall>(i, ev) \<in> set rdy. \<forall>q. map_get qs i = Some q \<longrightarrow> \<not> ch_closed q \<and> length (ch_buf q) < ch_cap q"
  shows "\<exists>qs'. complete_loop r rdy qs = Completed ([], qs')
    \<and> (\<forall>i. map_get qs' i = (case map_get qs i of None \<Rightarrow> None
         | Some q \<Rightarrow> (case map_get rdy i of None \<Rightarrow> Some q
            | Some ev \<Rightarrow> Some (q\<lparr>ch_buf := ch_buf q @ [ev\<lparr>ev_updatedroot := Some r\<rparr>]\<rparr>))))"
  using assms
proof (induction rdy arbitrary: qs)
  case (Cons e rdy)
  obtain i ev where e: "e = (i, ev)" by fastforce
  from Cons.prems e have pre: "map_ok rdy" "\<forall>(i, ev) \<in> set rdy. ev_sub ev = i" "ev_sub ev = i"
    and fresh: "\<And>j w. (j, w) \<in> set rdy \<Longrightarrow> j \<noteq> i" by (force simp: map_ok_def)+
  then have none: "map_get rdy i = None" by (metis map_of_SomeD not_Some_eq)
  show ?case
  proof (cases "map_get qs i")
    case None
    from Cons.prems(3) e have "\<forall>(i, ev) \<in> set rdy. \<forall>q. map_get qs i = Some q \<longrightarrow> \<not> ch_closed q \<and> length (ch_buf q) < ch_cap q"
      by simp
    from Cons.IH [OF pre(1,2) this] None show ?thesis
      by (auto simp: e pre(3) split: option.split)
  next
    case (Some q)
    let ?q = "q\<lparr>ch_buf := ch_buf q @ [ev\<lparr>ev_updatedroot := Some r\<rparr>]\<rparr>"
    have room: "\<not> ch_closed q" "length (ch_buf q) < ch_cap q" using Cons.prems(3) Some e by auto
    have "\<forall>(j, w) \<in> set rdy. \<forall>p. map_get (map_put i ?q qs) j = Some p \<longrightarrow> \<not> ch_closed p \<and> length (ch_buf p) < ch_cap p"
      using Cons.prems(3) fresh by (auto simp: gomap_simps)
    from Cons.IH [OF pre(1,2) this] obtain qs' where qs': "complete_loop r rdy (map_put i ?q qs) = Completed ([], qs')"
      "\<And>j. map_get qs' j = (case map_get (map_put i ?q qs) j of None \<Rightarrow> None
         | Some q \<Rightarrow> (case map_get rdy j of None \<Rightarrow> Some q
            | Some ev \<Rightarrow> Some (q\<lparr>ch_buf := ch_buf q @ [ev\<lparr>ev_updatedroot := Some r\<rparr>]\<rparr>)))" by blast
    then show ?thesis using room Some none unfolding e by (auto simp: pre(3) gomap_simps Let_def split: option.split)
  qed
qed (simp split: option.splits)

text \<open>
  The events of a round belong to the subscriptions they are filed under, and each of them reports at
  least one path.
\<close>

definition ready_ok :: "(TeleID, 'r teleEvent) gomap \<Rightarrow> bool" where
  "ready_ok rdy = (map_ok rdy \<and> (\<forall>i ev. map_get rdy i = Some ev \<longrightarrow>
      ev_sub ev = i \<and> (ev_updatedPath ev \<noteq> [] \<or> ev_deletedPath ev \<noteq> [])))"

lemma addEvents_ready:
  "opc \<in> {CHR ''C'', CHR ''R'', CHR ''D''} \<Longrightarrow> ready_ok rdy \<Longrightarrow> ready_ok (addEvents opc p subs rdy)"
proof (induction subs arbitrary: rdy)
  case (Cons sub subs)
  have "ready_ok (map_put sub ev rdy)" if "ev_sub ev = sub" "ev_updatedPath ev \<noteq> [] \<or> ev_deletedPath ev \<noteq> []" for ev
    using that Cons.prems(2) by (auto simp: ready_ok_def gomap_simps)
  moreover have "\<And>ev. map_get rdy sub = Some ev \<Longrightarrow> ev_sub ev = sub"
    using Cons.prems(2) by (simp add: ready_ok_def)
  ultimately have "ready_ok (fst (addEvent opc p sub rdy))"
    using Cons.prems(1) by (auto simp: addEvent_def Let_def split: option.splits)
  with Cons show ?case by (cases "addEvent opc p sub rdy") auto
qed simp

lemma applyChanges_ready:
  "applyChanges ops cs tcb = Ok tcb' \<Longrightarrow> ready_ok (ready tcb) \<Longrightarrow> ready_ok (ready tcb')"
proof (induction cs arbitrary: tcb)
  case (Cons c cs)
  have "opc \<in> {CHR ''C'', CHR ''R'', CHR ''D''} \<Longrightarrow> change ops opc p tcb = Ok t \<Longrightarrow> ready_ok (ready t)" for opc p t
    using Cons.prems(2)
    by (auto simp: change_def updateTeleEvent_def Let_def addEvents_ready split: sum.splits exn.splits if_splits)
  then have "applyChange ops c tcb = Ok t \<Longrightarrow> ready_ok (ready t)" for t
    by (cases c) (auto simp: ChangeCreated_def ChangeReplaced_def ChangeDeleted_def)
  with Cons show ?case by (auto split: sum.splits)
qed simp

lemma complete_loop_full:
  assumes "\<forall>i q. map_get qs i = Some q \<longrightarrow> \<not> ch_closed q"
    "(i, ev) \<in> set rdy" "map_get qs (ev_sub ev) = Some q" "ch_cap q \<le> length (ch_buf q)"
  shows "\<exists>st j. complete_loop r rdy qs = BlockedSending st j"
  using assms
proof (induction rdy arbitrary: qs)
  case (Cons e rdy)
  obtain j w where e: "e = (j, w)" by fastforce
  show ?case
  proof (cases "map_get qs (ev_sub w)")
    case None
    with Cons e show ?thesis by auto
  next
    case (Some p)
    show ?thesis
    proof (cases "ch_cap p \<le> length (ch_buf p)")
      case True
      with Some Cons.prems(1) show ?thesis by (simp add: e Let_def)
    next
      case False
      with Some Cons.prems have other: "ev_sub ev \<noteq> ev_sub w" "(i, ev) \<in> set rdy" by (auto simp: e)
      let ?qs = "map_put (ev_sub w) (p\<lparr>ch_buf := ch_buf p @ [w\<lparr>ev_updatedroot := Some r\<rparr>]\<rparr>) qs"
      have "\<forall>i q. map_get ?qs i = Some q \<longrightarrow> \<not> ch_closed q" "map_get ?qs (ev_sub ev) = Some q"
        using Cons.prems(1,3) Some other by (auto simp: gomap_simps)
      from Cons.IH [OF this(1) other(2) this(2) Cons.prems(4)] Some False Cons.prems(1) show ?thesis
        by (simp add: e Let_def)
    qed
  qed
qed simp

section \<open>Properties\<close>

text \<open>The paths a round of changes reports to a subscription.\<close>

abbreviation updatesFor where "updatesFor ops t i cs \<equiv> concat (map (updateOf ops t i) cs)"
abbreviation deletesFor where "deletesFor ops t i cs \<equiv> concat (map (deleteOf ops t i) cs)"

lemma round_events:
  assumes "applyChanges ops cs (ChangeStarted tcb) = Ok tcb1"
  shows "ready_ok (ready tcb1)" "lookup tcb1 = lookup tcb"
    "updatedPaths (ready tcb1) i = updatesFor ops (lookup tcb) i cs"
    "deletedPaths (ready tcb1) i = deletesFor ops (lookup tcb) i cs"
proof -
  have "ready_ok (ready (ChangeStarted tcb))" by (simp add: ready_ok_def ChangeStarted_def)
  then show "ready_ok (ready tcb1)" by (rule applyChanges_ready [OF assms])
  show "lookup tcb1 = lookup tcb" "updatedPaths (ready tcb1) i = updatesFor ops (lookup tcb) i cs"
    "deletedPaths (ready tcb1) i = deletesFor ops (lookup tcb) i cs"
    using applyChanges_paths [of ops cs "ChangeStarted tcb"] assms
    by (auto simp: ChangeStarted_def updatedPaths_def deletedPaths_def)
qed

lemma round_delivers:
  assumes "\<forall>i q. map_get qs i = Some q \<longrightarrow> \<not> ch_closed q \<and> length (ch_buf q) < ch_cap q"
  shows "\<exists>tcb1 tcb2 qs'. applyChanges ops cs (ChangeStarted tcb) = Ok tcb1
    \<and> ChangeCompleted r qs tcb1 = Completed (tcb2, qs') \<and> ready tcb2 = [] \<and> lookup tcb2 = lookup tcb
    \<and> (\<forall>i q. map_get qs i = Some q \<longrightarrow> map_get qs' i = Some
         (if updatesFor ops (lookup tcb) i cs = [] \<and> deletesFor ops (lookup tcb) i cs = [] then q
          else q\<lparr>ch_buf := ch_buf q @ [\<lparr>ev_sub = i, ev_updatedroot = Some r,
                   ev_updatedPath = updatesFor ops (lookup tcb) i cs,
                   ev_deletedPath = deletesFor ops (lookup tcb) i cs\<rparr>]\<rparr>))"
proof -
  obtain tcb1 where tcb1: "applyChanges ops cs (ChangeStarted tcb) = Ok tcb1"
    using applyChanges_paths [of ops cs "ChangeStarted tcb"] by blast
  note ev = round_events [OF tcb1]
  have "map_ok (ready tcb1)" "\<forall>(i, ev) \<in> set (ready tcb1). ev_sub ev = i"
    using ev(1) by (auto simp: ready_ok_def map_get_in)
  from complete_loop_room [OF this, of qs r] assms obtain qs' where
    qs': "complete_loop r (ready tcb1) qs = Completed ([], qs')"
      "\<And>i. map_get qs' i = (case map_get qs i of None \<Rightarrow> None
         | Some q \<Rightarrow> (case map_get (ready tcb1) i of None \<Rightarrow> Some q
            | Some ev \<Rightarrow> Some (q\<lparr>ch_buf := ch_buf q @ [ev\<lparr>ev_updatedroot := Some r\<rparr>]\<rparr>)))" by auto
  have "map_get qs' i = Some
         (if updatesFor ops (lookup tcb) i cs = [] \<and> deletesFor ops (lookup tcb) i cs = [] then q
          else q\<lparr>ch_buf := ch_buf q @ [\<lparr>ev_sub = i, ev_updatedroot = Some r,
                   ev_updatedPath = updatesFor ops (lookup tcb) i cs,
                   ev_deletedPath = deletesFor ops (lookup tcb) i cs\<rparr>]\<rparr>)"
    if "map_get qs i = Some q" for i q
    using that ev(1) qs'(2) [of i] unfolding ev(3,4) [symmetric]
    by (auto simp: ready_ok_def updatedPaths_def deletedPaths_def split: option.splits)
  then show ?thesis
    using tcb1 qs'(1) ev(2) by (auto simp: ChangeCompleted_def)
qed

text \<open>C16: A round of changes, from \<open>ChangeStarted\<close> to \<open>ChangeCompleted\<close>, with room in the event queues: it
  never fails, every queue gets at most one event, and that event carries exactly the paths created or
  replaced and the paths deleted or replaced that concern the subscription, in their order; the round's
  events are gone afterwards and no registration changes.\<close>

theorem round_delivered:
  assumes "\<forall>i q. map_get qs i = Some q \<longrightarrow> \<not> ch_closed q \<and> length (ch_buf q) < ch_cap q"
  shows "\<exists>tcb1 tcb2 qs'. applyChanges ops cs (ChangeStarted tcb) = Ok tcb1
    \<and> ChangeCompleted r qs tcb1 = Completed (tcb2, qs') \<and> ready tcb2 = [] \<and> lookup tcb2 = lookup tcb
    \<and> (\<forall>i q. map_get qs i = Some q \<longrightarrow> map_get qs' i = Some
         (if updatesFor ops (lookup tcb) i cs = [] \<and> deletesFor ops (lookup tcb) i cs = [] then q
          else q\<lparr>ch_buf := ch_buf q @ [\<lparr>ev_sub = i, ev_updatedroot = Some r,
                   ev_updatedPath = updatesFor ops (lookup tcb) i cs,
                   ev_deletedPath = deletesFor ops (lookup tcb) i cs\<rparr>]\<rparr>))"
  using assms by (rule round_delivers)

text \<open>A trie as a list of bindings, for the concrete runs: \<open>FindAll\<close> returns the keys on the way to the key.\<close>

definition listTrie :: "((string, 'v) gomap, 'v) trieOps" where
  "listTrie = \<lparr>tNew = [], tFind = map_get, tAdd = map_put, tRemove = map_del,
     tAll = (\<lambda>t p. filter (\<lambda>kv. HasPrefix (fst kv) p) (AList.clearjunk t)),
     tFindAll = (\<lambda>t k. filter (\<lambda>kv. HasPrefix k (fst kv)) (AList.clearjunk t)),
     tPrefixSearch = (\<lambda>t p. filter (\<lambda>k. HasPrefix k p) (map fst (AList.clearjunk t))),
     tSize = (\<lambda>t. length (AList.clearjunk t))\<rparr>"

lemma listTrie_laws: "trie_laws listTrie"
  by (auto simp: trie_laws_def listTrie_def gomap_simps map_ok_def distinct_clearjunk HasPrefix_def
      map_of_eq_Some_iff [OF distinct_clearjunk] map_of_clearjunk
      simp flip: map_of_eq_Some_iff [OF distinct_clearjunk])

definition exQueue :: "nat \<Rightarrow> 'r teleEvent chan" where
  "exQueue n = \<lparr>ch_cap = n, ch_buf = [], ch_closed = False\<rparr>"

definition exCtrl :: "((string, subscribers) gomap, string) teleCtrl" where
  "exCtrl = \<lparr>lookup = [(''/a'', [(7, 7)]), (''/a/b'', [(7, 7), (9, 9)])], ready = []\<rparr>"

definition exChanges :: "teleChange list" where
  "exChanges = [Created ''/a'', Deleted ''/a/b'', Replaced ''/x'', Replaced ''/a/b'']"

lemma exCtrl_find: "subscribersOf listTrie (lookup exCtrl) ''/a'' = [7]"
  "subscribersOf listTrie (lookup exCtrl) ''/a/b'' = [7, 7, 9]"
  "subscribersOf listTrie (lookup exCtrl) ''/x'' = []"
  by (simp_all add: subscribersOf_def listTrie_def exCtrl_def HasPrefix_def)

lemma exSearch: "searchPaths ''/a'' = [''/a'']" "searchPaths ''/a/b'' = [''/a/b'']" "searchPaths ''/x'' = [''/x'']"
  by code_simp+

theorem round_delivered_witness:
  "\<exists>tcb1 tcb2 qs'. applyChanges listTrie exChanges (ChangeStarted exCtrl) = Ok tcb1
    \<and> ChangeCompleted ''root'' [(7, exQueue 64), (9, exQueue 64), (11, exQueue 64)] tcb1 = Completed (tcb2, qs')
    \<and> map_get qs' 7 = Some \<lparr>ch_cap = 64, ch_buf = [\<lparr>ev_sub = 7, ev_updatedroot = Some ''root'',
         ev_updatedPath = [''/a'', ''/a/b'', ''/a/b''], ev_deletedPath = [''/a/b'', ''/a/b'', ''/a/b'', ''/a/b'']\<rparr>], ch_closed = False\<rparr>
    \<and> map_get qs' 9 = Some \<lparr>ch_cap = 64, ch_buf = [\<lparr>ev_sub = 9, ev_updatedroot = Some ''root'',
         ev_updatedPath = [''/a/b''], ev_deletedPath = [''/a/b'', ''/a/b'']\<rparr>], ch_closed = False\<rparr>
    \<and> map_get qs' 11 = Some (exQueue 64)"
proof -
  let ?qs = "[(7, exQueue 64), (9, exQueue 64), (11, exQueue 64)] :: (TeleID, string teleEvent chan) gomap"
  have room: "\<forall>i q. map_get ?qs i = Some q \<longrightarrow> \<not> ch_closed q \<and> length (ch_buf q) < ch_cap q"
    by (auto simp: exQueue_def split: if_splits)
  have c: "updatesFor listTrie (lookup exCtrl) 7 exChanges = [''/a'', ''/a/b'', ''/a/b'']"
      "deletesFor listTrie (lookup exCtrl) 7 exChanges = [''/a/b'', ''/a/b'', ''/a/b'', ''/a/b'']"
      "updatesFor listTrie (lookup exCtrl) 9 exChanges = [''/a/b'']"
      "deletesFor listTrie (lookup exCtrl) 9 exChanges = [''/a/b'', ''/a/b'']"
      "updatesFor listTrie (lookup exCtrl) 11 exChanges = []"
      "deletesFor listTrie (lookup exCtrl) 11 exChanges = []"
    by (simp_all add: exChanges_def concerned_def exSearch exCtrl_find)
  have q: "map_get ?qs 7 = Some (exQueue 64)" "map_get ?qs 9 = Some (exQueue 64)" "map_get ?qs 11 = Some (exQueue 64)"
    by simp_all
  from round_delivered [OF room, of listTrie exChanges exCtrl "''root''"] obtain tcb1 tcb2 qs' where
    r: "applyChanges listTrie exChanges (ChangeStarted exCtrl) = Ok tcb1"
      "ChangeCompleted ''root'' ?qs tcb1 = Completed (tcb2, qs')"
      "\<And>i q. map_get ?qs i = Some q \<Longrightarrow> map_get qs' i = Some
         (if updatesFor listTrie (lookup exCtrl) i exChanges = [] \<and> deletesFor listTrie (lookup exCtrl) i exChanges = [] then q
          else q\<lparr>ch_buf := ch_buf q @ [\<lparr>ev_sub = i, ev_updatedroot = Some ''root'',
                   ev_updatedPath = updatesFor listTrie (lookup exCtrl) i exChanges,
                   ev_deletedPath = deletesFor listTrie (lookup exCtrl) i exChanges\<rparr>]\<rparr>)" by blast
  have "map_get qs' 7 = Some \<lparr>ch_cap = 64, ch_buf = [\<lparr>ev_sub = 7, ev_updatedroot = Some ''root'',
         ev_updatedPath = [''/a'', ''/a/b'', ''/a/b''], ev_deletedPath = [''/a/b'', ''/a/b'', ''/a/b'', ''/a/b'']\<rparr>], ch_closed = False\<rparr>"
    "map_get qs' 9 = Some \<lparr>ch_cap = 64, ch_buf = [\<lparr>ev_sub = 9, ev_updatedroot = Some ''root'',
         ev_updatedPath = [''/a/b''], ev_deletedPath = [''/a/b'', ''/a/b'']\<rparr>], ch_closed = False\<rparr>"
    "map_get qs' 11 = Some (exQueue 64)"
    using r(3) [OF q(1)] r(3) [OF q(2)] r(3) [OF q(3)] by (simp_all add: c) (simp_all add: exQueue_def)
  with r(1,2) show ?thesis by blast
qed

text \<open>C24: For a trie that behaves as documented: after \<open>register\<close> the subscription is found under every
  schema path of its paths, and no other membership changes; after \<open>unregister\<close> it is found under no path,
  no other membership changes, and no later round of changes has an event for it.\<close>

theorem register_then_unregister:
  assumes "trie_laws ops" "groups_ok ops (lookup tcb)"
    "register ops clone y m sub prefix paths tcb = Ok tcb1"
  shows "(\<forall>k i. inGroup ops (lookup tcb1) k i \<longleftrightarrow>
            inGroup ops (lookup tcb) k i \<or> (k \<in> targets clone y m prefix paths \<and> i = sub))
    \<and> (\<forall>k i. inGroup ops (lookup (unregister ops sub tcb1)) k i \<longleftrightarrow> inGroup ops (lookup tcb1) k i \<and> i \<noteq> sub)
    \<and> (\<forall>cs. \<exists>tcb2. applyChanges ops cs (ChangeStarted (unregister ops sub tcb1)) = Ok tcb2
         \<and> map_get (ready tcb2) sub = None)"
proof -
  from assms(3) have loop: "register_loop ops clone y m sub prefix paths (lookup tcb) = Ok (lookup tcb1)"
    by (auto simp: register_def split: sum.splits)
  note ok1 = register_loop_groups(2) [OF assms(1) loop assms(2)]
  note gone = unregister_groups [OF assms(1) ok1, of sub]
  have "\<exists>tcb2. applyChanges ops cs (ChangeStarted (unregister ops sub tcb1)) = Ok tcb2
         \<and> map_get (ready tcb2) sub = None" for cs
  proof -
    obtain tcb2 where tcb2: "applyChanges ops cs (ChangeStarted (unregister ops sub tcb1)) = Ok tcb2"
      using applyChanges_paths [of ops cs "ChangeStarted (unregister ops sub tcb1)"] by blast
    note ev = round_events [OF tcb2]
    have "\<And>c. updateOf ops (lookup (unregister ops sub tcb1)) sub c = []
        \<and> deleteOf ops (lookup (unregister ops sub tcb1)) sub c = []"
      using updateOf_unconcerned not_in_group_not_concerned [OF assms(1) gone(2)] gone(1) by metis
    with ev(3,4) [of sub] ev(1) have "map_get (ready tcb2) sub = None"
      by (force simp: updatedPaths_def deletedPaths_def ready_ok_def split: option.splits)
    with tcb2 show ?thesis by blast
  qed
  then show ?thesis using register_loop_groups(1) [OF assms(1) loop] gone(1) by blast
qed

definition exPath :: gpath where
  "exPath = empty_gpath\<lparr>p_Elem := [mkElem ''interface'' [(''name'', ''eth0'')], mkElem ''name'' []]\<rparr>"

theorem register_then_unregister_witness:
  "\<exists>tcb1. register listTrie id exTypes exModel 7 None [Some exPath] exCtrl = Ok tcb1
     \<and> inGroup listTrie (lookup tcb1) ''/interface[name=eth0]/name'' 7
     \<and> \<not> inGroup listTrie (lookup (unregister listTrie 7 tcb1)) ''/interface[name=eth0]/name'' 7
     \<and> inGroup listTrie (lookup (unregister listTrie 7 tcb1)) ''/a/b'' 9"
proof -
  have find: "FindAllPaths exTypes exModel (Some exPath) = ([''/interface[name=eth0]/name''], True)"
    by code_simp
  have full: "GNMIFullPath id None (Some exPath) = (Ok (Some exPath) :: (serr, gpath option) result)"
    by (simp add: GNMIFullPath_def)
  obtain tcb1 where tcb1: "register listTrie id exTypes exModel 7 None [Some exPath] exCtrl = Ok tcb1"
    by (simp add: register_def full)
  have ok: "groups_ok listTrie (lookup exCtrl)"
    by (auto simp: groups_ok_def listTrie_def exCtrl_def map_ok_def split: if_splits)
  have "''/interface[name=eth0]/name'' \<in> targets id exTypes exModel None [Some exPath]"
    by (simp add: targets_def full find)
  moreover have "inGroup listTrie (lookup exCtrl) ''/a/b'' 9"
    by (simp add: inGroup_def listTrie_def exCtrl_def)
  ultimately show ?thesis
    using register_then_unregister [OF listTrie_laws ok tcb1] tcb1 by force
qed

text \<open>\<open>ChangeCompleted\<close> holds the mutex while it sends. If the queue of some subscription with an event is
  full, which is so as soon as its reader has left without being unregistered and 64 rounds have
  concerned it, then it blocks, whatever the order in which the map is visited.\<close>

lemma ChangeCompleted_blocks:
  assumes "\<forall>i q. map_get qs i = Some q \<longrightarrow> \<not> ch_closed q"
    "(i, ev) \<in> set (ready tcb)" "map_get qs (ev_sub ev) = Some q" "ch_cap q \<le> length (ch_buf q)"
  shows "\<exists>st j. ChangeCompleted r qs tcb = BlockedSending st j"
  using complete_loop_full [OF assms, of r] by (fastforce simp: ChangeCompleted_def)

lemma ChangeCompleted_blocks_witness:
  "\<exists>st j. ChangeCompleted ''root''
     [(7, \<lparr>ch_cap = 64, ch_buf = replicate 64 \<lparr>ev_sub = 7, ev_updatedroot = None, ev_updatedPath = [], ev_deletedPath = []\<rparr>, ch_closed = False\<rparr>)]
     (exCtrl\<lparr>ready := [(7, \<lparr>ev_sub = 7, ev_updatedroot = None, ev_updatedPath = [''/a''], ev_deletedPath = []\<rparr>)]\<rparr>)
     = BlockedSending st j"
  by (rule ChangeCompleted_blocks) (auto split: if_splits)

end
