(* ===== verification/Responses.thy ===== *)
theory Responses
  imports Telemetry
begin

text \<open>
  The messages a server builds: \<open>gnmi/server/message.go\<close>, and the functions of \<open>gnmi/server/subscribe.go\<close>
  and \<open>gnmi/server/server.go\<close> that read the data tree and answer: \<open>getDeletes\<close>, \<open>getUpdates\<close>,
  \<open>initTelemetryUpdate\<close>, \<open>telemetryUpdate\<close> and the \<open>Get\<close> call. The clock is a function from the number of
  messages built so far; the read lock of the model is held throughout and is left out.
\<close>

section \<open>Messages\<close>

type_synonym gEncoding = int

record 'tv gupdate =
  u_Path :: gpath
  u_Val :: "'tv option"
  u_Duplicates :: "32 word"

record 'tv notification =
  n_Timestamp :: int
  n_Prefix :: "gpath option"
  n_Alias :: string
  n_Update :: "'tv gupdate list"
  n_Delete :: "gpath list"

datatype 'tv subscribeResponse = ResponseUpdate "'tv notification" | SyncResponse bool

text \<open>A slice that may be nil is an \<open>option\<close>.\<close>

definition buildAliasResponse :: "int \<Rightarrow> gpath option \<Rightarrow> string \<Rightarrow> 'tv subscribeResponse list" where
  "buildAliasResponse now prefix alias =
     (if prefix = None \<or> alias = [] then []
      else [ResponseUpdate \<lparr>n_Timestamp = now, n_Prefix = prefix, n_Alias = alias, n_Update = [], n_Delete = []\<rparr>])"

definition buildSubscribeResponse ::
    "int \<Rightarrow> gpath option \<Rightarrow> 'tv gupdate list option \<Rightarrow> gpath list option \<Rightarrow> 'tv subscribeResponse list" where
  "buildSubscribeResponse now prefix update delete =
     (if update = None \<and> delete = None then []
      else [ResponseUpdate \<lparr>n_Timestamp = now, n_Prefix = prefix, n_Alias = [],
              n_Update = (case update of None \<Rightarrow> [] | Some us \<Rightarrow> us),
              n_Delete = (case delete of None \<Rightarrow> [] | Some ds \<Rightarrow> ds)\<rparr>])"

definition buildSyncResponse :: "'tv subscribeResponse list" where
  "buildSyncResponse = [SyncResponse True]"

text \<open>The message of a result: none for success, the error, or the constant \<open>aborted\<close>.\<close>

datatype resultMessage = NoMessage | ErrorMessage serr | AbortedMessage

record updateResult =
  ur_Path :: "gpath option"
  ur_Op :: setOperation
  ur_Message :: resultMessage

definition newUpdateResultError :: "serr option \<Rightarrow> resultMessage" where
  "newUpdateResultError err = (case err of None \<Rightarrow> NoMessage | Some e \<Rightarrow> ErrorMessage e)"

definition buildUpdateResult :: "setOperation \<Rightarrow> gpath option \<Rightarrow> serr option \<Rightarrow> updateResult" where
  "buildUpdateResult opr path err = \<lparr>ur_Path = path, ur_Op = opr, ur_Message = newUpdateResultError err\<rparr>"

definition buildUpdateResultAborted :: "setOperation \<Rightarrow> gpath option \<Rightarrow> updateResult" where
  "buildUpdateResultAborted opr path = \<lparr>ur_Path = path, ur_Op = opr, ur_Message = AbortedMessage\<rparr>"

section \<open>The environment of the functions that read data\<close>

text \<open>
  The schema of the model, \<open>proto.Clone\<close>, the functions of \<open>ydb\<close>, and \<open>ygot.EncodeTypedValue\<close>, which
  returns a value, nil, or an error.
\<close>

record 'tv modelEnv =
  me_vals :: ydbVals
  me_schema :: schemaModel
  me_clone :: "gpath \<Rightarrow> gpath"
  me_encode :: "gval option \<Rightarrow> gEncoding \<Rightarrow> string + 'tv option"

text \<open>The response channel: what was sent on it, and whether it is closed. Its reader drains it.\<close>

record 'tv respchan =
  rc_sent :: "'tv subscribeResponse list"
  rc_closed :: bool

fun sendTelemetryUpdate :: "'tv subscribeResponse list \<Rightarrow> 'tv respchan \<Rightarrow> (serr, 'tv respchan) result" where
  "sendTelemetryUpdate [] ch = Ok ch"
| "sendTelemetryUpdate (response # responses) ch =
     (if rc_closed ch then Panics SendOnClosedChannel
      else sendTelemetryUpdate responses (ch\<lparr>rc_sent := rc_sent ch @ [response]\<rparr>))"

section \<open>Updates and deletes\<close>

text \<open>The two tries of a subscription count the reports of a path in 32 bits.\<close>

fun getDeletes_loop :: "('u, 32 word) trieOps \<Rightarrow> 'u \<Rightarrow> bool \<Rightarrow> string list \<Rightarrow> (serr, gpath list) result" where
  "getDeletes_loop ops updatedList deleteOnly [] = Ok []"
| "getDeletes_loop ops updatedList deleteOnly (dpath # dpaths) =
     (if deleteOnly \<and> tFind ops updatedList dpath \<noteq> None then getDeletes_loop ops updatedList deleteOnly dpaths
      else
        (case ToGNMIPath dpath of
           Inl (Panic p) \<Rightarrow> Panics p
         | Inl (Err e) \<Rightarrow> Failed (Tagged Internal TagInvalidPath)
         | Inr datapath \<Rightarrow>
             (case getDeletes_loop ops updatedList deleteOnly dpaths of
                Inl e \<Rightarrow> Inl e
              | Inr deletes \<Rightarrow> Ok (datapath # deletes))))"

definition getDeletes :: "('u, 32 word) trieOps \<Rightarrow> 'u \<Rightarrow> 'u \<Rightarrow> string \<Rightarrow> bool \<Rightarrow> (serr, gpath list) result" where
  "getDeletes ops deletedList updatedList path deleteOnly =
     getDeletes_loop ops updatedList deleteOnly (tPrefixSearch ops deletedList path)"

definition getUpdates ::
    "'tv modelEnv \<Rightarrow> ('u, 32 word) trieOps \<Rightarrow> 'u option \<Rightarrow> DataAndPath \<Rightarrow> gEncoding \<Rightarrow> (serr, 'tv gupdate option) result" where
  "getUpdates env ops updatedList data encoding =
     (case me_encode env (d_Value data) encoding of
        Inl e \<Rightarrow> Failed (Tagged Internal TagBadData)
      | Inr None \<Rightarrow> Ok None
      | Inr (Some typedValue) \<Rightarrow>
          (case ToGNMIPath (d_Path data) of
             Inl (Panic p) \<Rightarrow> Panics p
           | Inl (Err e) \<Rightarrow> Failed (Tagged Internal TagInvalidPath)
           | Inr datapath \<Rightarrow>
               (let duplicates = (case updatedList of
                      None \<Rightarrow> 0
                    | Some t \<Rightarrow> sum_list (map snd (tAll ops t (d_Path data))))
                in Ok (Some \<lparr>u_Path = datapath, u_Val = Some typedValue, u_Duplicates = duplicates\<rparr>))))"

fun dataUpdates ::
    "'tv modelEnv \<Rightarrow> ('u, 32 word) trieOps \<Rightarrow> 'u option \<Rightarrow> gEncoding \<Rightarrow> DataAndPath list \<Rightarrow> (serr, 'tv gupdate list) result" where
  "dataUpdates env ops updatedList encoding [] = Ok []"
| "dataUpdates env ops updatedList encoding (data # datalist) =
     (case getUpdates env ops updatedList data encoding of
        Inl e \<Rightarrow> Inl e
      | Inr u \<Rightarrow>
          (case dataUpdates env ops updatedList encoding datalist of
             Inl e \<Rightarrow> Inl e
           | Inr us \<Rightarrow> Ok (case u of None \<Rightarrow> us | Some x \<Rightarrow> x # us)))"

text \<open>The loop over the paths of a subscription for one node \<open>branch\<close> of the prefix.\<close>

fun pathUpdates ::
    "'tv modelEnv \<Rightarrow> ('u, 32 word) trieOps \<Rightarrow> 'u option \<Rightarrow> gEncoding \<Rightarrow> gpath option \<Rightarrow> gval option
     \<Rightarrow> gpath option list \<Rightarrow> (serr, 'tv gupdate list) result" where
  "pathUpdates env ops updatedList encoding prefix branch [] = Ok []"
| "pathUpdates env ops updatedList encoding prefix branch (path # paths) =
     (case Model_ValidateGNMIPath (me_clone env) (me_schema env) [prefix, path] of
        Inl e \<Rightarrow> Inl e
      | Inr _ \<Rightarrow>
          (let (datalist, ok) = Find (me_vals env) (me_schema env) branch path [] in
           if \<not> ok \<or> datalist = [] then pathUpdates env ops updatedList encoding prefix branch paths
           else
             (case dataUpdates env ops updatedList encoding datalist of
                Inl e \<Rightarrow> Inl e
              | Inr us \<Rightarrow>
                  (case pathUpdates env ops updatedList encoding prefix branch paths of
                     Inl e \<Rightarrow> Inl e
                   | Inr us' \<Rightarrow> Ok (us @ us')))))"

text \<open>\<open>subses.ToPath(p, false).(*gnmipb.Path)\<close> and \<open>subses.ToAlias(p, false).(*gnmipb.Path)\<close>.\<close>

definition asPath :: "(serr, unit pathval) result \<Rightarrow> (serr, gpath option) result" where
  "asPath r =
     (case r of
        Inl e \<Rightarrow> Inl e
      | Inr (GPath p) \<Rightarrow> Ok p
      | Inr _ \<Rightarrow> Panics TypeAssertion)"

section \<open>The initial update\<close>

record subscriptionMsg =
  sm_Path :: "gpath option"
  sm_Mode :: int
  sm_SampleInterval :: "64 word"
  sm_SuppressRedundant :: bool
  sm_HeartbeatInterval :: "64 word"

record subscriptionList =
  sl_Prefix :: "gpath option"
  sl_Subscription :: "subscriptionMsg list"
  sl_UseAliases :: bool
  sl_Mode :: int
  sl_AllowAggregation :: bool
  sl_UseModels :: "modelData list"
  sl_Encoding :: gEncoding
  sl_UpdatesOnly :: bool

text \<open>
  Each function returns the channel as it leaves it and its result. The first loop is over the nodes
  that the prefix matches; \<open>top.Value.(ygot.GoStruct)\<close> panics on a node of another type.
\<close>

fun initTops ::
    "'tv modelEnv \<Rightarrow> (nat \<Rightarrow> int) \<Rightarrow> gEncoding \<Rightarrow> gpath option \<Rightarrow> gpath option \<Rightarrow> gpath option list
     \<Rightarrow> DataAndPath list \<Rightarrow> 'tv respchan \<Rightarrow> 'tv respchan \<times> (serr, unit) result" where
  "initTops env clock encoding prefix prefixAlias paths [] ch = (ch, Ok ())"
| "initTops env clock encoding prefix prefixAlias paths (tnode # toplist) ch =
     (if \<not> asGoStruct (d_Value tnode) then (ch, Panics TypeAssertion)
      else
        (case pathUpdates env (listTrie :: ((string, 32 word) gomap, 32 word) trieOps) None encoding prefix (d_Value tnode) paths of
           Inl e \<Rightarrow> (ch, Inl e)
         | Inr updates \<Rightarrow>
             if length updates > 0 then
               (case sendTelemetryUpdate (buildSubscribeResponse (clock (length (rc_sent ch))) prefixAlias (Some updates) None) ch of
                  Inl e \<Rightarrow> (ch, Inl e)
                | Inr ch' \<Rightarrow> initTops env clock encoding prefix prefixAlias paths toplist ch')
             else initTops env clock encoding prefix prefixAlias paths toplist ch))"

definition sendSync :: "'tv respchan \<Rightarrow> 'tv respchan \<times> (serr, unit) result" where
  "sendSync ch = (case sendTelemetryUpdate buildSyncResponse ch of Inl e \<Rightarrow> (ch, Inl e) | Inr ch' \<Rightarrow> (ch', Ok ()))"

definition initTelemetryUpdate ::
    "'tv modelEnv \<Rightarrow> (nat \<Rightarrow> int) \<Rightarrow> clientAliases \<Rightarrow> gval option \<Rightarrow> subscriptionList \<Rightarrow> 'tv respchan
     \<Rightarrow> 'tv respchan \<times> (serr, unit) result" where
  "initTelemetryUpdate env clock cas root subscriptionList ch =
     (if sl_UpdatesOnly subscriptionList then sendSync ch
      else
        (case asPath (ToPath (me_clone env) cas (GPath (sl_Prefix subscriptionList)) False) of
           Inl e \<Rightarrow> (ch, Inl e)
         | Inr prefix \<Rightarrow>
             (case asPath (ToAlias cas (GPath prefix) False) of
                Inl e \<Rightarrow> (ch, Inl e)
              | Inr prefixAlias \<Rightarrow>
                  (case Model_ValidateGNMIPath (me_clone env) (me_schema env) [prefix] of
                     Inl e \<Rightarrow> (ch, Inl e)
                   | Inr _ \<Rightarrow>
                       (let (toplist, ok) = Find (me_vals env) (me_schema env) root prefix [] in
                        if \<not> ok \<or> toplist = [] then sendSync ch
                        else
                          (case initTops env clock (sl_Encoding subscriptionList) prefix prefixAlias
                                  (map sm_Path (sl_Subscription subscriptionList)) toplist ch of
                             (ch', Inl e) \<Rightarrow> (ch', Inl e)
                           | (ch', Inr _) \<Rightarrow> sendSync ch'))))))"

section \<open>Later updates\<close>

text \<open>What \<open>telemetryUpdate\<close> reads of a subscription.\<close>

record 'u subView =
  sv_Prefix :: "gpath option"
  sv_Paths :: "gpath option list"
  sv_Encoding :: gEncoding
  sv_updatedList :: 'u
  sv_deletedList :: 'u

fun telemetryTops ::
    "'tv modelEnv \<Rightarrow> ('u, 32 word) trieOps \<Rightarrow> (nat \<Rightarrow> int) \<Rightarrow> 'u subView \<Rightarrow> gpath option
     \<Rightarrow> DataAndPath list \<Rightarrow> 'tv respchan \<Rightarrow> 'tv respchan \<times> (serr, unit) result" where
  "telemetryTops env ops clock sub prefixAlias [] ch = (ch, Ok ())"
| "telemetryTops env ops clock sub prefixAlias (tnode # toplist) ch =
     (if \<not> asGoStruct (d_Value tnode) then (ch, Panics TypeAssertion)
      else
        (case getDeletes ops (sv_deletedList sub) (sv_updatedList sub) (d_Path tnode) False of
           Inl e \<Rightarrow> (ch, Inl e)
         | Inr deletes \<Rightarrow>
             (case pathUpdates env ops (Some (sv_updatedList sub)) (sv_Encoding sub) (sv_Prefix sub) (d_Value tnode) (sv_Paths sub) of
                Inl e \<Rightarrow> (ch, Inl e)
              | Inr updates \<Rightarrow>
                  (case sendTelemetryUpdate
                          (buildSubscribeResponse (clock (length (rc_sent ch))) prefixAlias (Some updates) (Some deletes)) ch of
                     Inl e \<Rightarrow> (ch, Inl e)
                   | Inr ch' \<Rightarrow> telemetryTops env ops clock sub prefixAlias toplist ch'))))"

definition telemetryUpdate ::
    "'tv modelEnv \<Rightarrow> ('u, 32 word) trieOps \<Rightarrow> (nat \<Rightarrow> int) \<Rightarrow> clientAliases \<Rightarrow> gval option \<Rightarrow> 'u subView \<Rightarrow> gval option
     \<Rightarrow> 'tv respchan \<Rightarrow> 'tv respchan \<times> (serr, unit) result" where
  "telemetryUpdate env ops clock cas root sub updatedroot ch =
     (case asPath (ToAlias cas (GPath (sv_Prefix sub)) False) of
        Inl e \<Rightarrow> (ch, Inl e)
      | Inr prefixAlias \<Rightarrow>
          (let updatedroot' = (case updatedroot of None \<Rightarrow> root | Some r \<Rightarrow> Some r) in
           case Model_ValidateGNMIPath (me_clone env) (me_schema env) [sv_Prefix sub] of
             Inl e \<Rightarrow> (ch, Inl e)
           | Inr _ \<Rightarrow>
               (let (toplist, ok) = Find (me_vals env) (me_schema env) updatedroot' (sv_Prefix sub) [] in
                if \<not> ok \<or> toplist = [] then (ch, Ok ())
                else telemetryTops env ops clock sub prefixAlias toplist ch)))"

section \<open>The Get call\<close>

record getRequest =
  gr_Prefix :: "gpath option"
  gr_Path :: "gpath option list"
  gr_Type :: int
  gr_Encoding :: gEncoding
  gr_UseModels :: "modelData list"

definition supportedEncodings :: "gEncoding list" where
  "supportedEncodings = [0, 4]"

definition CheckEncoding :: "gEncoding \<Rightarrow> (serr, unit) result" where
  "CheckEncoding encoding =
     (if encoding \<in> set supportedEncodings then Ok () else Failed (Tagged Unimplemented TagNotSupport))"

fun get_update :: "'tv modelEnv \<Rightarrow> gEncoding \<Rightarrow> DataAndPath list \<Rightarrow> (serr, 'tv gupdate list) result" where
  "get_update env encoding [] = Ok []"
| "get_update env encoding (data # datalist) =
     (case me_encode env (d_Value data) encoding of
        Inl e \<Rightarrow> Failed (Tagged Internal TagBadData)
      | Inr typedValue \<Rightarrow>
          (case ToGNMIPath (d_Path data) of
             Inl (Panic p) \<Rightarrow> Panics p
           | Inl (Err e) \<Rightarrow> Failed (Tagged Internal TagInvalidPath)
           | Inr datapath \<Rightarrow>
               (case get_update env encoding datalist of
                  Inl e \<Rightarrow> Inl e
                | Inr us \<Rightarrow> Ok (\<lparr>u_Path = datapath, u_Val = typedValue, u_Duplicates = 0\<rparr> # us))))"

text \<open>The loop over the paths for one node of the prefix; \<open>k\<close> counts the notifications built.\<close>

fun get_paths ::
    "'tv modelEnv \<Rightarrow> (nat \<Rightarrow> int) \<Rightarrow> gEncoding \<Rightarrow> gpath option \<Rightarrow> gpath \<Rightarrow> gval option \<Rightarrow> gpath option list
     \<Rightarrow> 'tv notification list \<Rightarrow> (serr, 'tv notification list) result" where
  "get_paths env clock encoding prefix bprefix branch [] notifications = Ok notifications"
| "get_paths env clock encoding prefix bprefix branch (path # paths) notifications =
     (case Model_ValidateGNMIPath (me_clone env) (me_schema env) [prefix, path] of
        Inl e \<Rightarrow> Inl e
      | Inr _ \<Rightarrow>
          (let (datalist, ok) = Find (me_vals env) (me_schema env) branch path [] in
           if \<not> ok \<or> datalist = [] then get_paths env clock encoding prefix bprefix branch paths notifications
           else
             (case get_update env encoding datalist of
                Inl e \<Rightarrow> Inl e
              | Inr update \<Rightarrow>
                  get_paths env clock encoding prefix bprefix branch paths
                    (notifications @ [\<lparr>n_Timestamp = clock (length notifications), n_Prefix = Some bprefix, n_Alias = [],
                                       n_Update = update, n_Delete = []\<rparr>]))))"

fun get_tops ::
    "'tv modelEnv \<Rightarrow> (nat \<Rightarrow> int) \<Rightarrow> gEncoding \<Rightarrow> gpath option \<Rightarrow> gpath option list \<Rightarrow> DataAndPath list
     \<Rightarrow> 'tv notification list \<Rightarrow> (serr, 'tv notification list) result" where
  "get_tops env clock encoding prefix paths [] notifications = Ok notifications"
| "get_tops env clock encoding prefix paths (tnode # toplist) notifications =
     (if \<not> asGoStruct (d_Value tnode) then Panics TypeAssertion
      else
        (case ToGNMIPath (d_Path tnode) of
           Inl (Panic p) \<Rightarrow> Panics p
         | Inl (Err e) \<Rightarrow> Failed (Tagged Internal TagInvalidPath)
         | Inr bprefix \<Rightarrow>
             (case get_paths env clock encoding prefix bprefix (d_Value tnode) paths notifications of
                Inl e \<Rightarrow> Inl e
              | Inr notifications' \<Rightarrow> get_tops env clock encoding prefix paths toplist notifications')))"

text \<open>
  \<open>Server.get\<close>. The request for a state sync before the read goes to the system, which may change the
  tree: \<open>sync\<close> is what the tree is afterwards, or the panic of the request.
\<close>

definition get ::
    "'tv modelEnv \<Rightarrow> (nat \<Rightarrow> int) \<Rightarrow> (gpath option \<Rightarrow> gpath option list \<Rightarrow> gval option \<Rightarrow> (serr, gval option) result)
     \<Rightarrow> gval option \<Rightarrow> getRequest \<Rightarrow> (serr, 'tv notification list) result" where
  "get env clock sync root req =
     (if gr_Type req \<noteq> 0 then Failed (Tagged Unimplemented TagNotSupport)
      else
        (case CheckModels (me_schema env) (gr_UseModels req) of
           Inl e \<Rightarrow> Inl e
         | Inr _ \<Rightarrow>
             (case CheckEncoding (gr_Encoding req) of
                Inl e \<Rightarrow> Inl e
              | Inr _ \<Rightarrow>
                  (case sync (gr_Prefix req) (gr_Path req) root of
                     Inl e \<Rightarrow> Inl e
                   | Inr root' \<Rightarrow>
                       (case Model_ValidateGNMIPath (me_clone env) (me_schema env) [gr_Prefix req] of
                          Inl e \<Rightarrow> Inl e
                        | Inr _ \<Rightarrow>
                            (let (toplist, ok) = Find (me_vals env) (me_schema env) root' (gr_Prefix req) [] in
                             if \<not> ok \<or> toplist = [] then Ok []
                             else get_tops env clock (gr_Encoding req) (gr_Prefix req) (gr_Path req) toplist []))))))"

section \<open>What is sent\<close>

lemma sendTelemetryUpdate_eq:
  "sendTelemetryUpdate rs ch =
     (if rs \<noteq> [] \<and> rc_closed ch then Panics SendOnClosedChannel else Ok (ch\<lparr>rc_sent := rc_sent ch @ rs\<rparr>))"
  by (induction rs ch rule: sendTelemetryUpdate.induct) auto

text \<open>A notification of the initial update: updates, and nothing else.\<close>

definition initial_update :: "gpath option \<Rightarrow> 'tv subscribeResponse \<Rightarrow> bool" where
  "initial_update prefixAlias r =
     (case r of SyncResponse _ \<Rightarrow> False
      | ResponseUpdate n \<Rightarrow> n_Prefix n = prefixAlias \<and> n_Update n \<noteq> [] \<and> n_Delete n = [] \<and> n_Alias n = [])"

lemma initTops_sent:
  assumes "initTops env clock enc prefix prefixAlias paths tops ch = (ch', r)"
  shows "rc_closed ch' = rc_closed ch
    \<and> (\<exists>us. rc_sent ch' = rc_sent ch @ us \<and> list_all (initial_update prefixAlias) us \<and> length us \<le> length tops)"
  using assms
proof (induction tops arbitrary: ch)
  case (Cons t tops)
  show ?case
  proof (cases "rc_sent ch' = rc_sent ch \<and> rc_closed ch' = rc_closed ch")
    case True
    then show ?thesis by auto
  next
    case False
    with Cons.prems obtain ch1 us where 1: "initTops env clock enc prefix prefixAlias paths tops ch1 = (ch', r)"
      "rc_closed ch1 = rc_closed ch" "rc_sent ch1 = rc_sent ch @ us" "list_all (initial_update prefixAlias) us" "length us \<le> 1"
      by (fastforce simp: sendTelemetryUpdate_eq buildSubscribeResponse_def initial_update_def
          split: if_splits sum.splits)
    with Cons.IH [OF 1(1)] obtain vs where "rc_sent ch' = rc_sent ch @ us @ vs" "rc_closed ch' = rc_closed ch"
      "list_all (initial_update prefixAlias) vs" "length vs \<le> length tops" by auto
    with 1(4,5) show ?thesis by (intro conjI exI [of _ "us @ vs"]) auto
  qed
qed auto

lemma sendSync_Ok: "sendSync ch = (ch', Ok ()) \<longleftrightarrow> \<not> rc_closed ch \<and> ch' = ch\<lparr>rc_sent := rc_sent ch @ [SyncResponse True]\<rparr>"
  by (auto simp: sendSync_def sendTelemetryUpdate_eq buildSyncResponse_def)

text \<open>An initial update that succeeds has sent notifications that carry updates only, all under the
  prefix of the request (or its alias), and then one sync response, which is the last message; with
  \<open>updates_only\<close> it sends the sync response alone.\<close>

lemma initTelemetryUpdate_sync:
  assumes "initTelemetryUpdate env clock cas root sl ch = (ch', Ok ())"
  shows "\<exists>us prefixAlias. rc_sent ch' = rc_sent ch @ us @ [SyncResponse True]
    \<and> list_all (initial_update prefixAlias) us \<and> (sl_UpdatesOnly sl \<longrightarrow> us = [])
    \<and> (us \<noteq> [] \<longrightarrow> (\<exists>prefix. asPath (ToPath (me_clone env) cas (GPath (sl_Prefix sl)) False) = Ok prefix
         \<and> asPath (ToAlias cas (GPath prefix) False) = Ok prefixAlias))"
proof (cases "sendSync ch = (ch', Ok ())")
  case True
  then show ?thesis by (intro exI [of _ "[]"]) (simp add: sendSync_Ok)
next
  case False
  with assms obtain prefix prefixAlias toplist ok ch1 where
    p: "asPath (ToPath (me_clone env) cas (GPath (sl_Prefix sl)) False) = Ok prefix"
      "asPath (ToAlias cas (GPath prefix) False) = Ok prefixAlias"
    and tops: "initTops env clock (sl_Encoding sl) prefix prefixAlias (map sm_Path (sl_Subscription sl)) toplist ch = (ch1, Ok ())"
    and sync: "sendSync ch1 = (ch', Ok ())" "\<not> sl_UpdatesOnly sl"
    by (auto simp: initTelemetryUpdate_def Let_def split: if_splits sum.splits prod.splits)
  from initTops_sent [OF tops] sync(1) obtain us where "rc_sent ch' = rc_sent ch @ us @ [SyncResponse True]"
    "list_all (initial_update prefixAlias) us" by (auto simp: sendSync_Ok)
  with p sync(2) show ?thesis by blast
qed

definition deletesUnder :: "('u, 32 word) trieOps \<Rightarrow> 'u \<Rightarrow> string \<Rightarrow> gpath list" where
  "deletesUnder ops t bpath = map (\<lambda>d. case ToGNMIPath d of Inr g \<Rightarrow> g | Inl _ \<Rightarrow> empty_gpath) (tPrefixSearch ops t bpath)"

lemma getDeletes_Ok:
  "getDeletes ops t u bpath False = Ok ds \<Longrightarrow> ds = deletesUnder ops t bpath"
proof -
  have "getDeletes_loop ops u False ps = Ok ds \<Longrightarrow> ds = map (\<lambda>d. case ToGNMIPath d of Inr g \<Rightarrow> g | Inl _ \<Rightarrow> empty_gpath) ps" for ps
    by (induction ps arbitrary: ds) (auto split: sum.splits exn.splits)
  then show "getDeletes ops t u bpath False = Ok ds \<Longrightarrow> ds = deletesUnder ops t bpath"
    by (simp add: getDeletes_def deletesUnder_def)
qed

definition telemetry_notification :: "('u, 32 word) trieOps \<Rightarrow> 'u subView \<Rightarrow> gpath option \<Rightarrow> DataAndPath \<Rightarrow> 'tv subscribeResponse \<Rightarrow> bool" where
  "telemetry_notification ops sub prefixAlias t r =
     (case r of SyncResponse _ \<Rightarrow> False
      | ResponseUpdate n \<Rightarrow> n_Prefix n = prefixAlias \<and> n_Alias n = []
          \<and> n_Delete n = deletesUnder ops (sv_deletedList sub) (d_Path t))"

lemma telemetry_notification_update [simp]:
  "telemetry_notification ops sub prefixAlias t (ResponseUpdate n) \<longleftrightarrow>
     n_Prefix n = prefixAlias \<and> n_Alias n = [] \<and> n_Delete n = deletesUnder ops (sv_deletedList sub) (d_Path t)"
  by (simp add: telemetry_notification_def)

lemma telemetryTops_sent:
  assumes "telemetryTops env ops clock sub prefixAlias tops ch = (ch', Ok ())"
  shows "\<exists>us. rc_sent ch' = rc_sent ch @ us \<and> list_all2 (telemetry_notification ops sub prefixAlias) tops us"
  using assms
proof (induction tops arbitrary: ch)
  case (Cons t tops)
  from Cons.prems obtain ds us where ds: "getDeletes ops (sv_deletedList sub) (sv_updatedList sub) (d_Path t) False = Ok ds"
    and rest: "telemetryTops env ops clock sub prefixAlias tops
        (ch\<lparr>rc_sent := rc_sent ch @ buildSubscribeResponse (clock (length (rc_sent ch))) prefixAlias (Some us) (Some ds)\<rparr>) = (ch', Ok ())"
    by (auto simp: sendTelemetryUpdate_eq split: if_splits sum.splits)
  from Cons.IH [OF rest] obtain vs where "list_all2 (telemetry_notification ops sub prefixAlias) tops vs"
    "rc_sent ch' = rc_sent ch @ buildSubscribeResponse (clock (length (rc_sent ch))) prefixAlias (Some us) (Some ds) @ vs" by auto
  then show ?case
    using getDeletes_Ok [OF ds]
    by (intro exI [of _ "buildSubscribeResponse (clock (length (rc_sent ch))) prefixAlias (Some us) (Some ds) @ vs"])
      (simp add: buildSubscribeResponse_def)
qed simp

text \<open>A later update sends exactly one notification per node that the prefix matches, even when there is
  nothing to report; it carries the request's prefix (or its alias), and the deletes are the recorded
  paths themselves, which start at the root and not at that prefix.\<close>

lemma telemetryUpdate_messages:
  assumes "telemetryUpdate env ops clock cas root sub updatedroot ch = (ch', Ok ())"
    "Find (me_vals env) (me_schema env) (case updatedroot of None \<Rightarrow> root | Some r \<Rightarrow> Some r) (sv_Prefix sub) [] = (toplist, True)"
  shows "\<exists>prefixAlias us. asPath (ToAlias cas (GPath (sv_Prefix sub)) False) = Ok prefixAlias
    \<and> rc_sent ch' = rc_sent ch @ us \<and> list_all2 (telemetry_notification ops sub prefixAlias) toplist us"
proof -
  from assms obtain prefixAlias where a: "asPath (ToAlias cas (GPath (sv_Prefix sub)) False) = Ok prefixAlias"
    and t: "toplist = [] \<and> ch' = ch \<or> telemetryTops env ops clock sub prefixAlias toplist ch = (ch', Ok ())"
    by (auto simp: telemetryUpdate_def Let_def split: if_splits sum.splits option.splits)
  from t have "\<exists>us. rc_sent ch' = rc_sent ch @ us \<and> list_all2 (telemetry_notification ops sub prefixAlias) toplist us"
    using telemetryTops_sent [of env ops clock sub prefixAlias toplist ch ch'] by auto
  with a show ?thesis by blast
qed

definition exEnv :: "string modelEnv" where
  "exEnv = \<lparr>me_vals = exVals, me_schema = exModel, me_clone = id,
     me_encode = (\<lambda>v e. case v of Some (VPtr t (Some (VScalar _ s))) \<Rightarrow> Inr (Some s) | Some (VPtr t None) \<Rightarrow> Inr None | _ \<Rightarrow> Inr (Some ''{}''))\<rparr>"

definition exChan :: "string respchan" where
  "exChan = \<lparr>rc_sent = [], rc_closed = False\<rparr>"

definition exEth0 :: gpath where
  "exEth0 = empty_gpath\<lparr>p_Elem := [mkElem ''interface'' [(''name'', ''eth0'')]]\<rparr>"

definition exView :: "(string, 32 word) gomap subView" where
  "exView = \<lparr>sv_Prefix = Some exEth0, sv_Paths = [Some (empty_gpath\<lparr>p_Elem := [mkElem ''name'' []]\<rparr>)], sv_Encoding = 4,
     sv_updatedList = [], sv_deletedList = [(''/interface[name=eth0]/mtu'', 1)]\<rparr>"

lemma telemetryUpdate_messages_witness:
  "\<exists>n. rc_sent (fst (telemetryUpdate exEnv listTrie int newClientAliases (Some exRoot) exView None exChan)) = [ResponseUpdate n]
     \<and> n_Prefix n = Some exEth0
     \<and> n_Delete n = [empty_gpath\<lparr>p_Elem := [mkElem ''interface'' [(''name'', ''eth0'')], mkElem ''mtu'' []]\<rparr>]"
proof -
  let ?u = "telemetryUpdate exEnv listTrie int newClientAliases (Some exRoot) exView None exChan"
  have "snd ?u = Ok ()" by code_simp
  then have u: "?u = (fst ?u, Ok ())" by (metis prod.collapse)
  have f: "Find (me_vals exEnv) (me_schema exEnv) (case None of None \<Rightarrow> Some exRoot | Some r \<Rightarrow> Some r) (sv_Prefix exView) []
      = ([\<lparr>d_Value = Some (exInterface ''eth0''), d_Path = ''/interface[name=eth0]''\<rparr>], True)" by code_simp
  have al: "asPath (ToAlias newClientAliases (GPath (sv_Prefix exView)) False) = Ok (Some exEth0)" by code_simp
  have del: "deletesUnder listTrie (sv_deletedList exView) ''/interface[name=eth0]''
      = [empty_gpath\<lparr>p_Elem := [mkElem ''interface'' [(''name'', ''eth0'')], mkElem ''mtu'' []]\<rparr>]" by code_simp
  from telemetryUpdate_messages [OF u f] obtain us where us: "rc_sent (fst ?u) = rc_sent exChan @ us"
    "list_all2 (telemetry_notification listTrie exView (Some exEth0)) [\<lparr>d_Value = Some (exInterface ''eth0''), d_Path = ''/interface[name=eth0]''\<rparr>] us"
    unfolding al by auto
  then obtain r where r: "us = [r]" "telemetry_notification listTrie exView (Some exEth0) \<lparr>d_Value = Some (exInterface ''eth0''), d_Path = ''/interface[name=eth0]''\<rparr> r"
    by (auto simp: list_all2_Cons1)
  then obtain n where "r = ResponseUpdate n" by (cases r) (auto simp: telemetry_notification_def)
  with r us(1) show ?thesis by (auto simp: del exChan_def)
qed

definition exList :: subscriptionList where
  "exList = \<lparr>sl_Prefix = Some exEth0,
     sl_Subscription = [\<lparr>sm_Path = Some (empty_gpath\<lparr>p_Elem := [mkElem ''name'' []]\<rparr>), sm_Mode = 1, sm_SampleInterval = 0,
       sm_SuppressRedundant = False, sm_HeartbeatInterval = 0\<rparr>],
     sl_UseAliases = False, sl_Mode = 1, sl_AllowAggregation = False, sl_UseModels = [], sl_Encoding = 4, sl_UpdatesOnly = False\<rparr>"

lemma initTelemetryUpdate_sync_witness:
  "\<exists>us prefixAlias. rc_sent (fst (initTelemetryUpdate exEnv int newClientAliases (Some exRoot) exList exChan)) = us @ [SyncResponse True]
     \<and> list_all (initial_update prefixAlias) us"
proof -
  let ?u = "initTelemetryUpdate exEnv int newClientAliases (Some exRoot) exList exChan"
  have "snd ?u = Ok ()" by code_simp
  then have u: "?u = (fst ?u, Ok ())" by (metis prod.collapse)
  from initTelemetryUpdate_sync [OF u] show ?thesis by (auto simp: exChan_def)
qed

text \<open>A request whose prefix is a valid path of a leaf aborts the server: the type assertion on the node that
  the prefix matches fails, in \<open>Get\<close> and in the initial update of a subscription.\<close>

lemma leaf_prefix_panics:
  assumes "Model_ValidateGNMIPath (me_clone env) (me_schema env) [prefix] = Ok ()"
    "Find (me_vals env) (me_schema env) root prefix [] = (tnode # toplist, True)" "\<not> asGoStruct (d_Value tnode)"
  shows "get env clock (\<lambda>_ _ r. Ok r) root \<lparr>gr_Prefix = prefix, gr_Path = paths, gr_Type = 0, gr_Encoding = 0, gr_UseModels = []\<rparr>
      = Panics TypeAssertion
    \<and> snd (initTelemetryUpdate env clock newClientAliases root
         (sl\<lparr>sl_Prefix := prefix, sl_UpdatesOnly := False\<rparr>) ch) = Panics TypeAssertion"
proof
  show "get env clock (\<lambda>_ _ r. Ok r) root \<lparr>gr_Prefix = prefix, gr_Path = paths, gr_Type = 0, gr_Encoding = 0, gr_UseModels = []\<rparr>
      = Panics TypeAssertion"
    using assms by (simp add: get_def CheckEncoding_def supportedEncodings_def)
  have "asPath (ToPath (me_clone env) newClientAliases (GPath prefix) False) = Ok prefix"
    "asPath (ToAlias newClientAliases (GPath prefix) False) = Ok prefix"
    by (auto simp: ToPath_def ToAlias_def newClientAliases_def asPath_def split: option.splits list.splits)
  then show "snd (initTelemetryUpdate env clock newClientAliases root
         (sl\<lparr>sl_Prefix := prefix, sl_UpdatesOnly := False\<rparr>) ch) = Panics TypeAssertion"
    using assms by (simp add: initTelemetryUpdate_def)
qed

lemma leaf_prefix_panics_witness:
  "get exEnv int (\<lambda>_ _ r. Ok r) (Some exRoot)
     \<lparr>gr_Prefix = Some exPath, gr_Path = [], gr_Type = 0, gr_Encoding = 0, gr_UseModels = []\<rparr> = Panics TypeAssertion"
proof -
  have v: "Model_ValidateGNMIPath (me_clone exEnv) (me_schema exEnv) [Some exPath] = Ok ()" by code_simp
  have f: "Find (me_vals exEnv) (me_schema exEnv) (Some exRoot) (Some exPath) []
      = (\<lparr>d_Value = Some (VPtr (TScalar ''string'') (Some (VScalar ''string'' ''eth0''))), d_Path = ''/interface[name=eth0]/name''\<rparr> # [], True)"
    by code_simp
  show ?thesis using leaf_prefix_panics [OF v f] by simp
qed

end
