(* ===== verification/Subscription.thy ===== *)
theory Subscription
  imports Responses
begin

text \<open>
  Subscriptions of a session, from \<open>gnmi/server/subscribe.go\<close>: how a subscription is created or extended
  (\<open>addStreamSubscription\<close>, \<open>addPollSubscription\<close>) and the goroutine that serves it (\<open>run\<close>), as a step
  relation over the choices of its \<open>select\<close> and the steps of its environment.
\<close>

section \<open>Subscriptions\<close>

text \<open>The enumerations of the protocol are open: any 32-bit number may arrive.\<close>

abbreviation (input) TARGET_DEFINED :: int where "TARGET_DEFINED \<equiv> 0"
abbreviation (input) ON_CHANGE :: int where "ON_CHANGE \<equiv> 1"
abbreviation (input) SAMPLE :: int where "SAMPLE \<equiv> 2"

abbreviation (input) STREAM :: int where "STREAM \<equiv> 0"
abbreviation (input) ONCE :: int where "ONCE \<equiv> 1"
abbreviation (input) POLL :: int where "POLL \<equiv> 2"

record configured =
  c_StreamMode :: int
  c_SampleInterval :: "64 word"
  c_SuppressRedundant :: bool
  c_HeartbeatInterval :: "64 word"

text \<open>
  The event queue of a subscription is held with the other queues, under its ID. The \<open>stop\<close> channel is
  never made, so it is nil.
\<close>

record 'u subscription =
  sub_ID :: TeleID
  sub_SessionID :: TeleID
  sub_key :: string
  sub_Prefix :: "gpath option"
  sub_UseAliases :: bool
  sub_Mode :: int
  sub_AllowAggregation :: bool
  sub_Encoding :: gEncoding
  sub_Paths :: "gpath option list"
  sub_StreamMode :: int
  sub_SampleInterval :: "64 word"
  sub_SuppressRedundant :: bool
  sub_HeartbeatInterval :: "64 word"
  sub_Configured :: configured
  sub_stateSync :: bool
  sub_updatedList :: 'u
  sub_deletedList :: 'u
  sub_started :: bool

record pollSubscription =
  ps_ID :: TeleID
  ps_SessionID :: TeleID
  ps_SubList :: subscriptionList

record ('u, 'tv) subSession =
  ses_ID :: TeleID
  ses_Address :: string
  ses_Port :: "16 word"
  ses_StreamSub :: "(string, 'u subscription) gomap"
  ses_PollSub :: "pollSubscription list"
  ses_respchan :: "'tv respchan"
  ses_shutdown :: bool
  ses_aliases :: clientAliases

section \<open>New subscriptions\<close>

definition defaultInterval :: "64 word" where "defaultInterval = 60000000000"
definition minimumInterval :: "64 word" where "minimumInterval = 1000000000"

text \<open>\<open>%d\<close> and \<open>%s\<close> of an enumeration: its name, or its number.\<close>

definition show_int :: "int \<Rightarrow> string" where
  "show_int n = (if n < 0 then CHR ''-'' # show_nat (nat (- n)) else show_nat (nat n))"

definition enumString :: "(int \<times> string) list \<Rightarrow> int \<Rightarrow> string" where
  "enumString names n = (case map_get names n of Some s \<Rightarrow> s | None \<Rightarrow> show_int n)"

definition modeNames :: "(int \<times> string) list" where
  "modeNames = [(0, ''STREAM''), (1, ''ONCE''), (2, ''POLL'')]"

definition encodingNames :: "(int \<times> string) list" where
  "encodingNames = [(0, ''JSON''), (1, ''BYTES''), (2, ''PROTO''), (3, ''ASCII''), (4, ''JSON_IETF'')]"

definition streamModeNames :: "(int \<times> string) list" where
  "streamModeNames = [(0, ''TARGET_DEFINED''), (1, ''ON_CHANGE''), (2, ''SAMPLE'')]"

record streamParams =
  sp_prefix :: "gpath option"
  sp_useAliases :: bool
  sp_Mode :: int
  sp_allowAggregation :: bool
  sp_Encoding :: gEncoding
  sp_StreamMode :: int
  sp_SampleInterval :: "64 word"
  sp_SuppressRedundant :: bool
  sp_HeartbeatInterval :: "64 word"

definition subKey :: "TeleID \<Rightarrow> streamParams \<Rightarrow> string" where
  "subKey sid p =
     show_nat (unat sid) @ ''-'' @ enumString modeNames (sp_Mode p) @ ''-'' @ enumString encodingNames (sp_Encoding p) @ ''-'' @
     enumString streamModeNames (sp_StreamMode p) @ ''-'' @ ToXPath (sp_prefix p) @ ''-'' @
     show_nat (unat (sp_SampleInterval p)) @ ''-'' @ show_nat (unat (sp_HeartbeatInterval p)) @ ''-'' @
     show_bool (sp_useAliases p) @ ''-'' @ show_bool (sp_allowAggregation p) @ ''-'' @ show_bool (sp_SuppressRedundant p)"

text \<open>The \<open>switch\<close> that configures a new subscription; an unknown mode leaves the zero values.\<close>

definition unconfigured :: configured where
  "unconfigured = \<lparr>c_StreamMode = 0, c_SampleInterval = 0, c_SuppressRedundant = False, c_HeartbeatInterval = 0\<rparr>"

definition configure :: "int \<Rightarrow> 64 word \<Rightarrow> bool \<Rightarrow> 64 word \<Rightarrow> (serr, configured) result" where
  "configure mode sample suppress heartbeat =
     (if mode = TARGET_DEFINED then
        Ok \<lparr>c_StreamMode = SAMPLE, c_SampleInterval = defaultInterval, c_SuppressRedundant = True, c_HeartbeatInterval = 0\<rparr>
      else if mode = ON_CHANGE then
        (if heartbeat < minimumInterval \<and> heartbeat \<noteq> 0 then Failed (Tagged OutOfRange TagInvalidConfig)
         else if sample \<noteq> 0 then Failed (Tagged InvalidArgument TagInvalidConfig)
         else Ok \<lparr>c_StreamMode = ON_CHANGE, c_SampleInterval = 0, c_SuppressRedundant = False, c_HeartbeatInterval = heartbeat\<rparr>)
      else if mode = SAMPLE then
        (if sample < minimumInterval \<and> sample \<noteq> 0 then Failed (Tagged OutOfRange TagInvalidConfig)
         else if heartbeat \<noteq> 0 \<and> heartbeat < minimumInterval then Failed (Tagged OutOfRange TagInvalidConfig)
         else if heartbeat \<noteq> 0 \<and> sample > heartbeat then Failed (Tagged OutOfRange TagInvalidConfig)
         else Ok \<lparr>c_StreamMode = SAMPLE, c_SampleInterval = (if sample = 0 then minimumInterval else sample),
                   c_SuppressRedundant = suppress, c_HeartbeatInterval = heartbeat\<rparr>)
      else Ok unconfigured)"

definition newSubscription :: "'u \<Rightarrow> TeleID \<Rightarrow> TeleID \<Rightarrow> streamParams \<Rightarrow> gpath option \<Rightarrow> bool \<Rightarrow> 'u subscription" where
  "newSubscription emptyTrie subID sid p path stateSync =
     \<lparr>sub_ID = subID, sub_SessionID = sid, sub_key = subKey sid p, sub_Prefix = sp_prefix p, sub_UseAliases = sp_useAliases p,
      sub_Mode = sp_Mode p, sub_AllowAggregation = sp_allowAggregation p, sub_Encoding = sp_Encoding p, sub_Paths = [path],
      sub_StreamMode = sp_StreamMode p, sub_SampleInterval = sp_SampleInterval p, sub_SuppressRedundant = sp_SuppressRedundant p,
      sub_HeartbeatInterval = sp_HeartbeatInterval p, sub_Configured = unconfigured, sub_stateSync = stateSync,
      sub_updatedList = emptyTrie, sub_deletedList = emptyTrie, sub_started = False\<rparr>"

text \<open>
  The subscription returned is the one stored under the key. The first result is the counter of IDs.
  A new subscription is stored before its parameters are checked.
\<close>

definition addStreamSubscription ::
    "('u, 32 word) trieOps \<Rightarrow> streamParams \<Rightarrow> gpath option \<Rightarrow> bool \<Rightarrow> TeleID \<Rightarrow> ('u, 'tv) subSession
     \<Rightarrow> TeleID \<times> ('u, 'tv) subSession \<times> (serr, string) result" where
  "addStreamSubscription ops p path stateSync subID ses =
     (let key = subKey (ses_ID ses) p in
      case map_get (ses_StreamSub ses) key of
        Some subctrl \<Rightarrow>
          (subID,
           ses\<lparr>ses_StreamSub := map_put key (subctrl\<lparr>sub_Paths := sub_Paths subctrl @ [path],
                 sub_stateSync := (if \<not> sub_stateSync subctrl then stateSync else sub_stateSync subctrl)\<rparr>) (ses_StreamSub ses)\<rparr>,
           Ok key)
      | None \<Rightarrow>
          (let subctrl = newSubscription (tNew ops) (subID + 1) (ses_ID ses) p path stateSync in
           case configure (sub_StreamMode subctrl) (sub_SampleInterval subctrl) (sub_SuppressRedundant subctrl) (sub_HeartbeatInterval subctrl) of
             Inl e \<Rightarrow> (subID + 1, ses\<lparr>ses_StreamSub := map_put key subctrl (ses_StreamSub ses)\<rparr>, Inl e)
           | Inr c \<Rightarrow> (subID + 1, ses\<lparr>ses_StreamSub := map_put key (subctrl\<lparr>sub_Configured := c\<rparr>) (ses_StreamSub ses)\<rparr>, Ok key)))"

definition addPollSubscription ::
    "subscriptionList \<Rightarrow> TeleID \<Rightarrow> ('u, 'tv) subSession \<Rightarrow> TeleID \<times> ('u, 'tv) subSession \<times> pollSubscription" where
  "addPollSubscription sublist subID ses =
     (let psub = \<lparr>ps_ID = subID + 1, ps_SessionID = ses_ID ses, ps_SubList = sublist\<rparr> in
      (subID + 1, ses\<lparr>ses_PollSub := ses_PollSub ses @ [psub]\<rparr>, psub))"

section \<open>The goroutine of a subscription\<close>

text \<open>
  \<open>time.Duration\<close> is a signed 64-bit number, and \<open>time.NewTicker\<close> panics unless it is positive. A ticker
  for a zero interval is made with the default interval and stopped at once.
\<close>

definition newTickerPanics :: "64 word \<Rightarrow> bool" where
  "newTickerPanics interval = (sint (if interval > 0 then interval else defaultInterval) \<le> 0)"

definition run_start :: "configured \<Rightarrow> (serr, bool \<times> bool) result" where
  "run_start c =
     (if newTickerPanics (c_SampleInterval c) then Panics NonPositiveTickerInterval
      else if newTickerPanics (c_HeartbeatInterval c) then Panics NonPositiveTickerInterval
      else Ok (c_SampleInterval c > 0, c_HeartbeatInterval c > 0))"

fun countPaths :: "('u, 32 word) trieOps \<Rightarrow> string list \<Rightarrow> 'u \<Rightarrow> 'u" where
  "countPaths ops [] t = t"
| "countPaths ops (p # ps) t =
     countPaths ops ps (tAdd ops p (case tFind ops t p of Some v \<Rightarrow> v + 1 | None \<Rightarrow> 1) t)"

definition viewOf :: "'u subscription \<Rightarrow> 'u subView" where
  "viewOf sub = \<lparr>sv_Prefix = sub_Prefix sub, sv_Paths = sub_Paths sub, sv_Encoding = sub_Encoding sub,
     sv_updatedList = sub_updatedList sub, sv_deletedList = sub_deletedList sub\<rparr>"

definition resetLists :: "('u, 32 word) trieOps \<Rightarrow> 'u subscription \<Rightarrow> 'u subscription" where
  "resetLists ops sub = sub\<lparr>sub_updatedList := tNew ops, sub_deletedList := tNew ops\<rparr>"

datatype phase = Running | Stuck bool | Quit | Crashed panic

text \<open>
  The state of the goroutine with what it shares: \<open>r_timer\<close> is the buffered channel \<open>timerExpired\<close>, \<open>r_queue\<close>
  the event queue, \<open>r_shutdown\<close> whether the session's channel is closed, \<open>r_syncs\<close> the number of state syncs
  it requested, and \<open>r_root\<close> the current tree.
\<close>

record ('u, 'tv) runState =
  r_phase :: phase
  r_sub :: "'u subscription"
  r_sampling :: bool
  r_heartbeat :: bool
  r_timer :: "bool list"
  r_queue :: "gval teleEvent list"
  r_qclosed :: bool
  r_ch :: "'tv respchan"
  r_shutdown :: bool
  r_root :: "gval option"
  r_cas :: clientAliases
  r_syncs :: nat

text \<open>What the loop does with the outcome of \<open>telemetryUpdate\<close>: reset the lists, or leave.\<close>

definition afterUpdate ::
    "('u, 32 word) trieOps \<Rightarrow> 'tv respchan \<times> (serr, unit) result \<Rightarrow> ('u, 'tv) runState \<Rightarrow> ('u, 'tv) runState" where
  "afterUpdate ops outcome st =
     (case outcome of
        (ch, Inr _) \<Rightarrow> st\<lparr>r_ch := ch, r_sub := resetLists ops (r_sub st)\<rparr>
      | (ch, Inl (Err e)) \<Rightarrow> st\<lparr>r_ch := ch, r_phase := Quit, r_sub := (r_sub st)\<lparr>sub_started := False\<rparr>\<rparr>
      | (ch, Inl (Panic p)) \<Rightarrow> st\<lparr>r_ch := ch, r_phase := Crashed p\<rparr>)"

definition countEvent :: "('u, 32 word) trieOps \<Rightarrow> gval teleEvent \<Rightarrow> 'u subscription \<Rightarrow> 'u subscription" where
  "countEvent ops event sub =
     sub\<lparr>sub_updatedList := countPaths ops (ev_updatedPath event) (sub_updatedList sub),
         sub_deletedList := countPaths ops (ev_deletedPath event) (sub_deletedList sub)\<rparr>"

definition onEvent ::
    "'tv modelEnv \<Rightarrow> ('u, 32 word) trieOps \<Rightarrow> (nat \<Rightarrow> int) \<Rightarrow> gval teleEvent \<Rightarrow> ('u, 'tv) runState \<Rightarrow> ('u, 'tv) runState" where
  "onEvent env ops clock event st =
     (let mode = c_StreamMode (sub_Configured (r_sub st)) in
      if mode = ON_CHANGE \<or> mode = SAMPLE then
        (let st1 = st\<lparr>r_sub := countEvent ops event (r_sub st)\<rparr> in
         if mode = ON_CHANGE then
           afterUpdate ops (telemetryUpdate env ops clock (r_cas st1) (r_root st1) (viewOf (r_sub st1)) (ev_updatedroot event) (r_ch st1)) st1
         else st1)
      else st)"

definition onExpired ::
    "'tv modelEnv \<Rightarrow> ('u, 32 word) trieOps \<Rightarrow> (nat \<Rightarrow> int) \<Rightarrow> bool \<Rightarrow> ('u, 'tv) runState \<Rightarrow> ('u, 'tv) runState" where
  "onExpired env ops clock sendUpdate st =
     (let sub = r_sub st;
          sendUpdate' = (if \<not> sendUpdate then
              \<not> c_SuppressRedundant (sub_Configured sub) \<or> tSize ops (sub_updatedList sub) > 0 \<or> tSize ops (sub_deletedList sub) > 0
            else True)
      in if sendUpdate' then
           afterUpdate ops (telemetryUpdate env ops clock (r_cas st) (r_root st) (viewOf sub) None (r_ch st)) st
         else st)"

text \<open>\<open>timerExpired <- b\<close>: the goroutine is the only reader, so a full channel stops it.\<close>

definition timerSend :: "bool \<Rightarrow> ('u, 'tv) runState \<Rightarrow> ('u, 'tv) runState" where
  "timerSend b st = (if length (r_timer st) < 2 then st\<lparr>r_timer := r_timer st @ [b]\<rparr> else st\<lparr>r_phase := Stuck b\<rparr>)"

definition quit :: "('u, 'tv) runState \<Rightarrow> ('u, 'tv) runState" where
  "quit st = st\<lparr>r_phase := Quit, r_sub := (r_sub st)\<lparr>sub_started := False\<rparr>\<rparr>"

datatype runLabel =
    Event | QueueClosed | SampleTick | HeartbeatTick | Expired | Shutdown
  | Enqueue "gval teleEvent" | CloseQueue | CloseResponses | CloseShutdown | NewTree "gval option"

text \<open>The cases of the \<open>select\<close>, and the steps of the session, the telemetry control block and the model.\<close>

inductive run_step ::
    "'tv modelEnv \<Rightarrow> ('u, 32 word) trieOps \<Rightarrow> (nat \<Rightarrow> int) \<Rightarrow> ('u, 'tv) runState \<Rightarrow> runLabel \<Rightarrow> ('u, 'tv) runState \<Rightarrow> bool"
  for env ops clock where
  event: "r_phase st = Running \<Longrightarrow> r_queue st = ev # q \<Longrightarrow>
     run_step env ops clock st Event (onEvent env ops clock ev (st\<lparr>r_queue := q\<rparr>))"
| queue_closed: "r_phase st = Running \<Longrightarrow> r_queue st = [] \<Longrightarrow> r_qclosed st \<Longrightarrow>
     run_step env ops clock st QueueClosed (quit st)"
| sample_tick: "r_phase st = Running \<Longrightarrow> r_sampling st \<Longrightarrow>
     run_step env ops clock st SampleTick
       (timerSend False (if sub_stateSync (r_sub st) then st\<lparr>r_syncs := r_syncs st + 1\<rparr> else st))"
| heartbeat_tick: "r_phase st = Running \<Longrightarrow> r_heartbeat st \<Longrightarrow>
     run_step env ops clock st HeartbeatTick (timerSend True st)"
| expired: "r_phase st = Running \<Longrightarrow> r_timer st = b # bs \<Longrightarrow>
     run_step env ops clock st Expired (onExpired env ops clock b (st\<lparr>r_timer := bs\<rparr>))"
| shutdown: "r_phase st = Running \<Longrightarrow> r_shutdown st \<Longrightarrow> run_step env ops clock st Shutdown (quit st)"
| enqueue: "\<not> r_qclosed st \<Longrightarrow> length (r_queue st) < 64 \<Longrightarrow>
     run_step env ops clock st (Enqueue ev) (st\<lparr>r_queue := r_queue st @ [ev]\<rparr>)"
| close_queue: "\<not> r_qclosed st \<Longrightarrow> run_step env ops clock st CloseQueue (st\<lparr>r_qclosed := True\<rparr>)"
| close_responses: "\<not> rc_closed (r_ch st) \<Longrightarrow>
     run_step env ops clock st CloseResponses (st\<lparr>r_ch := (r_ch st)\<lparr>rc_closed := True\<rparr>\<rparr>)"
| close_shutdown: "rc_closed (r_ch st) \<Longrightarrow> \<not> r_shutdown st \<Longrightarrow>
     run_step env ops clock st CloseShutdown (st\<lparr>r_shutdown := True\<rparr>)"
| new_tree: "run_step env ops clock st (NewTree r) (st\<lparr>r_root := r\<rparr>)"

inductive run_steps ::
    "'tv modelEnv \<Rightarrow> ('u, 32 word) trieOps \<Rightarrow> (nat \<Rightarrow> int) \<Rightarrow> ('u, 'tv) runState \<Rightarrow> runLabel list \<Rightarrow> ('u, 'tv) runState \<Rightarrow> bool"
  for env ops clock where
  run_none: "run_steps env ops clock st [] st"
| run_more: "run_step env ops clock st l st1 \<Longrightarrow> run_steps env ops clock st1 ls st2 \<Longrightarrow> run_steps env ops clock st (l # ls) st2"

inductive_cases run_step_EventE: "run_step env ops clock st Event st'"
inductive_cases run_step_EnqueueE: "run_step env ops clock st (Enqueue ev) st'"
inductive_cases run_step_SampleE: "run_step env ops clock st SampleTick st'"
inductive_cases run_steps_ConsE: "run_steps env ops clock st (l # ls) st'"
inductive_simps run_steps_Nil [simp]: "run_steps env ops clock st [] st'"
inductive_simps run_steps_Cons: "run_steps env ops clock st (l # ls) st'"

definition initial_run :: "'u subscription \<Rightarrow> 'tv respchan \<Rightarrow> gval option \<Rightarrow> clientAliases \<Rightarrow> (serr, ('u, 'tv) runState) result" where
  "initial_run sub ch root cas =
     (case run_start (sub_Configured sub) of
        Inl e \<Rightarrow> Inl e
      | Inr (sampling, heartbeat) \<Rightarrow>
          Ok \<lparr>r_phase = Running, r_sub = sub, r_sampling = sampling, r_heartbeat = heartbeat, r_timer = [], r_queue = [],
              r_qclosed = False, r_ch = ch, r_shutdown = False, r_root = root, r_cas = cas, r_syncs = 0\<rparr>)"

section \<open>The goroutine: lemmas\<close>

lemma afterUpdate_frame [simp]:
  "r_timer (afterUpdate ops o' st) = r_timer st" "r_sampling (afterUpdate ops o' st) = r_sampling st"
  "r_heartbeat (afterUpdate ops o' st) = r_heartbeat st"
  by (simp_all add: afterUpdate_def split: prod.split sum.split exn.split)

lemma afterUpdate_phase: "r_phase st = Running \<Longrightarrow> r_phase (afterUpdate ops o' st) \<noteq> Stuck b"
  by (auto simp: afterUpdate_def split: prod.splits sum.splits exn.splits)

lemma onEvent_frame: "r_timer (onEvent env ops clock ev st) = r_timer st \<and>
    (r_phase st = Running \<longrightarrow> r_phase (onEvent env ops clock ev st) \<noteq> Stuck b)"
  by (simp add: onEvent_def Let_def afterUpdate_phase)

lemma onExpired_frame: "r_timer (onExpired env ops clock b st) = r_timer st \<and>
    (r_phase st = Running \<longrightarrow> r_phase (onExpired env ops clock b st) \<noteq> Stuck b')"
  by (simp add: onExpired_def Let_def afterUpdate_phase)

definition timer_inv :: "('u, 'tv) runState \<Rightarrow> bool" where
  "timer_inv st = (length (r_timer st) \<le> 2 \<and> (\<forall>b. r_phase st = Stuck b \<longrightarrow> length (r_timer st) = 2))"

lemma run_step_timer_inv: "run_step env ops clock st l st' \<Longrightarrow> timer_inv st \<Longrightarrow> timer_inv st'"
proof (induction rule: run_step.induct)
  case (event st ev q)
  then show ?case using onEvent_frame [of env ops clock ev "st\<lparr>r_queue := q\<rparr>"] by (simp add: timer_inv_def)
next
  case (expired st b bs)
  then show ?case using onExpired_frame [of env ops clock b "st\<lparr>r_timer := bs\<rparr>"] by (simp add: timer_inv_def)
qed (auto simp: timer_inv_def quit_def timerSend_def)

lemma run_steps_timer_inv: "run_steps env ops clock st ls st' \<Longrightarrow> timer_inv st \<Longrightarrow> timer_inv st'"
  by (induction rule: run_steps.induct) (auto dest: run_step_timer_inv)

lemma stuck_step: "run_step env ops clock st l st' \<Longrightarrow> r_phase st = Stuck b \<Longrightarrow> r_phase st' = Stuck b"
  by (induction rule: run_step.induct) auto

lemma stuck_for_good: "run_steps env ops clock st ls st' \<Longrightarrow> r_phase st = Stuck b \<Longrightarrow> r_phase st' = Stuck b"
  by (induction rule: run_steps.induct) (auto dest: stuck_step)

section \<open>Keys\<close>

lemma dash_left:
  "a @ CHR ''-'' # x = b @ CHR ''-'' # y \<Longrightarrow> CHR ''-'' \<notin> set a \<Longrightarrow> CHR ''-'' \<notin> set b \<Longrightarrow> a = b \<and> x = y"
proof (induction a arbitrary: b)
  case Nil
  then show ?case by (cases b) auto
next
  case (Cons c a)
  then show ?case by (cases b) auto
qed

lemma dash_left_enum:
  assumes "a @ CHR ''-'' # x = b @ CHR ''-'' # y" "a \<noteq> []" "b \<noteq> []" "CHR ''-'' \<notin> set (tl a)" "CHR ''-'' \<notin> set (tl b)"
  shows "a = b \<and> x = y"
  using assms dash_left [of "tl a" x "tl b" y] by (cases a; cases b) auto

lemma dash_right:
  assumes "x @ CHR ''-'' # a = y @ CHR ''-'' # b" "CHR ''-'' \<notin> set a" "CHR ''-'' \<notin> set b"
  shows "x = y \<and> a = b"
proof -
  from arg_cong [OF assms(1), of rev] have "rev a @ CHR ''-'' # rev x = rev b @ CHR ''-'' # rev y" by simp
  with dash_left [OF this] assms(2,3) show ?thesis by simp
qed

lemma show_nat_no_dash: "CHR ''-'' \<notin> set (show_nat n)"
proof
  assume "CHR ''-'' \<in> set (show_nat n)"
  from show_nat_digits [OF this] show False by simp
qed

lemma show_bool_no_dash: "CHR ''-'' \<notin> set (show_bool b)" "show_bool b = show_bool b' \<Longrightarrow> b = b'"
  by (cases b; cases b'; simp add: show_bool_def)+

lemma show_int_tl: "CHR ''-'' \<notin> set (tl (show_int n))" "show_int n \<noteq> []"
proof -
  have "CHR ''-'' \<notin> set (tl (show_nat k))" for k using show_nat_no_dash [of k] list.set_sel(2) by (cases "show_nat k") auto
  then show "CHR ''-'' \<notin> set (tl (show_int n))" "show_int n \<noteq> []" using show_nat_no_dash by (auto simp: show_int_def)
qed

lemma show_int_inj: "show_int a = show_int b \<Longrightarrow> a = b"
proof -
  assume eq: "show_int a = show_int b"
  have h: "show_nat k \<noteq> CHR ''-'' # s" for k s using show_nat_no_dash [of k] by auto
  from eq h [of "nat a"] h [of "nat b"] show "a = b"
    by (auto simp: show_int_def dest: show_nat_inj split: if_splits) (metis h)+
qed

definition names_ok :: "(int \<times> string) list \<Rightarrow> bool" where
  "names_ok names = (distinct (map snd names) \<and> list_all (\<lambda>s. s \<noteq> [] \<and> CHR ''-'' \<notin> set s \<and> of_char (hd s) > (57 :: nat)) (map snd names))"

lemma names_ok_lists: "names_ok modeNames" "names_ok encodingNames" "names_ok streamModeNames"
  by (simp_all add: names_ok_def modeNames_def encodingNames_def streamModeNames_def)

lemma enumString_ok:
  assumes "names_ok names"
  shows "enumString names n \<noteq> []" "CHR ''-'' \<notin> set (tl (enumString names n))"
proof -
  have "s \<noteq> [] \<and> CHR ''-'' \<notin> set (tl s)" if "map_get names n = Some s" for s
    using that assms map_of_SomeD [OF that] by (cases s) (force simp: names_ok_def list_all_iff)+
  then show "enumString names n \<noteq> []" "CHR ''-'' \<notin> set (tl (enumString names n))"
    using show_int_tl [of n] by (auto simp: enumString_def split: option.splits)
qed

lemma show_int_head: "of_char (hd (show_int n)) \<le> (57 :: nat)"
proof -
  have "of_char (hd (show_nat k)) \<le> (57 :: nat)" for k
    using show_nat_digits [of "hd (show_nat k)" k] by simp
  then show ?thesis by (simp add: show_int_def)
qed

lemma enumString_inj:
  assumes "names_ok names" "enumString names a = enumString names b"
  shows "a = b"
proof -
  have name: "of_char (hd s) > (57 :: nat)" if "map_get names n = Some s" for n s
    using assms(1) map_of_SomeD [OF that] by (force simp: names_ok_def list_all_iff)
  have num: "of_char (hd (show_int n)) \<le> (57 :: nat)" for n by (rule show_int_head)
  show ?thesis
  proof (cases "map_get names a")
    case None
    with assms(2) num [of a] name [of b] show ?thesis
      by (auto simp: enumString_def split: option.splits dest: show_int_inj)
  next
    case (Some s)
    with assms(2) num [of b] name [of a] have "map_get names b = Some s"
      by (auto simp: enumString_def split: option.splits)
    with Some assms(1) show ?thesis
      by (fastforce simp: names_ok_def distinct_map inj_on_def dest!: map_of_SomeD)
  qed
qed

text \<open>The key is read from the left up to the prefix, and from the right down to it.\<close>

definition keyTail :: "streamParams \<Rightarrow> string" where
  "keyTail p = ToXPath (sp_prefix p) @ ''-'' @
     show_nat (unat (sp_SampleInterval p)) @ ''-'' @ show_nat (unat (sp_HeartbeatInterval p)) @ ''-'' @
     show_bool (sp_useAliases p) @ ''-'' @ show_bool (sp_allowAggregation p) @ ''-'' @ show_bool (sp_SuppressRedundant p)"

lemma keyTail_inj:
  assumes "keyTail p = keyTail q"
  shows "ToXPath (sp_prefix p) = ToXPath (sp_prefix q) \<and> sp_SampleInterval p = sp_SampleInterval q
    \<and> sp_HeartbeatInterval p = sp_HeartbeatInterval q \<and> sp_useAliases p = sp_useAliases q
    \<and> sp_allowAggregation p = sp_allowAggregation q \<and> sp_SuppressRedundant p = sp_SuppressRedundant q"
proof -
  note nd = show_nat_no_dash show_bool_no_dash(1)
  let ?n = "\<lambda>p. ToXPath (sp_prefix p) @ CHR ''-'' # show_nat (unat (sp_SampleInterval p))"
  let ?h = "\<lambda>p. ?n p @ CHR ''-'' # show_nat (unat (sp_HeartbeatInterval p))"
  let ?b = "\<lambda>p. ?h p @ CHR ''-'' # show_bool (sp_useAliases p)"
  let ?c = "\<lambda>p. ?b p @ CHR ''-'' # show_bool (sp_allowAggregation p)"
  from assms have "?c p @ CHR ''-'' # show_bool (sp_SuppressRedundant p) = ?c q @ CHR ''-'' # show_bool (sp_SuppressRedundant q)"
    by (simp add: keyTail_def)
  from dash_right [OF this nd(2) nd(2)] have 1: "?c p = ?c q" "show_bool (sp_SuppressRedundant p) = show_bool (sp_SuppressRedundant q)" by blast+
  from dash_right [OF 1(1) nd(2) nd(2)] have 2: "?b p = ?b q" "show_bool (sp_allowAggregation p) = show_bool (sp_allowAggregation q)" by blast+
  from dash_right [OF 2(1) nd(2) nd(2)] have 3: "?h p = ?h q" "show_bool (sp_useAliases p) = show_bool (sp_useAliases q)" by blast+
  from dash_right [OF 3(1) nd(1) nd(1)] have 4: "?n p = ?n q" "show_nat (unat (sp_HeartbeatInterval p)) = show_nat (unat (sp_HeartbeatInterval q))" by blast+
  from dash_right [OF 4(1) nd(1) nd(1)] have 5: "ToXPath (sp_prefix p) = ToXPath (sp_prefix q)"
    "show_nat (unat (sp_SampleInterval p)) = show_nat (unat (sp_SampleInterval q))" by blast+
  show ?thesis
    using 5(1) show_nat_inj [OF 5(2)] show_nat_inj [OF 4(2)]
      show_bool_no_dash(2) [OF 3(2)] show_bool_no_dash(2) [OF 2(2)] show_bool_no_dash(2) [OF 1(2)]
    by (simp add: word_unat_eq_iff)
qed

lemma subKey_inj:
  assumes "subKey i p = subKey j q"
  shows "i = j \<and> sp_Mode p = sp_Mode q \<and> sp_Encoding p = sp_Encoding q \<and> sp_StreamMode p = sp_StreamMode q \<and> keyTail p = keyTail q"
proof -
  note en = enumString_ok [OF names_ok_lists(1)] enumString_ok [OF names_ok_lists(2)] enumString_ok [OF names_ok_lists(3)]
  let ?s = "\<lambda>p. enumString streamModeNames (sp_StreamMode p) @ CHR ''-'' # keyTail p"
  let ?e = "\<lambda>p. enumString encodingNames (sp_Encoding p) @ CHR ''-'' # ?s p"
  let ?m = "\<lambda>p. enumString modeNames (sp_Mode p) @ CHR ''-'' # ?e p"
  from assms have "show_nat (unat i) @ CHR ''-'' # ?m p = show_nat (unat j) @ CHR ''-'' # ?m q"
    by (simp add: subKey_def keyTail_def)
  from dash_left [OF this show_nat_no_dash show_nat_no_dash] have i: "show_nat (unat i) = show_nat (unat j)" and m: "?m p = ?m q"
    by blast+
  from dash_left_enum [OF m en(1) en(1) en(2) en(2)] have m': "sp_Mode p = sp_Mode q" and e: "?e p = ?e q"
    using enumString_inj [OF names_ok_lists(1)] by blast+
  from dash_left_enum [OF e en(3) en(3) en(4) en(4)] have e': "sp_Encoding p = sp_Encoding q" and s: "?s p = ?s q"
    using enumString_inj [OF names_ok_lists(2)] by blast+
  from dash_left_enum [OF s en(5) en(5) en(6) en(6)] have "sp_StreamMode p = sp_StreamMode q" "keyTail p = keyTail q"
    using enumString_inj [OF names_ok_lists(3)] by blast+
  with show_nat_inj [OF i] m' e' show ?thesis by (simp add: word_unat_eq_iff)
qed

section \<open>Properties\<close>

lemma sint_pos: "0 < sint (w :: 64 word) \<longleftrightarrow> 0 < w \<and> w < 2 ^ 63"
proof -
  have u: "0 \<le> uint w" "uint w < 18446744073709551616" using uint_lt2p [of w] by simp_all
  have s: "sint w = (uint w + 9223372036854775808) mod 18446744073709551616 - 9223372036854775808"
    by (simp add: sint_uint signed_take_bit_eq_take_bit_shift take_bit_eq_mod)
  have "sint w = (if uint w < 9223372036854775808 then uint w else uint w - 18446744073709551616)"
  proof (cases "uint w < 9223372036854775808")
    case True
    then show ?thesis using u by (simp add: s)
  next
    case False
    then have "(uint w + 9223372036854775808) mod 18446744073709551616 = uint w + 9223372036854775808 - 18446744073709551616"
      using u by (intro int_mod_pos_eq [where q = 1]) auto
    with False show ?thesis by (simp add: s)
  qed
  with u show ?thesis by (auto simp: word_less_def)
qed

lemma newTickerPanics_iff: "newTickerPanics w \<longleftrightarrow> 2 ^ 63 \<le> w"
proof -
  have "newTickerPanics w \<longleftrightarrow> \<not> 0 < sint (if w > 0 then w else defaultInterval)"
    by (simp add: newTickerPanics_def not_less)
  then show ?thesis
    by (cases "w = 0") (auto simp: sint_pos word_neq_0_conv not_less defaultInterval_def)
qed

definition paramsOf :: "'u subscription \<Rightarrow> streamParams" where
  "paramsOf s = \<lparr>sp_prefix = sub_Prefix s, sp_useAliases = sub_UseAliases s, sp_Mode = sub_Mode s,
     sp_allowAggregation = sub_AllowAggregation s, sp_Encoding = sub_Encoding s, sp_StreamMode = sub_StreamMode s,
     sp_SampleInterval = sub_SampleInterval s, sp_SuppressRedundant = sub_SuppressRedundant s,
     sp_HeartbeatInterval = sub_HeartbeatInterval s\<rparr>"

definition subs_keyed :: "('u, 'tv) subSession \<Rightarrow> bool" where
  "subs_keyed ses = (\<forall>k s. map_get (ses_StreamSub ses) k = Some s \<longrightarrow> k = subKey (ses_ID ses) (paramsOf s))"

lemma paramsOf_new [simp]: "paramsOf (newSubscription t i sid p path st) = p"
  by (simp add: paramsOf_def newSubscription_def)

lemma paramsOf_update [simp]:
  "paramsOf (s\<lparr>sub_Configured := c\<rparr>) = paramsOf s" "paramsOf (s\<lparr>sub_Paths := ps, sub_stateSync := b\<rparr>) = paramsOf s"
  by (simp_all add: paramsOf_def)

lemma subs_keyed_put:
  "subs_keyed ses \<Longrightarrow> k = subKey (ses_ID ses) (paramsOf s) \<Longrightarrow>
     subs_keyed (ses\<lparr>ses_StreamSub := map_put k s (ses_StreamSub ses)\<rparr>)"
  by (auto simp: subs_keyed_def gomap_simps)

lemma newSubscription_fields [simp]:
  "sub_ID (newSubscription t i sid p path st) = i" "sub_Paths (newSubscription t i sid p path st) = [path]"
  "sub_StreamMode (newSubscription t i sid p path st) = sp_StreamMode p"
  "sub_SampleInterval (newSubscription t i sid p path st) = sp_SampleInterval p"
  "sub_SuppressRedundant (newSubscription t i sid p path st) = sp_SuppressRedundant p"
  "sub_HeartbeatInterval (newSubscription t i sid p path st) = sp_HeartbeatInterval p"
  "sub_Mode (newSubscription t i sid p path st) = sp_Mode p" "sub_Encoding (newSubscription t i sid p path st) = sp_Encoding p"
  "sub_Prefix (newSubscription t i sid p path st) = sp_prefix p" "sub_UseAliases (newSubscription t i sid p path st) = sp_useAliases p"
  "sub_AllowAggregation (newSubscription t i sid p path st) = sp_allowAggregation p"
  by (simp_all add: newSubscription_def)


definition exSession :: "((string, 32 word) gomap, string) subSession" where
  "exSession = \<lparr>ses_ID = 1, ses_Address = ''10.0.0.1'', ses_Port = 5000, ses_StreamSub = [], ses_PollSub = [],
     ses_respchan = exChan, ses_shutdown = False, ses_aliases = newClientAliases\<rparr>"

definition exParams :: "int \<Rightarrow> 64 word \<Rightarrow> streamParams" where
  "exParams mode sample = \<lparr>sp_prefix = Some exEth0, sp_useAliases = False, sp_Mode = 0, sp_allowAggregation = False, sp_Encoding = 4,
     sp_StreamMode = mode, sp_SampleInterval = sample, sp_SuppressRedundant = False, sp_HeartbeatInterval = 0\<rparr>"


text \<open>C34: A new subscription that is accepted has a sample interval of zero (exactly for \<open>ON_CHANGE\<close>) or at least
  one second, and a heartbeat interval of zero or at least one second and not below the sample
  interval. Its goroutine starts exactly if neither interval is \<open>2 ^ 63\<close> or more: beyond that the signed
  duration is negative and making the ticker panics.\<close>

theorem stream_intervals:
  assumes "map_get (ses_StreamSub ses) (subKey (ses_ID ses) p) = None" "sp_StreamMode p \<in> {TARGET_DEFINED, ON_CHANGE, SAMPLE}"
    "addStreamSubscription ops p path ss subID ses = (subID', ses', Ok key)"
  shows "\<exists>sub c. map_get (ses_StreamSub ses') key = Some sub \<and> sub_Configured sub = c
    \<and> (c_StreamMode c = ON_CHANGE \<and> c_SampleInterval c = 0 \<or> c_StreamMode c = SAMPLE \<and> minimumInterval \<le> c_SampleInterval c)
    \<and> (c_HeartbeatInterval c = 0 \<or> minimumInterval \<le> c_HeartbeatInterval c \<and> c_SampleInterval c \<le> c_HeartbeatInterval c)
    \<and> (no_panic (run_start c) \<longleftrightarrow> c_SampleInterval c < 2 ^ 63 \<and> c_HeartbeatInterval c < 2 ^ 63)"
proof -
  from assms(1,3) obtain c where c: "configure (sp_StreamMode p) (sp_SampleInterval p) (sp_SuppressRedundant p) (sp_HeartbeatInterval p) = Ok c"
    "map_get (ses_StreamSub ses') key = Some ((newSubscription (tNew ops) (subID + 1) (ses_ID ses) p path ss)\<lparr>sub_Configured := c\<rparr>)"
    by (auto simp: addStreamSubscription_def Let_def gomap_simps split: sum.splits)
  have "no_panic (run_start c) \<longleftrightarrow> c_SampleInterval c < 2 ^ 63 \<and> c_HeartbeatInterval c < 2 ^ 63"
    by (auto simp: run_start_def newTickerPanics_iff linorder_not_less [symmetric])
  moreover have "(c_StreamMode c = ON_CHANGE \<and> c_SampleInterval c = 0 \<or> c_StreamMode c = SAMPLE \<and> minimumInterval \<le> c_SampleInterval c)"
    "c_HeartbeatInterval c = 0 \<or> minimumInterval \<le> c_HeartbeatInterval c \<and> c_SampleInterval c \<le> c_HeartbeatInterval c"
    using c(1) assms(2) by (auto simp: configure_def defaultInterval_def minimumInterval_def not_less split: if_splits)
  ultimately show ?thesis using c(2) by auto
qed

theorem stream_intervals_witness:
  "\<exists>sub. map_get (ses_StreamSub (fst (snd (addStreamSubscription listTrie (exParams 2 9223372036854775808) None False 4 exSession)))) (subKey 1 (exParams 2 9223372036854775808)) = Some sub
     \<and> \<not> no_panic (run_start (sub_Configured sub))"
proof -
  let ?p = "exParams 2 9223372036854775808"
  have c: "configure 2 9223372036854775808 False 0 = Ok \<lparr>c_StreamMode = 2, c_SampleInterval = 9223372036854775808, c_SuppressRedundant = False, c_HeartbeatInterval = 0\<rparr>"
    by (simp add: configure_def minimumInterval_def)
  have fields: "sp_StreamMode ?p = 2" "sp_SampleInterval ?p = 9223372036854775808" "sp_SuppressRedundant ?p = False" "sp_HeartbeatInterval ?p = 0"
    "ses_StreamSub exSession = []" "ses_ID exSession = 1"
    by (simp_all add: exParams_def exSession_def)
  obtain i ses where a: "addStreamSubscription listTrie ?p None False 4 exSession = (i, ses, Ok (subKey 1 ?p))"
    by (simp add: addStreamSubscription_def Let_def fields c)
  then have "map_get (ses_StreamSub ses) (subKey 1 ?p) = Some ((newSubscription (tNew listTrie) 5 1 ?p None False)
      \<lparr>sub_Configured := \<lparr>c_StreamMode = 2, c_SampleInterval = 9223372036854775808, c_SuppressRedundant = False, c_HeartbeatInterval = 0\<rparr>\<rparr>)"
    by (auto simp: addStreamSubscription_def Let_def fields c)
  with stream_intervals [OF _ _ a] show ?thesis by (auto simp: a fields)
qed

text \<open>C35: The goroutine of a sampling subscription can stop for good. The channel \<open>timerExpired\<close> never holds more
  than two values, and a third tick that is served before they are read blocks the only reader; from
  then on nothing, not even the shutdown of the session, ends it.\<close>

theorem run_deadlocks:
  assumes "r_phase st = Running" "r_sampling st" "r_timer st = []"
  shows "\<exists>st'. run_steps env ops clock st [SampleTick, SampleTick, SampleTick] st' \<and> r_phase st' = Stuck False
    \<and> (\<forall>ls st''. run_steps env ops clock st' ls st'' \<longrightarrow> r_phase st'' = Stuck False \<and> length (r_timer st'') \<le> 2)"
proof -
  define tick where "tick st = timerSend False (if sub_stateSync (r_sub st) then st\<lparr>r_syncs := r_syncs st + 1\<rparr> else st)"
    for st :: "('a, 'b) runState"
  have step: "run_step env ops clock st SampleTick (tick st)" if "r_phase st = Running" "r_sampling st" for st :: "('a, 'b) runState"
    using sample_tick [OF that] by (simp add: tick_def)
  let ?a = "tick st" and ?b = "tick (tick st)" and ?c = "tick (tick (tick st))"
  have a: "r_phase ?a = Running" "r_sampling ?a" "r_timer ?a = [False]"
    using assms by (simp_all add: tick_def timerSend_def)
  have b: "r_phase ?b = Running" "r_sampling ?b" "r_timer ?b = [False, False]"
    using a by (simp_all add: tick_def [of ?a] timerSend_def)
  have c: "r_phase ?c = Stuck False" "timer_inv ?c"
    using b by (simp_all add: tick_def [of ?b] timerSend_def timer_inv_def)
  have "run_steps env ops clock st [SampleTick, SampleTick, SampleTick] ?c"
    using step assms a b by (blast intro: run_none run_more)
  then show ?thesis
    using c stuck_for_good run_steps_timer_inv unfolding timer_inv_def by blast
qed

definition exSub :: "(string, 32 word) gomap subscription" where
  "exSub = (newSubscription [] 5 1 (exParams 2 0) (Some (empty_gpath\<lparr>p_Elem := [mkElem ''name'' []]\<rparr>)) False)
     \<lparr>sub_Configured := \<lparr>c_StreamMode = 2, c_SampleInterval = minimumInterval, c_SuppressRedundant = False, c_HeartbeatInterval = 0\<rparr>\<rparr>"

definition exRun :: "((string, 32 word) gomap, string) runState" where
  "exRun = \<lparr>r_phase = Running, r_sub = exSub, r_sampling = True, r_heartbeat = False, r_timer = [], r_queue = [],
     r_qclosed = False, r_ch = exChan, r_shutdown = False, r_root = Some exRoot, r_cas = newClientAliases, r_syncs = 0\<rparr>"

theorem run_deadlocks_witness:
  "initial_run exSub exChan (Some exRoot) newClientAliases = Ok exRun
   \<and> (\<exists>st'. run_steps exEnv listTrie int exRun [SampleTick, SampleTick, SampleTick] st' \<and> r_phase st' = Stuck False)"
proof
  show "initial_run exSub exChan (Some exRoot) newClientAliases = Ok exRun"
    by (simp add: initial_run_def run_start_def newTickerPanics_iff exSub_def exRun_def minimumInterval_def)
  show "\<exists>st'. run_steps exEnv listTrie int exRun [SampleTick, SampleTick, SampleTick] st' \<and> r_phase st' = Stuck False"
    using run_deadlocks [of exRun exEnv listTrie int] by (auto simp: exRun_def)
qed

section \<open>The end of a session\<close>

text \<open>What an update would have sent makes it panic once the channel is closed.\<close>

lemma telemetryTops_closed:
  assumes "telemetryTops env ops clock sub prefixAlias toplist ch = (ch', Ok ())" "\<not> rc_closed ch" "rc_sent ch' \<noteq> rc_sent ch"
  shows "telemetryTops env ops clock sub prefixAlias toplist (ch\<lparr>rc_closed := True\<rparr>) = (ch\<lparr>rc_closed := True\<rparr>, Panics SendOnClosedChannel)"
  using assms
proof (induction env ops clock sub prefixAlias toplist ch rule: telemetryTops.induct)
  case (2 env ops clock sub prefixAlias tnode toplist ch)
  from 2(2) obtain deletes updates where tnode: "asGoStruct (d_Value tnode)"
      "getDeletes ops (sv_deletedList sub) (sv_updatedList sub) (d_Path tnode) False = Ok deletes"
      "pathUpdates env ops (Some (sv_updatedList sub)) (sv_Encoding sub) (sv_Prefix sub) (d_Value tnode) (sv_Paths sub) = Ok updates"
    by (auto split: if_splits sum.splits)
  define rs where "rs = buildSubscribeResponse (clock (length (rc_sent ch))) prefixAlias (Some updates) (Some deletes)"
  have send: "sendTelemetryUpdate rs ch = (Ok (ch\<lparr>rc_sent := rc_sent ch @ rs\<rparr>) :: (serr, _) result)"
    using 2(3) by (simp add: sendTelemetryUpdate_eq)
  show ?case
  proof (cases "rs = []")
    case True
    then have rest: "telemetryTops env ops clock sub prefixAlias toplist ch = (ch', Ok ())"
      using 2(2) tnode send by (simp flip: rs_def)
    have "telemetryTops env ops clock sub prefixAlias toplist (ch\<lparr>rc_closed := True\<rparr>)
        = (ch\<lparr>rc_closed := True\<rparr>, Panics SendOnClosedChannel)"
      using 2(1) [OF _ tnode(2,3) send [unfolded rs_def], folded rs_def] True rest 2(3,4) tnode(1) by simp
    with tnode True show ?thesis by (simp add: sendTelemetryUpdate_eq flip: rs_def)
  next
    case False
    with tnode show ?thesis by (simp add: sendTelemetryUpdate_eq flip: rs_def)
  qed
qed simp

lemma telemetryUpdate_closed:
  assumes "telemetryUpdate env ops clock cas root sub updatedroot ch = (ch', Ok ())" "\<not> rc_closed ch" "rc_sent ch' \<noteq> rc_sent ch"
  shows "telemetryUpdate env ops clock cas root sub updatedroot (ch\<lparr>rc_closed := True\<rparr>) = (ch\<lparr>rc_closed := True\<rparr>, Panics SendOnClosedChannel)"
  using assms telemetryTops_closed [of env ops clock sub _ _ ch ch']
  by (auto simp: telemetryUpdate_def Let_def split: sum.splits prod.splits if_splits)

text \<open>C37: The end of a session can crash the server. \<open>stopSubSession\<close> closes the channel of responses before it closes
  \<open>shutdown\<close>. If an expired timer of a subscription is still to be served, and its update would send something, the
  goroutine may serve it between the two, or even after both, and then sends on the closed channel.\<close>

theorem closed_channel_crash:
  assumes "r_phase st = Running" "r_timer st = b # bs" "\<not> rc_closed (r_ch st)" "\<not> r_shutdown st"
    and "b \<or> \<not> c_SuppressRedundant (sub_Configured (r_sub st))"
    and "telemetryUpdate env ops clock (r_cas st) (r_root st) (viewOf (r_sub st)) None (r_ch st) = (ch', Ok ())"
    and "rc_sent ch' \<noteq> rc_sent (r_ch st)"
  shows "(\<exists>st'. run_steps env ops clock st [CloseResponses, Expired, CloseShutdown] st' \<and> r_phase st' = Crashed SendOnClosedChannel)
    \<and> (\<exists>st'. run_steps env ops clock st [CloseResponses, CloseShutdown, Expired] st' \<and> r_phase st' = Crashed SendOnClosedChannel)"
proof -
  let ?a = "st\<lparr>r_ch := (r_ch st)\<lparr>rc_closed := True\<rparr>\<rparr>"
  let ?b = "?a\<lparr>r_shutdown := True\<rparr>"
  have crash: "onExpired env ops clock b (s\<lparr>r_timer := bs\<rparr>) = s\<lparr>r_timer := bs, r_phase := Crashed SendOnClosedChannel\<rparr>"
    if "s \<in> {?a, ?b}" for s
    using that assms(5) telemetryUpdate_closed [OF assms(6,3,7)] by (auto simp: onExpired_def afterUpdate_def Let_def)
  have close: "run_step env ops clock st CloseResponses ?a" by (rule close_responses) (rule assms(3))
  have "run_step env ops clock ?a Expired (?a\<lparr>r_timer := bs, r_phase := Crashed SendOnClosedChannel\<rparr>)"
    using expired [of ?a b bs env ops clock] assms(1,2) crash [of ?a] by simp
  moreover have "run_step env ops clock (?a\<lparr>r_timer := bs, r_phase := Crashed SendOnClosedChannel\<rparr>) CloseShutdown
      (?a\<lparr>r_timer := bs, r_phase := Crashed SendOnClosedChannel, r_shutdown := True\<rparr>)"
    using close_shutdown [of "?a\<lparr>r_timer := bs, r_phase := Crashed SendOnClosedChannel\<rparr>" env ops clock] assms(4) by simp
  moreover have "run_step env ops clock ?a CloseShutdown ?b"
    by (rule close_shutdown) (use assms(4) in simp_all)
  moreover have "run_step env ops clock ?b Expired (?b\<lparr>r_timer := bs, r_phase := Crashed SendOnClosedChannel\<rparr>)"
    using expired [of ?b b bs env ops clock] assms(1,2) crash [of ?b] by simp
  ultimately show ?thesis
    using close unfolding run_steps_Cons run_steps_Nil by fastforce
qed

theorem closed_channel_crash_witness:
  "\<exists>st'. run_steps exEnv listTrie int (exRun\<lparr>r_timer := [False]\<rparr>) [CloseResponses, CloseShutdown, Expired] st'
    \<and> r_phase st' = Crashed SendOnClosedChannel"
proof -
  have "snd (telemetryUpdate exEnv listTrie int newClientAliases (Some exRoot) (viewOf exSub) None exChan) = Ok ()
      \<and> rc_sent (fst (telemetryUpdate exEnv listTrie int newClientAliases (Some exRoot) (viewOf exSub) None exChan)) \<noteq> rc_sent exChan"
    by code_simp
  then show ?thesis
    using closed_channel_crash [of "exRun\<lparr>r_timer := [False]\<rparr>" False "[]" exEnv listTrie int
        "fst (telemetryUpdate exEnv listTrie int newClientAliases (Some exRoot) (viewOf exSub) None exChan)"]
    by (auto simp: exRun_def exSub_def exChan_def prod_eq_iff)
qed

end
