(* ===== verification/StateSync.thy ===== *)
theory StateSync
  imports Responses
begin

text \<open>
  State synchronisation before a read, \<open>gnmi/model/get.go\<close>: which data paths the system is asked to refresh.
  Schema entries are pointers here, because the table \<open>stateSyncPath\<close> is keyed by them; \<open>'p\<close> is the type of
  the pointers. The tries of data paths are shared between entries, so they are held in a store and
  known by their number.
\<close>

section \<open>State\<close>

datatype 'p ptrTree = PNode 'p "'p ptrTree list"

text \<open>
  The pointer that \<open>FindSchemaByXPath\<close> returns for a path, the chain of its \<open>Parent\<close> pointers, and the
  entries below it, through \<open>Dir\<close>.
\<close>

record 'p schemaPtrs =
  sc_find :: "string \<Rightarrow> 'p option"
  sc_parents :: "'p \<Rightarrow> 'p list"
  sc_below :: "'p \<Rightarrow> 'p ptrTree list"

record stateSyncCtrl =
  pathtrees :: "nat list"
  syncRequired :: bool

text \<open>\<open>syncTable\<close> is nil without a \<open>StateSync\<close> callback.\<close>

record ('p, 't, 's) stateSyncs =
  stateSyncPath :: "('p, stateSyncCtrl) gomap"
  stateSyncSchemaPath :: 's
  trees :: "'t list"

section \<open>Construction\<close>

definition addTree :: "nat \<Rightarrow> 'p \<Rightarrow> ('p, stateSyncCtrl) gomap \<Rightarrow> ('p, stateSyncCtrl) gomap" where
  "addTree n e tab =
     (let c = (case map_get tab e of None \<Rightarrow> \<lparr>pathtrees = [], syncRequired = False\<rparr> | Some c \<Rightarrow> c) in
      map_put e (c\<lparr>pathtrees := pathtrees c @ [n]\<rparr>) tab)"

fun addStateSyncSchema :: "nat \<Rightarrow> 'p ptrTree list \<Rightarrow> ('p, stateSyncCtrl) gomap \<Rightarrow> ('p, stateSyncCtrl) gomap" where
  "addStateSyncSchema n [] tab = tab"
| "addStateSyncSchema n (PNode e below # rest) tab =
     addStateSyncSchema n rest (addStateSyncSchema n below (addTree n e tab))"

fun initStateSync_loop ::
    "'p schemaPtrs \<Rightarrow> ('t, bool) trieOps \<Rightarrow> ('s, nat) trieOps \<Rightarrow> string list \<Rightarrow> ('p, 't, 's) stateSyncs \<Rightarrow> ('p, 't, 's) stateSyncs" where
  "initStateSync_loop sc tops sops [] m = m"
| "initStateSync_loop sc tops sops (p # ps) m =
     (case sc_find sc p of
        None \<Rightarrow> initStateSync_loop sc tops sops ps m
      | Some entry \<Rightarrow>
          (let n = length (trees m);
               tab1 = map_put entry \<lparr>pathtrees = [n], syncRequired = True\<rparr> (stateSyncPath m);
               tab2 = fold (addTree n) (sc_parents sc entry) tab1;
               tab3 = addStateSyncSchema n (sc_below sc entry) tab2
           in initStateSync_loop sc tops sops ps
                (m\<lparr>stateSyncPath := tab3, stateSyncSchemaPath := tAdd sops p n (stateSyncSchemaPath m), trees := trees m @ [tNew tops]\<rparr>)))"

text \<open>\<open>None\<close> is a model without the callback; otherwise the paths that \<open>UpdateSyncPath\<close> returns.\<close>

definition initStateSync ::
    "'p schemaPtrs \<Rightarrow> ('t, bool) trieOps \<Rightarrow> ('s, nat) trieOps \<Rightarrow> string list option \<Rightarrow> ('p, 't, 's) stateSyncs option" where
  "initStateSync sc tops sops updateSyncPath =
     (case updateSyncPath of
        None \<Rightarrow> None
      | Some ps \<Rightarrow> Some (initStateSync_loop sc tops sops ps \<lparr>stateSyncPath = [], stateSyncSchemaPath = tNew sops, trees = []\<rparr>))"

text \<open>\<open>addStateSyncPath\<close> and \<open>deleteStateSyncPath\<close>: the first trie of the entry, if it is a sync path itself.\<close>

definition changeFirstTree ::
    "('t \<Rightarrow> 't) \<Rightarrow> 'p option \<Rightarrow> ('p, 't, 's) stateSyncs option \<Rightarrow> (serr, ('p, 't, 's) stateSyncs option) result" where
  "changeFirstTree f entry sy =
     (case (sy, entry) of
        (Some m, Some e) \<Rightarrow>
          (case map_get (stateSyncPath m) e of
             None \<Rightarrow> Ok sy
           | Some c \<Rightarrow>
               if syncRequired c then
                 (case pathtrees c of
                    [] \<Rightarrow> Panics IndexOutOfRange
                  | n # _ \<Rightarrow> Ok (Some (m\<lparr>trees := (trees m)[n := f (trees m ! n)]\<rparr>)))
               else Ok sy)
      | _ \<Rightarrow> Ok sy)"

definition addStateSyncPath where
  "addStateSyncPath tops entry path sy = changeFirstTree (tAdd tops path True) entry sy"

definition deleteStateSyncPath where
  "deleteStateSyncPath tops entry path sy = changeFirstTree (tRemove tops path) entry sy"

section \<open>Requests\<close>

definition treeKeys :: "('t, bool) trieOps \<Rightarrow> ('p, 't, 's) stateSyncs \<Rightarrow> string \<Rightarrow> nat \<Rightarrow> string list" where
  "treeKeys tops m key n = map fst (tFindAll tops (trees m ! n) key)"

text \<open>The paths for one schema path \<open>sp\<close> (a path without keys, or with wildcard keys only).\<close>

definition schemaSync :: "('t, bool) trieOps \<Rightarrow> ('s, nat) trieOps \<Rightarrow> ('p, 't, 's) stateSyncs \<Rightarrow> string \<Rightarrow> string list" where
  "schemaSync tops sops m sp = concat (map (\<lambda>(_, n). treeKeys tops m [] n) (tFindAll sops (stateSyncSchemaPath m) sp))"

definition dataSync :: "'p schemaPtrs \<Rightarrow> ('t, bool) trieOps \<Rightarrow> ('p, 't, 's) stateSyncs \<Rightarrow> string \<Rightarrow> string list" where
  "dataSync sc tops m sp =
     (case sc_find sc sp of
        None \<Rightarrow> []
      | Some entry \<Rightarrow>
          (case map_get (stateSyncPath m) entry of
             None \<Rightarrow> []
           | Some c \<Rightarrow> concat (map (treeKeys tops m sp) (pathtrees c))))"

fun syncPaths ::
    "(gpath \<Rightarrow> gpath) \<Rightarrow> schemaModel \<Rightarrow> 'p schemaPtrs \<Rightarrow> ('t, bool) trieOps \<Rightarrow> ('s, nat) trieOps \<Rightarrow> ('p, 't, 's) stateSyncs
     \<Rightarrow> gpath option \<Rightarrow> gpath option list \<Rightarrow> (serr, string list) result" where
  "syncPaths clone sm sc tops sops m prefix [] = Ok []"
| "syncPaths clone sm sc tops sops m prefix (path # paths) =
     (case GNMIFullPath clone prefix path of
        Inl e \<Rightarrow> Inl e
      | Inr fullpath \<Rightarrow>
          (let strpath = FindPaths sm fullpath;
               found = concat (map (if IsSchemaPath fullpath then schemaSync tops sops m else dataSync sc tops m) strpath)
           in case syncPaths clone sm sc tops sops m prefix paths of
                Inl e \<Rightarrow> Inl e
              | Inr rest \<Rightarrow> Ok (found @ rest)))"

text \<open>The result is the list given to \<open>UpdateSync\<close>; an empty one is not given, and the function returns false.\<close>

definition RequestStateSync ::
    "(gpath \<Rightarrow> gpath) \<Rightarrow> schemaModel \<Rightarrow> 'p schemaPtrs \<Rightarrow> ('t, bool) trieOps \<Rightarrow> ('s, nat) trieOps \<Rightarrow> ('p, 't, 's) stateSyncs option
     \<Rightarrow> gpath option \<Rightarrow> gpath option list \<Rightarrow> (serr, string list) result" where
  "RequestStateSync clone sm sc tops sops sy prefix paths =
     (case sy of None \<Rightarrow> Ok [] | Some m \<Rightarrow> syncPaths clone sm sc tops sops m prefix paths)"

text \<open>
  The variant for subscription lists: its inner loop counts with an \<open>i\<close> of its own, which is then the
  index into \<open>strpath\<close> as well.
\<close>

fun dataSync_shadowed ::
    "('t, bool) trieOps \<Rightarrow> ('p, 't, 's) stateSyncs \<Rightarrow> string list \<Rightarrow> nat list \<Rightarrow> nat \<Rightarrow> (serr, string list) result" where
  "dataSync_shadowed tops m strpath [] i = Ok []"
| "dataSync_shadowed tops m strpath (n # ns) i =
     (case index_at strpath i of
        Inl e \<Rightarrow> Inl e
      | Inr sp \<Rightarrow>
          (case dataSync_shadowed tops m strpath ns (Suc i) of
             Inl e \<Rightarrow> Inl e
           | Inr rest \<Rightarrow> Ok (treeKeys tops m sp n @ rest)))"

fun dataSync_list ::
    "'p schemaPtrs \<Rightarrow> ('t, bool) trieOps \<Rightarrow> ('p, 't, 's) stateSyncs \<Rightarrow> string list \<Rightarrow> string list \<Rightarrow> (serr, string list) result" where
  "dataSync_list sc tops m strpath [] = Ok []"
| "dataSync_list sc tops m strpath (sp # sps) =
     (case (case sc_find sc sp of
              None \<Rightarrow> Ok []
            | Some entry \<Rightarrow>
                (case map_get (stateSyncPath m) entry of
                   None \<Rightarrow> Ok []
                 | Some c \<Rightarrow> dataSync_shadowed tops m strpath (pathtrees c) 0)) of
        Inl e \<Rightarrow> Inl e
      | Inr found \<Rightarrow>
          (case dataSync_list sc tops m strpath sps of
             Inl e \<Rightarrow> Inl e
           | Inr rest \<Rightarrow> Ok (found @ rest)))"

fun syncPaths_list ::
    "(gpath \<Rightarrow> gpath) \<Rightarrow> schemaModel \<Rightarrow> 'p schemaPtrs \<Rightarrow> ('t, bool) trieOps \<Rightarrow> ('s, nat) trieOps \<Rightarrow> ('p, 't, 's) stateSyncs
     \<Rightarrow> gpath option \<Rightarrow> gpath option list \<Rightarrow> (serr, string list) result" where
  "syncPaths_list clone sm sc tops sops m prefix [] = Ok []"
| "syncPaths_list clone sm sc tops sops m prefix (path # paths) =
     (case GNMIFullPath clone prefix path of
        Inl e \<Rightarrow> Inl e
      | Inr fullpath \<Rightarrow>
          (let strpath = FindPaths sm fullpath in
           case (if IsSchemaPath fullpath then Ok (concat (map (schemaSync tops sops m) strpath))
                 else dataSync_list sc tops m strpath strpath) of
             Inl e \<Rightarrow> Inl e
           | Inr found \<Rightarrow>
               (case syncPaths_list clone sm sc tops sops m prefix paths of
                  Inl e \<Rightarrow> Inl e
                | Inr rest \<Rightarrow> Ok (found @ rest))))"

definition RequestStateSyncBySubscriptionList ::
    "(gpath \<Rightarrow> gpath) \<Rightarrow> schemaModel \<Rightarrow> 'p schemaPtrs \<Rightarrow> ('t, bool) trieOps \<Rightarrow> ('s, nat) trieOps \<Rightarrow> ('p, 't, 's) stateSyncs option
     \<Rightarrow> subscriptionList \<Rightarrow> (serr, string list) result" where
  "RequestStateSyncBySubscriptionList clone sm sc tops sops sy sl =
     (case sy of
        None \<Rightarrow> Ok []
      | Some m \<Rightarrow> syncPaths_list clone sm sc tops sops m (sl_Prefix sl) (map sm_Path (sl_Subscription sl)))"

section \<open>Lemmas\<close>

lemma addTree_trees:
  "map_get (addTree n e tab) e' = (if e' = e then Some (case map_get tab e of
       None \<Rightarrow> \<lparr>pathtrees = [n], syncRequired = False\<rparr> | Some c \<Rightarrow> c\<lparr>pathtrees := pathtrees c @ [n]\<rparr>) else map_get tab e')"
  by (simp add: addTree_def Let_def gomap_simps split: option.split)

text \<open>Every entry of the table has a trie, and every trie it names exists.\<close>

definition table_ok :: "nat \<Rightarrow> ('p, stateSyncCtrl) gomap \<Rightarrow> bool" where
  "table_ok k tab = (\<forall>e c. map_get tab e = Some c \<longrightarrow> pathtrees c \<noteq> [] \<and> (\<forall>n \<in> set (pathtrees c). n < k))"

lemma table_ok_addTree: "table_ok k tab \<Longrightarrow> n < k \<Longrightarrow> table_ok k (addTree n e tab)"
  by (fastforce simp: table_ok_def addTree_trees split: option.splits if_splits)

lemma table_ok_parents: "table_ok k tab \<Longrightarrow> n < k \<Longrightarrow> table_ok k (fold (addTree n) es tab)"
  by (induction es arbitrary: tab) (auto simp: table_ok_addTree)

lemma table_ok_below: "table_ok k tab \<Longrightarrow> n < k \<Longrightarrow> table_ok k (addStateSyncSchema n ts tab)"
  by (induction n ts tab rule: addStateSyncSchema.induct) (auto simp: table_ok_addTree)

lemma table_ok_new: "table_ok k tab \<Longrightarrow> n < k' \<Longrightarrow> k \<le> k' \<Longrightarrow> table_ok k' (map_put e \<lparr>pathtrees = [n], syncRequired = b\<rparr> tab)"
  by (fastforce simp: table_ok_def gomap_simps split: if_splits)

lemma initStateSync_table:
  "table_ok (length (trees m)) (stateSyncPath m) \<Longrightarrow>
   table_ok (length (trees (initStateSync_loop sc tops sops ps m))) (stateSyncPath (initStateSync_loop sc tops sops ps m))"
proof (induction ps arbitrary: m)
  case (Cons p ps)
  then show ?case
    by (cases "sc_find sc p") (simp_all add: Let_def table_ok_below table_ok_parents table_ok_new)
qed simp

lemma dataSync_shadowed_first:
  "strpath = [sp] \<Longrightarrow> dataSync_shadowed tops m strpath ns 0 =
     (case ns of [] \<Rightarrow> Ok [] | [n] \<Rightarrow> Ok (treeKeys tops m sp n) | _ \<Rightarrow> Panics IndexOutOfRange)"
  by (auto simp: index_at_def split: list.splits)

section \<open>Properties\<close>

text \<open>For a subscription to one data path, the two requests ask for the same paths if at most one sync path
  covers its entry. If two or more do, the request for a \<open>Get\<close> collects the paths of all of them, and
  the one for a subscription indexes out of range and panics.\<close>

lemma subscription_sync:
  assumes "GNMIFullPath clone (sl_Prefix sl) (sm_Path s) = (Ok full :: (serr, gpath option) result)" "sl_Subscription sl = [s]"
    "\<not> IsSchemaPath full" "FindPaths sm full = [sp]" "sc_find sc sp = Some e" "map_get (stateSyncPath m) e = Some c"
  shows "RequestStateSync clone sm sc tops sops (Some m) (sl_Prefix sl) [sm_Path s] = Ok (concat (map (treeKeys tops m sp) (pathtrees c)))
    \<and> RequestStateSyncBySubscriptionList clone sm sc tops sops (Some m) sl =
        (if length (pathtrees c) \<le> 1 then Ok (concat (map (treeKeys tops m sp) (pathtrees c))) else Panics IndexOutOfRange)"
  using assms
  by (auto simp: RequestStateSync_def RequestStateSyncBySubscriptionList_def dataSync_def dataSync_shadowed_first Let_def
      split: list.splits)

definition exPtrs :: "nat schemaPtrs" where
  "exPtrs = \<lparr>sc_find = (\<lambda>s. if s = ''/interface'' then Some 1
       else if s = ''/interface/name'' \<or> s = ''/interface[name=eth0]/name'' then Some 2 else None),
     sc_parents = (\<lambda>p. if p = 2 then [1, 0] else if p = 1 then [0] else []),
     sc_below = (\<lambda>p. if p = 0 then [PNode 1 [PNode 2 []]] else if p = 1 then [PNode 2 []] else [])\<rparr>"

definition exSyncs :: "(nat, (string, bool) gomap, (string, nat) gomap) stateSyncs" where
  "exSyncs = initStateSync_loop exPtrs listTrie listTrie [''/interface/name'', ''/interface'']
     \<lparr>stateSyncPath = [], stateSyncSchemaPath = [], trees = []\<rparr>"

lemma subscription_sync_witness:
  "initStateSync exPtrs listTrie listTrie (Some [''/interface/name'', ''/interface'']) = Some exSyncs
   \<and> RequestStateSyncBySubscriptionList id exModel exPtrs listTrie listTrie (Some exSyncs) exList = Panics IndexOutOfRange"
proof
  show "initStateSync exPtrs listTrie listTrie (Some [''/interface/name'', ''/interface'']) = Some exSyncs"
    by (simp add: initStateSync_def exSyncs_def listTrie_def)
  have "GNMIFullPath id (sl_Prefix exList) (sm_Path (hd (sl_Subscription exList))) = (Ok (Some exPath) :: (serr, gpath option) result)"
    by code_simp
  moreover have "sl_Subscription exList = [hd (sl_Subscription exList)]" by (simp add: exList_def)
  moreover have "\<not> IsSchemaPath (Some exPath)" by code_simp
  moreover have "FindPaths exModel (Some exPath) = [''/interface[name=eth0]/name'']" by code_simp
  moreover have "sc_find exPtrs ''/interface[name=eth0]/name'' = Some 2" by (simp add: exPtrs_def)
  moreover have "map_get (stateSyncPath exSyncs) 2 = Some \<lparr>pathtrees = [0, 1], syncRequired = True\<rparr>" by code_simp
  ultimately show "RequestStateSyncBySubscriptionList id exModel exPtrs listTrie listTrie (Some exSyncs) exList = Panics IndexOutOfRange"
    using subscription_sync [of id exList "hd (sl_Subscription exList)" "Some exPath" exModel "''/interface[name=eth0]/name''" exPtrs 2 exSyncs
        "\<lparr>pathtrees = [0, 1], syncRequired = True\<rparr>" listTrie listTrie] by simp
qed

text \<open>The order of nested sync paths matters: a path initialised after one above it loses that one's trie.\<close>

lemma nested_sync_lost:
  "map_get (stateSyncPath (initStateSync_loop exPtrs listTrie listTrie [''/interface'', ''/interface/name'']
     \<lparr>stateSyncPath = [], stateSyncSchemaPath = [], trees = [] :: (string, bool) gomap list\<rparr>)) 2 = Some \<lparr>pathtrees = [1], syncRequired = True\<rparr>"
  by code_simp

end
