(* ===== verification/Session.thy ===== *)
theory Session
  imports Status
begin

text \<open>
  The sessions of the gNMI server, \<open>gnmi/server/session.go\<close>, the connections that announce them,
  \<open>utilities/netsession/netsession.go\<close>, and the metadata of a request, \<open>utilities/grpc.go\<close>.
\<close>

section \<open>strconv.ParseUint\<close>

text \<open>
  \<open>ParseUint(s, 0, bits)\<close>, its value without the error, \<open>limit\<close> being the largest value of that many bits: 0 for a syntax error, the largest value for one
  out of range. Base 0 reads a prefix \<open>0b\<close>, \<open>0o\<close>, \<open>0x\<close> or \<open>0\<close> and lets underscores separate digits.
\<close>

definition charCode :: "char \<Rightarrow> nat" where
  "charCode c = of_char c"

definition lowerCase :: "char \<Rightarrow> nat" where
  "lowerCase c = (if 65 \<le> charCode c \<and> charCode c \<le> 90 then charCode c + 32 else charCode c)"

definition digitValue :: "char \<Rightarrow> nat option" where
  "digitValue c =
     (if 48 \<le> charCode c \<and> charCode c \<le> 57 then Some (charCode c - 48)
      else if 97 \<le> lowerCase c \<and> lowerCase c \<le> 122 then Some (lowerCase c - 97 + 10)
      else None)"

definition basePrefix :: "string \<Rightarrow> nat \<times> string" where
  "basePrefix s =
     (case s of
        c # rest \<Rightarrow>
          if c \<noteq> CHR ''0'' then (10, s)
          else (case rest of
                  d # e # _ \<Rightarrow>
                    if lowerCase d = 98 then (2, tl rest)
                    else if lowerCase d = 111 then (8, tl rest)
                    else if lowerCase d = 120 then (16, tl rest)
                    else (8, rest)
                | _ \<Rightarrow> (8, rest))
      | [] \<Rightarrow> (10, []))"

datatype parsed = SyntaxError | RangeError | Value nat

fun parseDigits :: "nat \<Rightarrow> nat \<Rightarrow> string \<Rightarrow> nat \<Rightarrow> parsed" where
  "parseDigits base limit [] n = Value n"
| "parseDigits base limit (c # cs) n =
     (if c = CHR ''_'' then parseDigits base limit cs n
      else
        (case digitValue c of
           None \<Rightarrow> SyntaxError
         | Some d \<Rightarrow>
             if d \<ge> base then SyntaxError
             else if n * base + d > limit then RangeError
             else parseDigits base limit cs (n * base + d)))"

text \<open>\<open>underscoreOK\<close>: what was last seen is a digit or base prefix, an underscore, or anything else.\<close>

datatype seen = SeenStart | SeenDigit | SeenUnderscore | SeenOther

fun underscores :: "bool \<Rightarrow> seen \<Rightarrow> string \<Rightarrow> bool" where
  "underscores hex i [] = (i \<noteq> SeenUnderscore)"
| "underscores hex i (c # cs) =
     (if (48 \<le> charCode c \<and> charCode c \<le> 57) \<or> (hex \<and> 97 \<le> lowerCase c \<and> lowerCase c \<le> 102)
      then underscores hex SeenDigit cs
      else if c = CHR ''_'' then i = SeenDigit \<and> underscores hex SeenUnderscore cs
      else i \<noteq> SeenUnderscore \<and> underscores hex SeenOther cs)"

definition underscoreOK :: "string \<Rightarrow> bool" where
  "underscoreOK s =
     (case s of
        c # d # rest \<Rightarrow>
          if c = CHR ''0'' \<and> (lowerCase d = 98 \<or> lowerCase d = 111 \<or> lowerCase d = 120)
          then underscores (lowerCase d = 120) SeenDigit rest
          else underscores False SeenStart s
      | _ \<Rightarrow> underscores False SeenStart s)"

definition ParseUint :: "nat \<Rightarrow> string \<Rightarrow> nat" where
  "ParseUint limit s =
     (case basePrefix s of (base, digits) \<Rightarrow>
        (case parseDigits base limit digits 0 of
           SyntaxError \<Rightarrow> 0
         | RangeError \<Rightarrow> limit
         | Value n \<Rightarrow> if CHR ''_'' \<in> set digits \<and> \<not> underscoreOK s then 0 else n))"

definition ParseUint16 :: "string \<Rightarrow> nat" where
  "ParseUint16 s = ParseUint 65535 s"

section \<open>Metadata of a request\<close>

text \<open>
  A context: the incoming metadata (\<open>None\<close> where there is none) and the peer, with the network and the
  text of its address.
\<close>

record peer =
  peer_Network :: string
  peer_Addr :: string

record rpcContext =
  cx_headers :: "(string, string list) gomap option"
  cx_peer :: "peer option"

text \<open>\<open>strings.Trim(k, ":")\<close>.\<close>

definition trimColons :: "string \<Rightarrow> string" where
  "trimColons k = rev (dropWhile (\<lambda>c. c = CHR '':'') (rev (dropWhile (\<lambda>c. c = CHR '':'') k)))"

fun copyHeaders :: "(string, string list) gomap \<Rightarrow> (string, string) gomap \<Rightarrow> ('e, (string, string) gomap) result" where
  "copyHeaders [] m = Ok m"
| "copyHeaders ((k, v) # headers) m =
     (case v of
        [] \<Rightarrow> Panics IndexOutOfRange
      | x # _ \<Rightarrow> copyHeaders headers (map_put (trimColons k) x m))"

text \<open>\<open>a[:index]\<close> and \<open>a[index+1:]\<close> for \<open>index := strings.LastIndex(a, ":")\<close>, which is -1 without a colon.\<close>

definition addrHost :: "string \<Rightarrow> ('e, string) result" where
  "addrHost a = (case LastIndexByte a CHR '':'' of None \<Rightarrow> Panics SliceBoundsOutOfRange | Some i \<Rightarrow> slice a 0 i)"

definition addrPort :: "string \<Rightarrow> ('e, string) result" where
  "addrPort a = (case LastIndexByte a CHR '':'' of None \<Rightarrow> slice a 0 (length a) | Some i \<Rightarrow> slice a (i + 1) (length a))"

definition GetMetadata :: "rpcContext \<Rightarrow> ('e, (string, string) gomap \<times> bool) result" where
  "GetMetadata ctx =
     (case cx_headers ctx of
        None \<Rightarrow> Ok ([], False)
      | Some headers \<Rightarrow>
          (case copyHeaders headers [] of
             Inl e \<Rightarrow> Inl e
           | Inr m \<Rightarrow>
               (case cx_peer ctx of
                  None \<Rightarrow> Ok (m, True)
                | Some p \<Rightarrow>
                    (let m1 = map_put ''peer'' (peer_Addr p) (map_put ''protocol'' (peer_Network p) m) in
                     case addrHost (peer_Addr p) of
                       Inl e \<Rightarrow> Inl e
                     | Inr host \<Rightarrow>
                         (case addrPort (peer_Addr p) of
                            Inl e \<Rightarrow> Inl e
                          | Inr port \<Rightarrow> Ok (map_put ''peer-port'' port (map_put ''peer-address'' host m1), True))))))"

definition QueryMetadata :: "rpcContext \<Rightarrow> string \<Rightarrow> ('e, string \<times> bool) result" where
  "QueryMetadata ctx name =
     (case cx_headers ctx of
        None \<Rightarrow> Ok ([], False)
      | Some headers \<Rightarrow>
          (case map_get headers name of
             Some found \<Rightarrow> (case found of [] \<Rightarrow> Panics IndexOutOfRange | x # _ \<Rightarrow> Ok (x, True))
           | None \<Rightarrow>
               (case cx_peer ctx of
                  None \<Rightarrow> Ok ([], True)
                | Some p \<Rightarrow>
                    if name = ''peer'' then Ok (peer_Addr p, True)
                    else if name = ''protocol'' then Ok (peer_Network p, True)
                    else if name = ''peer-address'' then
                      (case addrHost (peer_Addr p) of Inl e \<Rightarrow> Inl e | Inr h \<Rightarrow> Ok (h, True))
                    else if name = ''peer-port'' then
                      (case addrPort (peer_Addr p) of Inl e \<Rightarrow> Inl e | Inr h \<Rightarrow> Ok (h, True))
                    else Ok ([], True))))"

record queryAddress =
  qa_address :: string
  qa_network :: string

definition QueryAddr :: "rpcContext \<Rightarrow> ('e, (queryAddress \<times> peer) option) result" where
  "QueryAddr ctx =
     (case cx_peer ctx of
        None \<Rightarrow> Ok None
      | Some peeraddr \<Rightarrow>
          (case cx_headers ctx of
             None \<Rightarrow> Ok None
           | Some headers \<Rightarrow>
               (case map_get headers '':authority'' of
                  None \<Rightarrow> Ok None
                | Some found \<Rightarrow>
                    (case found of
                       [] \<Rightarrow> Panics IndexOutOfRange
                     | x # _ \<Rightarrow> Ok (Some (\<lparr>qa_address = x, qa_network = peer_Network peeraddr\<rparr>, peeraddr))))))"

section \<open>Sessions\<close>

datatype StreamProtocol =
    StreamUserDefined | StreamSSH | StreamGRPC | StreamJSONRPC | StreamThriftRPC | StreamWebsocketRPC

definition protocolNumber :: "StreamProtocol \<Rightarrow> nat" where
  "protocolNumber p =
     (case p of StreamUserDefined \<Rightarrow> 0 | StreamSSH \<Rightarrow> 1 | StreamGRPC \<Rightarrow> 2 | StreamJSONRPC \<Rightarrow> 3
      | StreamThriftRPC \<Rightarrow> 4 | StreamWebsocketRPC \<Rightarrow> 5)"

definition streamProtocolStr :: "string list" where
  "streamProtocolStr =
     [''STREAM_USER_DEFINED_RPC'', ''STREAM_SSH'', ''STREAM_GRPC'', ''STREAM_JSON_RPC'', ''STREAM_THRIFT_RPC'',
      ''STREAM_WEBSOCKET_RPC'']"

definition StreamProtocol_String :: "StreamProtocol \<Rightarrow> ('e, string) result" where
  "StreamProtocol_String s = index_at streamProtocolStr (protocolNumber s mod 5)"

record session =
  se_ID :: "64 word"
  se_SID :: string
  se_Username :: string
  se_Password :: string
  se_GrpcVer :: string
  se_ContentType :: string
  se_LoginTime :: nat
  se_DestinationAddress :: string
  se_DestinationPort :: "16 word"
  se_Protocol :: StreamProtocol
  se_valid :: bool

text \<open>\<open>Server.sessions\<close> and the counter \<open>sessionID\<close> of the package.\<close>

record sessions =
  sessionID :: "64 word"
  live :: "(string, session) gomap"

definition no_sessions :: sessions where
  "no_sessions = \<lparr>sessionID = 0, live = []\<rparr>"

definition Started :: "nat \<Rightarrow> string \<Rightarrow> sessions \<Rightarrow> (serr, sessions) result" where
  "Started now remoteaddr s =
     (case map_get (live s) remoteaddr of
        Some _ \<Rightarrow> Ok s
      | None \<Rightarrow>
          (let n = sessionID s + 1 in
           case addrHost remoteaddr of
             Inl e \<Rightarrow> Inl e
           | Inr destinationAddress \<Rightarrow>
               (case addrPort remoteaddr of
                  Inl e \<Rightarrow> Inl e
                | Inr port \<Rightarrow>
                    Ok \<lparr>sessionID = n,
                        live = map_put remoteaddr
                          \<lparr>se_ID = n, se_SID = remoteaddr, se_Username = [], se_Password = [], se_GrpcVer = [],
                           se_ContentType = [], se_LoginTime = now, se_DestinationAddress = destinationAddress,
                           se_DestinationPort = word_of_nat (ParseUint16 port), se_Protocol = StreamGRPC,
                           se_valid = False\<rparr> (live s)\<rparr>)))"

definition Closed :: "string \<Rightarrow> sessions \<Rightarrow> sessions" where
  "Closed remoteaddr s = s\<lparr>live := map_del remoteaddr (live s)\<rparr>"

text \<open>An absent key of a string map reads as the empty string.\<close>

definition get_string :: "(string, string) gomap \<Rightarrow> string \<Rightarrow> string" where
  "get_string m k = (case map_get m k of None \<Rightarrow> [] | Some v \<Rightarrow> v)"

definition updateSession :: "rpcContext \<Rightarrow> string \<Rightarrow> sessions \<Rightarrow> sessions \<times> (serr, session) result" where
  "updateSession ctx SID s =
     (case map_get (live s) SID of
        None \<Rightarrow> (s, Failed (Tagged Internal TagInvalidSession))
      | Some session \<Rightarrow>
          (case GetMetadata ctx of
             Inl e \<Rightarrow> (s, Inl e)
           | Inr (m, ok) \<Rightarrow>
               if \<not> ok then (s, Failed (Tagged Internal TagInvalidSession))
               else
                 (let session' = session\<lparr>se_Username := get_string m ''username'',
                        se_Password := get_string m ''password'', se_GrpcVer := get_string m ''user-agent'',
                        se_ContentType := get_string m ''content-type'', se_Protocol := StreamGRPC, se_valid := True\<rparr>
                  in (s\<lparr>live := map_put SID session' (live s)\<rparr>, Ok session'))))"

section \<open>Connections\<close>

text \<open>
  \<open>netsession\<close>: the open connections by remote address and the registered \<open>Session\<close>, which is told of
  each accepted and each closed connection. \<open>None\<close> in place of the accepted address is an error of the
  wrapped listener. Its \<open>mutex\<close> guards the table of connections only: the calls of the session are not
  covered by it.
\<close>

record 's netState =
  listeners :: "(string, unit) gomap"
  conns :: "(string, unit) gomap"
  observer :: "'s option"

definition Listen :: "string option \<Rightarrow> 's netState \<Rightarrow> (serr, 's netState) result" where
  "Listen addr net =
     (case addr of
        None \<Rightarrow> Failed (Other ''listen'')
      | Some a \<Rightarrow> Ok (net\<lparr>listeners := map_put a () (listeners net)\<rparr>))"

definition Accept ::
    "(string \<Rightarrow> 's \<Rightarrow> (serr, 's) result) \<Rightarrow> string option \<Rightarrow> 's netState \<Rightarrow> (serr, 's netState) result" where
  "Accept started c net =
     (case c of
        None \<Rightarrow> Failed (Other ''accept'')
      | Some remote \<Rightarrow>
          (let net1 = net\<lparr>conns := map_put remote () (conns net)\<rparr> in
           case observer net1 of
             None \<Rightarrow> Ok net1
           | Some s \<Rightarrow>
               (case started remote s of
                  Inl e \<Rightarrow> Inl e
                | Inr s' \<Rightarrow> Ok (net1\<lparr>observer := Some s'\<rparr>))))"

definition NetConn_Close :: "(string \<Rightarrow> 's \<Rightarrow> 's) \<Rightarrow> string \<Rightarrow> 's netState \<Rightarrow> 's netState" where
  "NetConn_Close closed remote net =
     (let net1 = net\<lparr>conns := map_del remote (conns net)\<rparr> in
      case observer net1 of None \<Rightarrow> net1 | Some s \<Rightarrow> net1\<lparr>observer := Some (closed remote s)\<rparr>)"

definition NetListener_Close :: "string \<Rightarrow> 's netState \<Rightarrow> 's netState" where
  "NetListener_Close a net = net\<lparr>listeners := map_del a (listeners net)\<rparr>"

datatype net_op = OpListen string | OpAccept string | OpClose string | OpCloseListener string

fun net_exec ::
    "(string \<Rightarrow> 's \<Rightarrow> (serr, 's) result) \<Rightarrow> (string \<Rightarrow> 's \<Rightarrow> 's) \<Rightarrow> net_op \<Rightarrow> 's netState \<Rightarrow> (serr, 's netState) result" where
  "net_exec started closed (OpListen a) net = Listen (Some a) net"
| "net_exec started closed (OpAccept a) net = Accept started (Some a) net"
| "net_exec started closed (OpClose a) net = Ok (NetConn_Close closed a net)"
| "net_exec started closed (OpCloseListener a) net = Ok (NetListener_Close a net)"

fun net_run ::
    "(string \<Rightarrow> 's \<Rightarrow> (serr, 's) result) \<Rightarrow> (string \<Rightarrow> 's \<Rightarrow> 's) \<Rightarrow> net_op list \<Rightarrow> 's netState \<Rightarrow> (serr, 's netState) result" where
  "net_run started closed [] net = Ok net"
| "net_run started closed (opn # ops) net =
     (case net_exec started closed opn net of Inl e \<Rightarrow> Inl e | Inr net' \<Rightarrow> net_run started closed ops net')"

text \<open>
  The contract of the interface \<open>netsession.Session\<close>: a started connection of a good address is known
  until it is closed.
\<close>

locale connection_observer =
  fixes started :: "string \<Rightarrow> 's \<Rightarrow> (serr, 's) result"
    and closed :: "string \<Rightarrow> 's \<Rightarrow> 's"
    and known :: "'s \<Rightarrow> string set"
    and good :: "string \<Rightarrow> bool"
  assumes started_known: "good a \<Longrightarrow> \<exists>s'. started a s = Ok s' \<and> known s' = insert a (known s)"
    and closed_known: "known (closed a s) = known s - {a}"
begin

lemma exec_tracks:
  assumes "observer net = Some s" "known s = dom (map_get (conns net))" "\<And>a. opn = OpAccept a \<Longrightarrow> good a"
  shows "\<exists>net' s'. net_exec started closed opn net = Ok net' \<and> observer net' = Some s' \<and> known s' = dom (map_get (conns net'))"
proof (cases opn)
  case (OpAccept a)
  with assms started_known [of a s] show ?thesis by (auto simp: Accept_def gomap_simps)
next
  case (OpClose a)
  with assms closed_known [of a s] show ?thesis by (auto simp: NetConn_Close_def gomap_simps)
qed (use assms in \<open>auto simp: NetListener_Close_def Listen_def\<close>)

lemma run_tracks:
  assumes "observer net = Some s" "known s = dom (map_get (conns net))" "\<forall>a. OpAccept a \<in> set ops \<longrightarrow> good a"
  shows "\<exists>net' s'. net_run started closed ops net = Ok net' \<and> observer net' = Some s' \<and> known s' = dom (map_get (conns net'))"
  using assms
proof (induction ops arbitrary: net s)
  case (Cons opn ops)
  from Cons.prems exec_tracks [of net s opn] obtain net' s' where
    "net_exec started closed opn net = Ok net'" "observer net' = Some s'" "known s' = dom (map_get (conns net'))"
    by auto
  with Cons.IH [of net' s'] Cons.prems(3) show ?case by auto
qed auto

end

lemma LastIndexByte_None: "LastIndexByte s c = None \<longleftrightarrow> c \<notin> set s"
  by (induction s) (auto split: option.splits)

lemma LastIndexByte_append: "c \<notin> set t \<Longrightarrow> LastIndexByte (s @ c # t) c = Some (length s)"
  using LastIndexByte_None [of t c] by (induction s) auto

lemma LastIndexByte_bound: "LastIndexByte s c = Some i \<Longrightarrow> i < length s"
  by (induction s arbitrary: i) (auto split: option.splits if_splits)

lemma addrHost_ok: "CHR '':'' \<in> set a \<Longrightarrow> \<exists>h. addrHost a = Ok h"
  using LastIndexByte_None [of a "CHR '':''"]
  by (auto simp: addrHost_def slice_simps less_imp_le dest: LastIndexByte_bound split: option.splits)

lemma addrPort_ok: "\<exists>h. addrPort a = Ok h"
  by (auto simp: addrPort_def slice_simps Suc_le_eq dest: LastIndexByte_bound split: option.splits)

lemma Started_known:
  assumes "CHR '':'' \<in> set a"
  shows "\<exists>s'. Started now a s = Ok s' \<and> dom (map_get (live s')) = insert a (dom (map_get (live s)))"
proof (cases "map_get (live s) a")
  case None
  obtain h p where "addrHost a = (Ok h :: (serr, string) result)" "addrPort a = (Ok p :: (serr, string) result)"
    using addrHost_ok [OF assms] addrPort_ok by blast
  with None show ?thesis by (auto simp: Started_def Let_def gomap_simps)
qed (auto simp: Started_def)

interpretation server_sessions: connection_observer "Started now" Closed "\<lambda>s. dom (map_get (live s))" "\<lambda>a. CHR '':'' \<in> set a"
  by unfold_locales (auto simp: Started_known Closed_def gomap_simps split: if_splits)

section \<open>Ports\<close>

lemma show_nat_unfold: "show_nat n = (if n < 10 then [digit_char n] else show_nat (n div 10) @ [digit_char (n mod 10)])"
  by (rule show_nat.simps)

lemma digitValue_char: "d < 10 \<Longrightarrow> digitValue (digit_char d) = Some d"
  by (simp add: digitValue_def charCode_def digit_char_code)

lemma underscore_not_digit: "d < 10 \<Longrightarrow> digit_char d \<noteq> CHR ''_''"
proof
  assume "d < 10" "digit_char d = CHR ''_''"
  with digit_char_code [of d] have "(of_char (CHR ''_'') :: nat) = 48 + d" by simp
  with \<open>d < 10\<close> show False by simp
qed

lemma parseDigits_append:
  "parseDigits base limit s n = Value k \<Longrightarrow> parseDigits base limit (s @ t) n = parseDigits base limit t k"
  by (induction base limit s n rule: parseDigits.induct) (auto split: option.splits if_splits)

lemma parseDigits_show:
  "n \<le> limit \<Longrightarrow> parseDigits 10 limit (show_nat n) 0 = Value n"
proof (induction n rule: show_nat.induct)
  case (1 n)
  show ?case
  proof (cases "n < 10")
    case True
    with 1(2) show ?thesis by (subst show_nat_unfold) (simp add: digitValue_char underscore_not_digit)
  next
    case False
    then have "parseDigits 10 limit (show_nat (n div 10)) 0 = Value (n div 10)"
      using 1 by simp
    with False 1(2) show ?thesis
      by (subst show_nat_unfold) (simp add: parseDigits_append digitValue_char underscore_not_digit)
  qed
qed

lemma hd_show_nat: "0 < n \<Longrightarrow> hd (show_nat n) \<noteq> CHR ''0''"
proof (induction n rule: show_nat.induct)
  case (1 n)
  show ?case
  proof (cases "n < 10")
    case True
    have "digit_char n \<noteq> digit_char 0" using digit_char_inj [of n 0] True 1(2) by auto
    then show ?thesis using True by (subst show_nat_unfold) simp
  next
    case False
    with 1 show ?thesis by (subst show_nat_unfold) (simp add: hd_append)
  qed
qed

lemma show_nat_no_char: "(of_char c :: nat) < 48 \<or> 57 < (of_char c :: nat) \<Longrightarrow> c \<notin> set (show_nat n)"
  using show_nat_digits by fastforce

lemma ParseUint_show:
  assumes "n \<le> limit"
  shows "ParseUint limit (show_nat n) = n"
proof (cases "n = 0")
  case True
  then show ?thesis by (simp add: ParseUint_def basePrefix_def show_nat_unfold [of 0])
next
  case False
  obtain c cs where c: "show_nat n = c # cs" using show_nat_nonempty by (cases "show_nat n") auto
  with hd_show_nat [of n] False have "basePrefix (show_nat n) = (10, show_nat n)" by (simp add: basePrefix_def)
  moreover have "CHR ''_'' \<notin> set (show_nat n)" by (rule show_nat_no_char) simp
  ultimately show ?thesis using parseDigits_show [OF assms] by (simp add: ParseUint_def)
qed

lemma ParseUint16_show: "n < 65536 \<Longrightarrow> ParseUint16 (show_nat n) = n"
  by (simp add: ParseUint16_def ParseUint_show)

text \<open>No text makes the result larger than the limit.\<close>

lemma parseDigits_le: "n \<le> limit \<Longrightarrow> parseDigits base limit s n = Value k \<Longrightarrow> k \<le> limit"
  by (induction base limit s n rule: parseDigits.induct) (auto split: option.splits if_splits)

lemma ParseUint_le: "ParseUint limit s \<le> limit"
  using parseDigits_le [of 0 limit] by (auto simp: ParseUint_def split: prod.splits parsed.splits)

section \<open>Properties\<close>

text \<open>C40: Whatever connections open and close in whatever order, as long as their addresses have a colon
  nothing panics and the server has a session for exactly the open connections.\<close>

theorem sessions_follow_connections:
  assumes "\<forall>a. OpAccept a \<in> set ops \<longrightarrow> CHR '':'' \<in> set a"
  shows "\<exists>net' s'. net_run (Started now) Closed ops \<lparr>listeners = [], conns = [], observer = Some no_sessions\<rparr> = Ok net'
    \<and> observer net' = Some s' \<and> dom (map_get (live s')) = dom (map_get (conns net'))"
  by (rule server_sessions.run_tracks) (use assms in \<open>auto simp: no_sessions_def\<close>)

theorem sessions_follow_connections_witness:
  "\<exists>net' s'. net_run (Started 0) Closed [OpListen '':57400'', OpAccept ''10.0.0.1:4000'', OpAccept ''[::1]:5'', OpClose ''10.0.0.1:4000'']
      \<lparr>listeners = [], conns = [], observer = Some no_sessions\<rparr> = Ok net'
    \<and> observer net' = Some s' \<and> dom (map_get (live s')) = dom (map_get (conns net'))"
  by (rule sessions_follow_connections) auto

text \<open>The session of an address with a decimal port has that host and that port, whatever colons the
  host contains; a new address without a colon makes \<open>Started\<close> slice out of bounds.\<close>

lemma Started_address:
  assumes "n < 65536" "map_get (live s) (host @ CHR '':'' # show_nat n) = None"
    and "CHR '':'' \<notin> set unix" "map_get (live s) unix = None"
  shows "(\<exists>s' se. Started now (host @ CHR '':'' # show_nat n) s = Ok s'
      \<and> map_get (live s') (host @ CHR '':'' # show_nat n) = Some se
      \<and> se_DestinationAddress se = host \<and> se_DestinationPort se = word_of_nat n \<and> se_ID se = sessionID s + 1)
    \<and> Started now unix s = Panics SliceBoundsOutOfRange"
proof
  let ?a = "host @ CHR '':'' # show_nat n"
  have i: "LastIndexByte ?a CHR '':'' = Some (length host)"
    by (rule LastIndexByte_append) (rule show_nat_no_char, simp)
  have "addrHost ?a = (Ok host :: (serr, string) result)" "addrPort ?a = (Ok (show_nat n) :: (serr, string) result)"
    using i by (simp_all add: addrHost_def addrPort_def slice_def)
  with assms(1,2) show "\<exists>s' se. Started now ?a s = Ok s' \<and> map_get (live s') ?a = Some se
      \<and> se_DestinationAddress se = host \<and> se_DestinationPort se = word_of_nat n \<and> se_ID se = sessionID s + 1"
    by (simp add: Started_def Let_def gomap_simps ParseUint16_show)
  show "Started now unix s = Panics SliceBoundsOutOfRange"
    using assms(3,4) LastIndexByte_None [of unix "CHR '':''"] by (simp add: Started_def addrHost_def Let_def)
qed

lemma Started_address_witness:
  "\<exists>s' se. Started 0 ''[fe80::1]:57400'' no_sessions = Ok s' \<and> map_get (live s') ''[fe80::1]:57400'' = Some se
     \<and> se_DestinationAddress se = ''[fe80::1]'' \<and> se_DestinationPort se = 57400 \<and> se_ID se = 1"
proof -
  have p: "show_nat 57400 = ''57400''" by (simp add: show_nat_unfold)
  have w: "(word_of_nat 57400 :: 16 word) = 57400" by simp
  from Started_address [of 57400 no_sessions "''[fe80::1]''" "''@''" 0] p w show ?thesis
    by (simp add: no_sessions_def)
qed

text \<open>The protocol names: the index is taken modulo 5 in a table of six, so the websocket protocol is
  printed as the user-defined one; all others are right and no index is out of range.\<close>

lemma StreamProtocol_names:
  "map StreamProtocol_String
      [StreamUserDefined, StreamSSH, StreamGRPC, StreamJSONRPC, StreamThriftRPC, StreamWebsocketRPC]
    = [Ok ''STREAM_USER_DEFINED_RPC'', Ok ''STREAM_SSH'', Ok ''STREAM_GRPC'', Ok ''STREAM_JSON_RPC'',
       Ok ''STREAM_THRIFT_RPC'', Ok ''STREAM_USER_DEFINED_RPC'' :: (serr, string) result]
   \<and> streamProtocolStr ! protocolNumber StreamWebsocketRPC = ''STREAM_WEBSOCKET_RPC''"
  by (simp add: StreamProtocol_String_def protocolNumber_def streamProtocolStr_def index_at_def)

end
