(* ===== verification/SubSession.thy ===== *)
theory SubSession
  imports Subscription StateSync Session
begin

text \<open>
  The session of a \<open>Subscribe\<close> call, from \<open>gnmi/server/subscribe.go\<close>, with the information it writes about
  its subscriptions, \<open>gnmi/server/internal.go\<close>: start and stop of a session, start of the goroutines, and
  the requests it processes. What the server keeps besides the session (the telemetry control block,
  the counter of IDs, the internal state updates) is in one state with it.
\<close>

section \<open>State\<close>

datatype ydbOp = YWrite string | YDelete string

record ('u, 't, 'tv) teleState =
  ts_subID :: TeleID
  ts_ses :: "('u, 'tv) subSession"
  ts_tcb :: "('t, gval) teleCtrl"
  ts_updates :: "ydbOp list"
  ts_running :: "TeleID list"

text \<open>
  What the functions use and do not change. \<open>se_sync\<close> is \<open>RequestStateSyncBySubscriptionList\<close> of the model, with
  the paths it asks for.
\<close>

record ('u, 't, 'tv) subEnv =
  se_env :: "'tv modelEnv"
  se_types :: ydbTypes
  se_uops :: "('u, 32 word) trieOps"
  se_tops :: "('t, subscribers) trieOps"
  se_clock :: "nat \<Rightarrow> int"
  se_root :: "gval option"
  se_serverAliases :: "(string, string) gomap"
  se_sync :: "subscriptionList \<Rightarrow> (serr, string list) result"

section \<open>Start of a session\<close>

text \<open>\<open>strconv.Atoi\<close> with its error ignored: 0 for a malformed number, the nearest 64-bit number otherwise.\<close>

definition Atoi :: "string \<Rightarrow> int" where
  "Atoi s =
     (let neg = (case s of c # _ \<Rightarrow> c = CHR ''-'' | [] \<Rightarrow> False);
          digits = (case s of c # cs \<Rightarrow> if c = CHR ''-'' \<or> c = CHR ''+'' then cs else s | [] \<Rightarrow> []);
          clamp = (\<lambda>n. if neg then - int (min n (2 ^ 63)) else int (min n (2 ^ 63 - 1)))
      in if digits = [] \<or> CHR ''_'' \<in> set digits then 0
         else (case parseDigits 10 (2 ^ 64 - 1) digits 0 of
                 SyntaxError \<Rightarrow> 0
               | RangeError \<Rightarrow> clamp (2 ^ 64)
               | Value n \<Rightarrow> clamp n))"

text \<open>The address is nil where \<open>QueryAddr\<close> finds none, and \<open>remoteaddr.String()\<close> panics.\<close>

definition startSubSession :: "rpcContext \<Rightarrow> TeleID \<Rightarrow> (serr, TeleID \<times> ('u, 'tv) subSession) result" where
  "startSubSession ctx sessID =
     (case QueryAddr ctx of
        Inl e \<Rightarrow> Inl e
      | Inr None \<Rightarrow> Panics NilDereference
      | Inr (Some (_, remoteaddr)) \<Rightarrow>
          (let addr = peer_Addr remoteaddr;
               (address, port) = (case LastIndexByte addr CHR '':'' of
                   None \<Rightarrow> ([], 0)
                 | Some e \<Rightarrow> (take e addr, Atoi (drop (e + 1) addr)))
           in Ok (sessID + 1,
                \<lparr>ses_ID = sessID + 1, ses_Address = address, ses_Port = word_of_int port, ses_StreamSub = [], ses_PollSub = [],
                 ses_respchan = \<lparr>rc_sent = [], rc_closed = False\<rparr>, ses_shutdown = False, ses_aliases = newClientAliases\<rparr>)))"

section \<open>Information about subscriptions\<close>

definition nl :: string where "nl = [CHR 0x0A]"

definition dynamicTeleSubInfo :: "TeleID \<Rightarrow> string \<Rightarrow> 16 word \<Rightarrow> 64 word \<Rightarrow> 64 word \<Rightarrow> bool \<Rightarrow> gEncoding \<Rightarrow> string" where
  "dynamicTeleSubInfo i address port sample heartbeat suppress encoding =
     nl @ ''telemetry-system:'' @ nl @ '' subscriptions:'' @ nl @ ''  dynamic-subscriptions:'' @ nl @
     ''   dynamic-subscription[id='' @ show_nat (unat i) @ '']:'' @ nl @ ''    id: '' @ show_nat (unat i) @ nl @
     ''    state:'' @ nl @ ''     id: '' @ show_nat (unat i) @ nl @
     ''     destination-address: '' @ address @ nl @ ''     destination-port: '' @ show_nat (unat port) @ nl @
     ''     sample-interval: '' @ show_nat (unat sample) @ nl @ ''     heartbeat-interval: '' @ show_nat (unat heartbeat) @ nl @
     ''     suppress-redundant: '' @ show_bool suppress @ nl @ ''     protocol: STREAM_GRPC'' @ nl @
     ''     encoding: ENC_'' @ enumString encodingNames encoding @ nl @ ''    sensor-paths:''"

definition dynamicTeleSubInfoPath :: "gpath option \<Rightarrow> string" where
  "dynamicTeleSubInfoPath path =
     nl @ ''     sensor-path[path='' @ ToXPath path @ '']:'' @ nl @ ''      state:'' @ nl @ ''       path: '' @ ToXPath path"

definition dynamicInfoKey :: "TeleID \<Rightarrow> string" where
  "dynamicInfoKey i =
     nl @ ''telemetry-system:'' @ nl @ '' subscriptions:'' @ nl @ ''  dynamic-subscriptions:'' @ nl @
     ''   dynamic-subscription[id='' @ show_nat (unat i) @ '']:'' @ nl"

definition streamInfo :: "('u, 'tv) subSession \<Rightarrow> 'u subscription \<Rightarrow> string" where
  "streamInfo ses sub =
     dynamicTeleSubInfo (sub_ID sub) (ses_Address ses) (ses_Port ses) (c_SampleInterval (sub_Configured sub))
       (c_HeartbeatInterval (sub_Configured sub)) (c_SuppressRedundant (sub_Configured sub)) (sub_Encoding sub)
     @ concat (map dynamicTeleSubInfoPath (sub_Paths sub))"

definition addStreamDynamicSubscription :: "'u subscription list \<Rightarrow> ('u, 't, 'tv) teleState \<Rightarrow> ('u, 't, 'tv) teleState" where
  "addStreamDynamicSubscription subs ts =
     (let data = concat (map (streamInfo (ts_ses ts)) subs) in
      if data \<noteq> [] then ts\<lparr>ts_updates := ts_updates ts @ [YWrite data]\<rparr> else ts)"

definition deleteStreamDynamicSubscriptionInfo :: "'u subscription \<Rightarrow> ('u, 't, 'tv) teleState \<Rightarrow> ('u, 't, 'tv) teleState" where
  "deleteStreamDynamicSubscriptionInfo sub ts = ts\<lparr>ts_updates := ts_updates ts @ [YDelete (dynamicInfoKey (sub_ID sub))]\<rparr>"

definition addPollDynamicSubscription :: "pollSubscription \<Rightarrow> ('u, 't, 'tv) teleState \<Rightarrow> ('u, 't, 'tv) teleState" where
  "addPollDynamicSubscription psub ts =
     ts\<lparr>ts_updates := ts_updates ts @ [YWrite (dynamicTeleSubInfo (ps_ID psub) (ses_Address (ts_ses ts)) (ses_Port (ts_ses ts))
        0 0 False (sl_Encoding (ps_SubList psub)))]\<rparr>"

definition deletePollDynamicSubscriptionInfo :: "pollSubscription \<Rightarrow> ('u, 't, 'tv) teleState \<Rightarrow> ('u, 't, 'tv) teleState" where
  "deletePollDynamicSubscriptionInfo psub ts = ts\<lparr>ts_updates := ts_updates ts @ [YDelete (dynamicInfoKey (ps_ID psub))]\<rparr>"

section \<open>Start and stop of subscriptions, stop of a session\<close>

definition StartTelmetryUpdate :: "('u, 't, 'tv) subEnv \<Rightarrow> string \<Rightarrow> ('u, 't, 'tv) teleState \<Rightarrow> (serr, ('u, 't, 'tv) teleState) result" where
  "StartTelmetryUpdate se key ts =
     (case map_get (ses_StreamSub (ts_ses ts)) key of
        None \<Rightarrow> Panics NilDereference
      | Some sub \<Rightarrow>
          (case register (se_tops se) (me_clone (se_env se)) (se_types se) (me_schema (se_env se)) (sub_ID sub) (sub_Prefix sub) (sub_Paths sub) (ts_tcb ts) of
             Inl e \<Rightarrow> Inl e
           | Inr tcb \<Rightarrow>
               if \<not> sub_started sub then
                 Ok (ts\<lparr>ts_tcb := tcb, ts_running := ts_running ts @ [sub_ID sub],
                       ts_ses := (ts_ses ts)\<lparr>ses_StreamSub := map_put key (sub\<lparr>sub_started := True\<rparr>) (ses_StreamSub (ts_ses ts))\<rparr>\<rparr>)
               else Ok (ts\<lparr>ts_tcb := tcb\<rparr>)))"

text \<open>\<open>close(sub.stop)\<close> closes the nil channel: nothing ever makes it.\<close>

definition StopTelemetryUpdate :: "('u, 't, 'tv) subEnv \<Rightarrow> 'u subscription \<Rightarrow> ('u, 't, 'tv) teleState \<Rightarrow> ('u, 't, 'tv) teleState \<times> (serr, unit) result" where
  "StopTelemetryUpdate se sub ts = (ts\<lparr>ts_tcb := unregister (se_tops se) (sub_ID sub) (ts_tcb ts)\<rparr>, Panics CloseOfNilChannel)"

definition stopStream :: "('u, 't, 'tv) subEnv \<Rightarrow> string \<times> 'u subscription \<Rightarrow> ('u, 't, 'tv) teleState \<Rightarrow> ('u, 't, 'tv) teleState" where
  "stopStream se entry ts =
     (case entry of (key, sub) \<Rightarrow>
        (let ts1 = deleteStreamDynamicSubscriptionInfo sub ts;
             ts2 = ts1\<lparr>ts_tcb := unregister (se_tops se) (sub_ID sub) (ts_tcb ts1)\<rparr>
         in ts2\<lparr>ts_ses := (ts_ses ts2)\<lparr>ses_StreamSub := map_del key (ses_StreamSub (ts_ses ts2))\<rparr>\<rparr>))"

text \<open>The function then waits for the goroutines.\<close>

definition stopSubSession :: "('u, 't, 'tv) subEnv \<Rightarrow> ('u, 't, 'tv) teleState \<Rightarrow> ('u, 't, 'tv) teleState" where
  "stopSubSession se ts =
     (let ts1 = fold deletePollDynamicSubscriptionInfo (ses_PollSub (ts_ses ts)) ts;
          ts2 = fold (stopStream se) (ses_StreamSub (ts_ses ts1)) ts1;
          ses = ts_ses ts2
      in ts2\<lparr>ts_ses := ses\<lparr>ses_respchan := (ses_respchan ses)\<lparr>rc_closed := True\<rparr>, ses_shutdown := True\<rparr>\<rparr>)"

section \<open>Aliases\<close>

text \<open>The answers for a list of alias names: \<open>subses.ToPath(name, true).(*gnmipb.Path)\<close> is the path of each.\<close>

fun sendAliases :: "('u, 't, 'tv) subEnv \<Rightarrow> clientAliases \<Rightarrow> string list \<Rightarrow> 'tv respchan \<Rightarrow> (serr, 'tv respchan) result" where
  "sendAliases se cas [] ch = Ok ch"
| "sendAliases se cas (name # names) ch =
     (case asPath (ToPath (me_clone (se_env se)) cas (SPath name) True) of
        Inl e \<Rightarrow> Inl e
      | Inr path \<Rightarrow>
          (case sendTelemetryUpdate (buildAliasResponse (se_clock se (length (rc_sent ch))) path name) ch of
             Inl e \<Rightarrow> Inl e
           | Inr ch' \<Rightarrow> sendAliases se cas names ch'))"

definition clientAliasesUpdate ::
    "('u, 't, 'tv) subEnv \<Rightarrow> alias_msg list \<Rightarrow> ('u, 'tv) subSession \<Rightarrow> ('u, 'tv) subSession \<times> (serr, unit) result" where
  "clientAliasesUpdate se aliaslist ses =
     (case updateClientAliases (me_clone (se_env se)) aliaslist (ses_aliases ses) of
        (cas, aliasnames, err) \<Rightarrow>
          (let ses1 = ses\<lparr>ses_aliases := cas\<rparr> in
           case err of
             Inl (Panic p) \<Rightarrow> (ses1, Panics p)
           | _ \<Rightarrow>
               (case sendAliases se cas aliasnames (ses_respchan ses1) of
                  Inl e \<Rightarrow> (ses1, Inl e)
                | Inr ch \<Rightarrow> (ses1\<lparr>ses_respchan := ch\<rparr>, err))))"

definition serverAliasesUpdate :: "('u, 't, 'tv) subEnv \<Rightarrow> ('u, 'tv) subSession \<Rightarrow> (serr, ('u, 'tv) subSession) result" where
  "serverAliasesUpdate se ses =
     (case updateServerAliases (se_serverAliases se) True (ses_aliases ses) of
        Inl e \<Rightarrow> Inl e
      | Inr (cas, aliases) \<Rightarrow>
          (case sendAliases se cas (sort aliases) (ses_respchan ses) of
             Inl e \<Rightarrow> Inl e
           | Inr ch \<Rightarrow> Ok (ses\<lparr>ses_aliases := cas, ses_respchan := ch\<rparr>)))"

section \<open>Requests\<close>

datatype subscribeRequest =
    RequestPoll
  | RequestAliases "alias_msg list"
  | RequestSubscribe subscriptionList
  | RequestEmpty

definition initUpdate :: "('u, 't, 'tv) subEnv \<Rightarrow> subscriptionList \<Rightarrow> ('u, 'tv) subSession \<Rightarrow> ('u, 'tv) subSession \<times> (serr, unit) result" where
  "initUpdate se sl ses =
     (case initTelemetryUpdate (se_env se) (se_clock se) (ses_aliases ses) (se_root se) sl (ses_respchan ses) of
        (ch, r) \<Rightarrow> (ses\<lparr>ses_respchan := ch\<rparr>, r))"

text \<open>The poll loop ignores the error of an update; only a panic ends it.\<close>

fun poll_loop :: "('u, 't, 'tv) subEnv \<Rightarrow> pollSubscription list \<Rightarrow> ('u, 'tv) subSession \<Rightarrow> ('u, 'tv) subSession \<times> (serr, unit) result" where
  "poll_loop se [] ses = (ses, Ok ())"
| "poll_loop se (psub # psubs) ses =
     (case se_sync se (ps_SubList psub) of
        Inl e \<Rightarrow> (ses, Inl e)
      | Inr _ \<Rightarrow>
          (case initUpdate se (ps_SubList psub) ses of
             (ses', Inl (Panic p)) \<Rightarrow> (ses', Panics p)
           | (ses', _) \<Rightarrow> poll_loop se psubs ses'))"

definition entryParams :: "subscriptionList \<Rightarrow> subscriptionMsg \<Rightarrow> streamParams" where
  "entryParams sl e =
     \<lparr>sp_prefix = sl_Prefix sl, sp_useAliases = sl_UseAliases sl, sp_Mode = sl_Mode sl, sp_allowAggregation = sl_AllowAggregation sl,
      sp_Encoding = sl_Encoding sl, sp_StreamMode = sm_Mode e, sp_SampleInterval = sm_SampleInterval e,
      sp_SuppressRedundant = sm_SuppressRedundant e, sp_HeartbeatInterval = sm_HeartbeatInterval e\<rparr>"

text \<open>The loop that adds the subscriptions of a \<open>STREAM\<close> request, and the one that starts them.\<close>

fun addSubs ::
    "('u, 't, 'tv) subEnv \<Rightarrow> subscriptionList \<Rightarrow> bool \<Rightarrow> subscriptionMsg list \<Rightarrow> string list \<Rightarrow> ('u, 't, 'tv) teleState
     \<Rightarrow> ('u, 't, 'tv) teleState \<times> (serr, string list) result" where
  "addSubs se sl stateSync [] startingList ts = (ts, Ok startingList)"
| "addSubs se sl stateSync (e # es) startingList ts =
     (case Model_ValidateGNMIPath (me_clone (se_env se)) (me_schema (se_env se)) [sl_Prefix sl, sm_Path e] of
        Inl x \<Rightarrow> (ts, Inl x)
      | Inr _ \<Rightarrow>
          (case addStreamSubscription (se_uops se) (entryParams sl e) (sm_Path e) stateSync (ts_subID ts) (ts_ses ts) of
             (subID, ses, Inl x) \<Rightarrow> (ts\<lparr>ts_subID := subID, ts_ses := ses\<rparr>, Inl x)
           | (subID, ses, Inr key) \<Rightarrow> addSubs se sl stateSync es (startingList @ [key]) (ts\<lparr>ts_subID := subID, ts_ses := ses\<rparr>)))"

fun startSubs :: "('u, 't, 'tv) subEnv \<Rightarrow> string list \<Rightarrow> ('u, 't, 'tv) teleState \<Rightarrow> ('u, 't, 'tv) teleState \<times> (serr, unit) result" where
  "startSubs se [] ts = (ts, Ok ())"
| "startSubs se (key # keys) ts =
     (case StartTelmetryUpdate se key ts of
        Inl x \<Rightarrow> (ts, Inl x)
      | Inr ts' \<Rightarrow> startSubs se keys ts')"

definition startedList :: "string list \<Rightarrow> ('u, 'tv) subSession \<Rightarrow> 'u subscription list" where
  "startedList keys ses = concat (map (\<lambda>k. case map_get (ses_StreamSub ses) k of None \<Rightarrow> [] | Some s \<Rightarrow> [s]) keys)"

definition streamRequest ::
    "('u, 't, 'tv) subEnv \<Rightarrow> subscriptionList \<Rightarrow> ('u, 't, 'tv) teleState \<Rightarrow> ('u, 't, 'tv) teleState \<times> (serr, unit) result" where
  "streamRequest se sl ts =
     (case se_sync se sl of
        Inl e \<Rightarrow> (ts, Inl e)
      | Inr synced \<Rightarrow>
          (case initUpdate se sl (ts_ses ts) of
             (ses, Inl e) \<Rightarrow> (ts\<lparr>ts_ses := ses\<rparr>, Inl e)
           | (ses, Inr _) \<Rightarrow>
               (case addSubs se sl (synced \<noteq> []) (sl_Subscription sl) [] (ts\<lparr>ts_ses := ses\<rparr>) of
                  (ts1, Inl e) \<Rightarrow> (ts1, Inl e)
                | (ts1, Inr startingList) \<Rightarrow>
                    startSubs se startingList (addStreamDynamicSubscription (startedList startingList (ts_ses ts1)) ts1))))"

definition subscribeMode ::
    "('u, 't, 'tv) subEnv \<Rightarrow> subscriptionList \<Rightarrow> ('u, 't, 'tv) teleState \<Rightarrow> ('u, 't, 'tv) teleState \<times> (serr, unit) result" where
  "subscribeMode se sl ts =
     (if sl_Mode sl = ONCE then
        (case se_sync se sl of
           Inl e \<Rightarrow> (ts, Inl e)
         | Inr _ \<Rightarrow> (case initUpdate se sl (ts_ses ts) of (ses, r) \<Rightarrow> (ts\<lparr>ts_ses := ses\<rparr>, r)))
      else if sl_Mode sl = POLL then
        (case addPollSubscription sl (ts_subID ts) (ts_ses ts) of
           (subID, ses, psub) \<Rightarrow> (addPollDynamicSubscription psub (ts\<lparr>ts_subID := subID, ts_ses := ses\<rparr>), Ok ()))
      else if sl_Mode sl = STREAM then streamRequest se sl ts
      else (ts, Ok ()))"

definition processSubscribeRequest ::
    "('u, 't, 'tv) subEnv \<Rightarrow> subscribeRequest \<Rightarrow> ('u, 't, 'tv) teleState \<Rightarrow> ('u, 't, 'tv) teleState \<times> (serr, unit) result" where
  "processSubscribeRequest se req ts =
     (case req of
        RequestPoll \<Rightarrow>
          (case poll_loop se (ses_PollSub (ts_ses ts)) (ts_ses ts) of (ses, r) \<Rightarrow> (ts\<lparr>ts_ses := ses\<rparr>, r))
      | RequestAliases aliases \<Rightarrow>
          (case clientAliasesUpdate se aliases (ts_ses ts) of (ses, r) \<Rightarrow> (ts\<lparr>ts_ses := ses\<rparr>, r))
      | RequestEmpty \<Rightarrow> (ts, Failed (Tagged InvalidArgument TagMalformedMessage))
      | RequestSubscribe sl \<Rightarrow>
          (case (if sl_UseAliases sl then serverAliasesUpdate se (ts_ses ts) else Ok (ts_ses ts)) of
             Inl e \<Rightarrow> (ts, Inl e)
           | Inr ses \<Rightarrow>
               (let ts1 = ts\<lparr>ts_ses := ses\<rparr> in
                if sl_Subscription sl = [] then (ts1, Failed (Tagged InvalidArgument TagMalformedMessage))
                else
                  (case CheckModels (me_schema (se_env se)) (sl_UseModels sl) of
                     Inl e \<Rightarrow> (ts1, Inl e)
                   | Inr _ \<Rightarrow>
                       (case CheckEncoding (sl_Encoding sl) of
                          Inl e \<Rightarrow> (ts1, Inl e)
                        | Inr _ \<Rightarrow>
                            (case asPath (ToPath (me_clone (se_env se)) (ses_aliases ses) (GPath (sl_Prefix sl)) False) of
                               Inl e \<Rightarrow> (ts1, Inl e)
                             | Inr prefix \<Rightarrow> subscribeMode se (sl\<lparr>sl_Prefix := prefix\<rparr>) ts1))))))"

section \<open>The Subscribe call\<close>

text \<open>
  \<open>Server.subscribe\<close>: \<open>stream.Recv\<close> yields requests, then the end of the stream or an error. The result
  tells whether the loop returned, and with which error.
\<close>

datatype recv = Received subscribeRequest | EndOfStream | RecvError serr

fun subscribe_loop ::
    "('u, 't, 'tv) subEnv \<Rightarrow> recv list \<Rightarrow> ('u, 't, 'tv) teleState \<Rightarrow> ('u, 't, 'tv) teleState \<times> (serr, unit) result option" where
  "subscribe_loop se [] ts = (ts, None)"
| "subscribe_loop se (EndOfStream # rs) ts = (ts, Some (Ok ()))"
| "subscribe_loop se (RecvError e # rs) ts = (ts, Some (Failed e))"
| "subscribe_loop se (Received req # rs) ts =
     (case processSubscribeRequest se req ts of
        (ts', Inl e) \<Rightarrow> (ts', Some (Inl e))
      | (ts', Inr _) \<Rightarrow> subscribe_loop se rs ts')"

text \<open>\<open>Server.Subscribe\<close>: \<open>None\<close> while it waits for a request; a panic ends the process.\<close>

definition Subscribe ::
    "('u, 't, 'tv) subEnv \<Rightarrow> recv list \<Rightarrow> ('u, 't, 'tv) teleState \<Rightarrow> ('u, 't, 'tv) teleState \<times> (serr, unit) result option" where
  "Subscribe se rs ts =
     (case subscribe_loop se rs ts of
        (ts', Some (Inl (Panic p))) \<Rightarrow> (ts', Some (Panics p))
      | (ts', Some r) \<Rightarrow> (stopSubSession se ts', Some r)
      | (ts', None) \<Rightarrow> (ts', None))"

section \<open>What a session registers\<close>

definition streamIDs :: "('u, 't, 'tv) teleState \<Rightarrow> TeleID set" where
  "streamIDs ts = {sub_ID s | k s. map_get (ses_StreamSub (ts_ses ts)) k = Some s}"

abbreviation groupsOf :: "('u, 't, 'tv) subEnv \<Rightarrow> ('u, 't, 'tv) teleState \<Rightarrow> string \<Rightarrow> TeleID \<Rightarrow> bool" where
  "groupsOf se ts \<equiv> inGroup (se_tops se) (lookup (ts_tcb ts))"

text \<open>What the session has added to the registrations of \<open>ts0\<close> are subscriptions it still knows.\<close>

definition owns_new :: "('u, 't, 'tv) subEnv \<Rightarrow> ('u, 't, 'tv) teleState \<Rightarrow> ('u, 't, 'tv) teleState \<Rightarrow> bool" where
  "owns_new se ts0 ts \<longleftrightarrow> map_ok (ses_StreamSub (ts_ses ts)) \<and> groups_ok (se_tops se) (lookup (ts_tcb ts))
     \<and> (\<forall>k i. groupsOf se ts k i \<longrightarrow> groupsOf se ts0 k i \<or> i \<in> streamIDs ts)"

lemma owns_new_same:
  assumes "owns_new se ts0 ts" "ses_StreamSub (ts_ses ts') = ses_StreamSub (ts_ses ts)" "lookup (ts_tcb ts') = lookup (ts_tcb ts)"
  shows "owns_new se ts0 ts'"
  using assms by (simp add: owns_new_def streamIDs_def)

lemma addStream_keeps_IDs:
  assumes "addStreamSubscription ops p path ss subID ses = (subID', ses', r)" "map_get (ses_StreamSub ses) k = Some s"
  shows "\<exists>s'. map_get (ses_StreamSub ses') k = Some s' \<and> sub_ID s' = sub_ID s \<and> set (sub_Paths s) \<subseteq> set (sub_Paths s')"
  using assms by (auto simp: addStreamSubscription_def Let_def gomap_simps split: option.splits sum.splits if_splits)

lemma addStream_map_ok:
  assumes "addStreamSubscription ops p path ss subID ses = (subID', ses', r)" "map_ok (ses_StreamSub ses)"
  shows "map_ok (ses_StreamSub ses')"
  using assms by (auto simp: addStreamSubscription_def Let_def split: option.splits sum.splits if_splits)

lemma owns_new_addStream:
  assumes "owns_new se ts0 ts" "addStreamSubscription ops p path ss subID (ts_ses ts) = (subID', ses', r)"
  shows "owns_new se ts0 (ts\<lparr>ts_subID := j, ts_ses := ses'\<rparr>)"
proof -
  have "streamIDs ts \<subseteq> streamIDs (ts\<lparr>ts_subID := j, ts_ses := ses'\<rparr>)"
  proof
    fix i assume "i \<in> streamIDs ts"
    then obtain k s where "map_get (ses_StreamSub (ts_ses ts)) k = Some s" "i = sub_ID s" by (auto simp: streamIDs_def)
    with addStream_keeps_IDs [OF assms(2)] obtain s' where "map_get (ses_StreamSub ses') k = Some s'" "sub_ID s' = i" by blast
    then show "i \<in> streamIDs (ts\<lparr>ts_subID := j, ts_ses := ses'\<rparr>)" by (auto simp: streamIDs_def)
  qed
  then show ?thesis using assms addStream_map_ok [OF assms(2)] by (auto simp: owns_new_def)
qed

lemma owns_new_addSubs:
  "owns_new se ts0 ts \<Longrightarrow> addSubs se sl b es l ts = (ts', r) \<Longrightarrow> owns_new se ts0 ts'"
proof (induction se sl b es l ts rule: addSubs.induct)
  case (2 se sl b e es l ts)
  obtain subID ses r1 where a: "addStreamSubscription (se_uops se) (entryParams sl e) (sm_Path e) b (ts_subID ts) (ts_ses ts) = (subID, ses, r1)"
    by (metis prod_cases3)
  note step = owns_new_addStream [OF 2(2) a, of subID]
  show ?case using 2 step a by (auto split: sum.splits)
qed simp

lemma StartTelmetryUpdate_Ok:
  assumes "trie_laws (se_tops se)" "StartTelmetryUpdate se key ts = Ok ts'"
  obtains sub where "map_get (ses_StreamSub (ts_ses ts)) key = Some sub"
    "ses_StreamSub (ts_ses ts') = map_put key (sub\<lparr>sub_started := True\<rparr>) (ses_StreamSub (ts_ses ts))"
    "\<And>k i. groupsOf se ts' k i \<longleftrightarrow> groupsOf se ts k i
       \<or> k \<in> targets (me_clone (se_env se)) (se_types se) (me_schema (se_env se)) (sub_Prefix sub) (sub_Paths sub) \<and> i = sub_ID sub"
    "groups_ok (se_tops se) (lookup (ts_tcb ts)) \<Longrightarrow> groups_ok (se_tops se) (lookup (ts_tcb ts'))"
    "ses_ID (ts_ses ts') = ses_ID (ts_ses ts)"
proof -
  from assms(2) obtain sub tcb where s: "map_get (ses_StreamSub (ts_ses ts)) key = Some sub"
    and r: "register (se_tops se) (me_clone (se_env se)) (se_types se) (me_schema (se_env se)) (sub_ID sub) (sub_Prefix sub) (sub_Paths sub) (ts_tcb ts) = Ok tcb"
    and ts': "ts' = (if \<not> sub_started sub then ts\<lparr>ts_tcb := tcb, ts_running := ts_running ts @ [sub_ID sub],
                       ts_ses := (ts_ses ts)\<lparr>ses_StreamSub := map_put key (sub\<lparr>sub_started := True\<rparr>) (ses_StreamSub (ts_ses ts))\<rparr>\<rparr>
                     else ts\<lparr>ts_tcb := tcb\<rparr>)"
    by (auto simp: StartTelmetryUpdate_def split: option.splits sum.splits if_splits)
  from r have loop: "register_loop (se_tops se) (me_clone (se_env se)) (se_types se) (me_schema (se_env se)) (sub_ID sub) (sub_Prefix sub) (sub_Paths sub) (lookup (ts_tcb ts)) = Ok (lookup tcb)"
    by (auto simp: register_def split: sum.splits)
  have same: "map_put key (sub\<lparr>sub_started := True\<rparr>) (ses_StreamSub (ts_ses ts)) = ses_StreamSub (ts_ses ts)" if "sub_started sub"
  proof -
    from that have "sub\<lparr>sub_started := True\<rparr> = sub" by (cases sub) simp
    with s show ?thesis by (simp add: map_put_same)
  qed
  show ?thesis
  proof
    show "map_get (ses_StreamSub (ts_ses ts)) key = Some sub" by (rule s)
    show "ses_StreamSub (ts_ses ts') = map_put key (sub\<lparr>sub_started := True\<rparr>) (ses_StreamSub (ts_ses ts))"
      using same by (simp add: ts')
    show "\<And>k i. groupsOf se ts' k i \<longleftrightarrow> groupsOf se ts k i
       \<or> k \<in> targets (me_clone (se_env se)) (se_types se) (me_schema (se_env se)) (sub_Prefix sub) (sub_Paths sub) \<and> i = sub_ID sub"
      using register_loop_groups(1) [OF assms(1) loop] by (simp add: ts')
    show "groups_ok (se_tops se) (lookup (ts_tcb ts)) \<Longrightarrow> groups_ok (se_tops se) (lookup (ts_tcb ts'))"
      using register_loop_groups(2) [OF assms(1) loop] by (simp add: ts')
    show "ses_ID (ts_ses ts') = ses_ID (ts_ses ts)" by (simp add: ts')
  qed
qed

lemma owns_new_start:
  assumes "trie_laws (se_tops se)" "owns_new se ts0 ts" "StartTelmetryUpdate se key ts = Ok ts'"
  shows "owns_new se ts0 ts'"
proof -
  from StartTelmetryUpdate_Ok [OF assms(1,3)] obtain sub where s: "map_get (ses_StreamSub (ts_ses ts)) key = Some sub"
    "ses_StreamSub (ts_ses ts') = map_put key (sub\<lparr>sub_started := True\<rparr>) (ses_StreamSub (ts_ses ts))"
    "\<And>k i. groupsOf se ts' k i \<Longrightarrow> groupsOf se ts k i \<or> i = sub_ID sub"
    "groups_ok (se_tops se) (lookup (ts_tcb ts)) \<Longrightarrow> groups_ok (se_tops se) (lookup (ts_tcb ts'))" by metis
  have "streamIDs ts \<subseteq> streamIDs ts'"
  proof
    fix i assume "i \<in> streamIDs ts"
    then obtain k u where "map_get (ses_StreamSub (ts_ses ts)) k = Some u" "i = sub_ID u" by (auto simp: streamIDs_def)
    with s(1) have "map_get (ses_StreamSub (ts_ses ts')) k = Some (if k = key then sub\<lparr>sub_started := True\<rparr> else u)"
      "i = sub_ID (if k = key then sub\<lparr>sub_started := True\<rparr> else u)" by (auto simp: s(2) map_get_put)
    then show "i \<in> streamIDs ts'" unfolding streamIDs_def by blast
  qed
  moreover have "sub_ID sub \<in> streamIDs ts" using s(1) by (auto simp: streamIDs_def)
  ultimately show ?thesis using assms(2) s(2-4) unfolding owns_new_def by (metis map_ok_put subsetD)
qed

lemma owns_new_startSubs:
  "trie_laws (se_tops se) \<Longrightarrow> owns_new se ts0 ts \<Longrightarrow> startSubs se keys ts = (ts', r) \<Longrightarrow> owns_new se ts0 ts'"
  by (induction se keys ts rule: startSubs.induct) (auto dest: owns_new_start split: sum.splits)

lemma initUpdate_frame: "initUpdate se sl ses = (ses', r) \<Longrightarrow> ses_StreamSub ses' = ses_StreamSub ses \<and> ses_ID ses' = ses_ID ses"
  by (auto simp: initUpdate_def split: prod.splits)

lemma poll_loop_frame: "poll_loop se ps ses = (ses', r) \<Longrightarrow> ses_StreamSub ses' = ses_StreamSub ses"
  by (induction se ps ses rule: poll_loop.induct) (auto dest: initUpdate_frame split: sum.splits exn.splits prod.splits)

lemma clientAliasesUpdate_frame: "clientAliasesUpdate se al ses = (ses', r) \<Longrightarrow> ses_StreamSub ses' = ses_StreamSub ses"
  by (auto simp: clientAliasesUpdate_def Let_def split: prod.splits sum.splits exn.splits)

lemma serverAliasesUpdate_frame: "serverAliasesUpdate se ses = Ok ses' \<Longrightarrow> ses_StreamSub ses' = ses_StreamSub ses"
  by (auto simp: serverAliasesUpdate_def split: sum.splits prod.splits)

lemma owns_new_streamRequest:
  assumes "trie_laws (se_tops se)" "owns_new se ts0 ts" "streamRequest se sl ts = (ts', r)"
  shows "owns_new se ts0 ts'"
proof -
  have dyn: "owns_new se ts0 (addStreamDynamicSubscription subs t)" if "owns_new se ts0 t" for subs t
    by (rule owns_new_same [OF that]) (simp_all add: addStreamDynamicSubscription_def Let_def)
  have ses: "owns_new se ts0 (ts\<lparr>ts_ses := ses\<rparr>)" if "initUpdate se sl (ts_ses ts) = (ses, q)" for ses q
    by (rule owns_new_same [OF assms(2)]) (use initUpdate_frame [OF that] in auto)
  show ?thesis
    using assms ses dyn by (auto simp: streamRequest_def split: sum.splits prod.splits
        dest!: owns_new_addSubs [rotated] dest: owns_new_startSubs)
qed

lemma owns_new_subscribeMode:
  assumes "trie_laws (se_tops se)" "owns_new se ts0 ts" "subscribeMode se sl ts = (ts', r)"
  shows "owns_new se ts0 ts'"
proof (cases "sl_Mode sl = STREAM")
  case True
  with assms owns_new_streamRequest show ?thesis by (auto simp: subscribeMode_def)
next
  case False
  with assms(3) have "ses_StreamSub (ts_ses ts') = ses_StreamSub (ts_ses ts) \<and> lookup (ts_tcb ts') = lookup (ts_tcb ts)"
    by (auto simp: subscribeMode_def addPollSubscription_def addPollDynamicSubscription_def Let_def
        dest: initUpdate_frame split: if_splits sum.splits prod.splits)
  with owns_new_same [OF assms(2)] show ?thesis by blast
qed

lemma owns_new_process:
  assumes "trie_laws (se_tops se)" "owns_new se ts0 ts" "processSubscribeRequest se req ts = (ts', r)"
  shows "owns_new se ts0 ts'"
proof (cases req)
  case RequestPoll
  with assms(3) obtain ses where "poll_loop se (ses_PollSub (ts_ses ts)) (ts_ses ts) = (ses, r)" "ts' = ts\<lparr>ts_ses := ses\<rparr>"
    by (auto simp: processSubscribeRequest_def split: prod.splits)
  with owns_new_same [OF assms(2), of ts'] poll_loop_frame show ?thesis by fastforce
next
  case (RequestAliases al)
  with assms(3) obtain ses where "clientAliasesUpdate se al (ts_ses ts) = (ses, r)" "ts' = ts\<lparr>ts_ses := ses\<rparr>"
    by (auto simp: processSubscribeRequest_def split: prod.splits)
  with owns_new_same [OF assms(2), of ts'] clientAliasesUpdate_frame show ?thesis by fastforce
next
  case RequestEmpty
  with assms(2,3) show ?thesis by (simp add: processSubscribeRequest_def)
next
  case (RequestSubscribe sl)
  show ?thesis
  proof (cases "if sl_UseAliases sl then serverAliasesUpdate se (ts_ses ts) else Ok (ts_ses ts)")
    case (Inl e)
    with RequestSubscribe assms(2,3) show ?thesis by (simp add: processSubscribeRequest_def)
  next
    case (Inr ses)
    then have "ses_StreamSub ses = ses_StreamSub (ts_ses ts)" by (auto dest: serverAliasesUpdate_frame split: if_splits)
    then have own: "owns_new se ts0 (ts\<lparr>ts_ses := ses\<rparr>)" by (intro owns_new_same [OF assms(2)]) simp_all
    from Inr RequestSubscribe assms(3) have "ts' = ts\<lparr>ts_ses := ses\<rparr> \<or>
        (\<exists>sl'. subscribeMode se sl' (ts\<lparr>ts_ses := ses\<rparr>) = (ts', r))"
      by (auto simp: processSubscribeRequest_def Let_def split: if_splits sum.splits)
    with own owns_new_subscribeMode [OF assms(1) own] show ?thesis by auto
  qed
qed

lemma owns_new_loop:
  "trie_laws (se_tops se) \<Longrightarrow> owns_new se ts0 ts \<Longrightarrow> subscribe_loop se rs ts = (ts', r) \<Longrightarrow> owns_new se ts0 ts'"
  by (induction se rs ts rule: subscribe_loop.induct) (auto dest: owns_new_process split: prod.splits sum.splits)

lemma stopStream_fold:
  assumes "trie_laws (se_tops se)" "groups_ok (se_tops se) (lookup (ts_tcb ts))"
  shows "groupsOf se (fold (stopStream se) l ts) k i \<longleftrightarrow> groupsOf se ts k i \<and> i \<notin> sub_ID ` snd ` set l"
    and "ses_StreamSub (ts_ses (fold (stopStream se) l ts)) = fold map_del (map fst l) (ses_StreamSub (ts_ses ts))"
proof -
  have "(groupsOf se (fold (stopStream se) l ts) k i \<longleftrightarrow> groupsOf se ts k i \<and> i \<notin> sub_ID ` snd ` set l)
    \<and> ses_StreamSub (ts_ses (fold (stopStream se) l ts)) = fold map_del (map fst l) (ses_StreamSub (ts_ses ts))"
    using assms(2)
  proof (induction l arbitrary: ts)
    case (Cons e l)
    obtain key sub where e: "e = (key, sub)" by fastforce
    note u = unregister_groups [OF assms(1) Cons.prems, of "sub_ID sub"]
    have t: "ts_tcb (stopStream se (key, sub) ts) = unregister (se_tops se) (sub_ID sub) (ts_tcb ts)"
      "ses_StreamSub (ts_ses (stopStream se (key, sub) ts)) = map_del key (ses_StreamSub (ts_ses ts))"
      by (simp_all add: stopStream_def deleteStreamDynamicSubscriptionInfo_def Let_def)
    from Cons.IH [of "stopStream se (key, sub) ts"] u show ?case by (auto simp: e t)
  qed simp
  then show "groupsOf se (fold (stopStream se) l ts) k i \<longleftrightarrow> groupsOf se ts k i \<and> i \<notin> sub_ID ` snd ` set l"
    "ses_StreamSub (ts_ses (fold (stopStream se) l ts)) = fold map_del (map fst l) (ses_StreamSub (ts_ses ts))" by auto
qed

lemma map_del_all_keys: "fold map_del (map fst m) m = ([] :: ('k, 'v) gomap)"
proof -
  have "map_get (fold map_del ks m) k = (if k \<in> set ks then None else map_get m k)" for ks k and m :: "('k, 'v) gomap"
    by (induction ks arbitrary: m) (auto simp: gomap_simps)
  then have "map_get (fold map_del (map fst m) m) k = None" for k
    by (simp add: map_of_eq_None_iff)
  then show ?thesis
    by (metis list.exhaust map_of_Cons_code(2) option.distinct(1) surj_pair)
qed

lemma deletePoll_fold:
  "ts_tcb (fold deletePollDynamicSubscriptionInfo ps ts) = ts_tcb ts \<and> ts_ses (fold deletePollDynamicSubscriptionInfo ps ts) = ts_ses ts"
  by (induction ps arbitrary: ts) (auto simp: deletePollDynamicSubscriptionInfo_def)

lemma stopSubSession_clean:
  assumes "trie_laws (se_tops se)" "owns_new se ts0 ts"
  shows "groupsOf se (stopSubSession se ts) k i \<Longrightarrow> groupsOf se ts0 k i"
    and "ses_StreamSub (ts_ses (stopSubSession se ts)) = []"
    and "rc_closed (ses_respchan (ts_ses (stopSubSession se ts)))" "ses_shutdown (ts_ses (stopSubSession se ts))"
proof -
  let ?ts1 = "fold deletePollDynamicSubscriptionInfo (ses_PollSub (ts_ses ts)) ts"
  let ?l = "ses_StreamSub (ts_ses ts)"
  have p: "ts_tcb ?ts1 = ts_tcb ts" "ts_ses ?ts1 = ts_ses ts" using deletePoll_fold by auto
  have ok: "groups_ok (se_tops se) (lookup (ts_tcb ?ts1))" using assms(2) by (simp add: owns_new_def p)
  note f = stopStream_fold [OF assms(1) ok, of ?l]
  have ids: "i \<in> streamIDs ts \<Longrightarrow> i \<in> sub_ID ` snd ` set ?l"
    by (auto simp: streamIDs_def dest!: map_of_SomeD) force
  have st: "lookup (ts_tcb (stopSubSession se ts)) = lookup (ts_tcb (fold (stopStream se) ?l ?ts1))"
    "ses_StreamSub (ts_ses (stopSubSession se ts)) = ses_StreamSub (ts_ses (fold (stopStream se) ?l ?ts1))"
    by (simp_all add: stopSubSession_def Let_def p)
  show "ses_StreamSub (ts_ses (stopSubSession se ts)) = []" by (simp add: st f(2) p map_del_all_keys)
  show "rc_closed (ses_respchan (ts_ses (stopSubSession se ts)))" "ses_shutdown (ts_ses (stopSubSession se ts))"
    by (simp_all add: stopSubSession_def Let_def)
  assume "groupsOf se (stopSubSession se ts) k i"
  then have "groupsOf se ts k i" "i \<notin> sub_ID ` snd ` set ?l" using f(1) [of k i] by (simp_all add: st p)
  with assms(2) ids show "groupsOf se ts0 k i" by (auto simp: owns_new_def)
qed

text \<open>C19: A \<open>Subscribe\<close> call that returns leaves nothing behind: whatever requests it received and however it ended,
  no subscription of the session is registered any more (all registrations left were there before),
  the session knows no subscription, and its two channels are closed.\<close>

theorem Subscribe_leaves_nothing:
  assumes "trie_laws (se_tops se)" "groups_ok (se_tops se) (lookup (ts_tcb ts))" "ses_StreamSub (ts_ses ts) = []"
    "Subscribe se rs ts = (ts', Some r)" "no_panic r"
  shows "(\<forall>k i. inGroup (se_tops se) (lookup (ts_tcb ts')) k i \<longrightarrow> inGroup (se_tops se) (lookup (ts_tcb ts)) k i)
    \<and> ses_StreamSub (ts_ses ts') = [] \<and> rc_closed (ses_respchan (ts_ses ts')) \<and> ses_shutdown (ts_ses ts')"
proof -
  have own: "owns_new se ts ts" using assms(2,3) by (simp add: owns_new_def)
  from assms(4,5) obtain ts1 where l: "subscribe_loop se rs ts = (ts1, Some r)" and ts': "ts' = stopSubSession se ts1"
    by (auto simp: Subscribe_def split: prod.splits option.splits sum.splits exn.splits)
  from stopSubSession_clean [OF assms(1) owns_new_loop [OF assms(1) own l]] show ?thesis
    unfolding ts' by blast
qed

section \<open>A request that is accepted is served\<close>

definition wants :: "('u, 'tv) subSession \<Rightarrow> string \<Rightarrow> gpath option \<Rightarrow> bool" where
  "wants ses key path = (\<exists>s. map_get (ses_StreamSub ses) key = Some s \<and> path \<in> set (sub_Paths s))"

lemma addStream_wants:
  assumes "addStreamSubscription ops p path ss subID ses = (subID', ses', Ok key)"
  shows "key = subKey (ses_ID ses) p \<and> wants ses' key path \<and> ses_ID ses' = ses_ID ses \<and> (wants ses k q \<longrightarrow> wants ses' k q)"
proof -
  have "wants ses k q \<Longrightarrow> wants ses' k q"
    using addStream_keeps_IDs [OF assms] unfolding wants_def by blast
  with assms show ?thesis
    by (auto simp: addStreamSubscription_def Let_def gomap_simps wants_def split: option.splits sum.splits)
qed

lemma addSubs_wants:
  assumes "addSubs se sl b es l ts = (ts', Ok keys)"
  shows "ses_ID (ts_ses ts') = ses_ID (ts_ses ts) \<and> (\<forall>k q. wants (ts_ses ts) k q \<longrightarrow> wants (ts_ses ts') k q)
    \<and> set l \<subseteq> set keys
    \<and> (\<forall>e \<in> set es. subKey (ses_ID (ts_ses ts)) (entryParams sl e) \<in> set keys
         \<and> wants (ts_ses ts') (subKey (ses_ID (ts_ses ts)) (entryParams sl e)) (sm_Path e))"
  using assms
proof (induction se sl b es l ts rule: addSubs.induct)
  case (2 se sl b e es l ts)
  obtain subID ses r where a: "addStreamSubscription (se_uops se) (entryParams sl e) (sm_Path e) b (ts_subID ts) (ts_ses ts) = (subID, ses, r)"
    by (metis prod_cases3)
  with 2(2) obtain key where r: "r = Ok key" and v: "\<exists>u. Model_ValidateGNMIPath (me_clone (se_env se)) (me_schema (se_env se)) [sl_Prefix sl, sm_Path e] = Ok u"
    and rest: "addSubs se sl b es (l @ [key]) (ts\<lparr>ts_subID := subID, ts_ses := ses\<rparr>) = (ts', Ok keys)"
    by (auto split: sum.splits)
  note one = addStream_wants [OF a [unfolded r]]
  from v obtain u where v': "Model_ValidateGNMIPath (me_clone (se_env se)) (me_schema (se_env se)) [sl_Prefix sl, sm_Path e] = Ok u" by blast
  from 2(1) [OF v' a [symmetric] refl r rest] one show ?case by simp blast
qed simp

text \<open>A subscription that runs and is registered under every schema path of its paths.\<close>

definition served :: "('u, 't, 'tv) subEnv \<Rightarrow> ('u, 't, 'tv) teleState \<Rightarrow> string \<Rightarrow> bool" where
  "served se ts key = (\<exists>s. map_get (ses_StreamSub (ts_ses ts)) key = Some s \<and> sub_started s
     \<and> (\<forall>k \<in> targets (me_clone (se_env se)) (se_types se) (me_schema (se_env se)) (sub_Prefix s) (sub_Paths s). groupsOf se ts k (sub_ID s)))"

lemma start_served:
  assumes "trie_laws (se_tops se)" "StartTelmetryUpdate se key ts = Ok ts'"
  shows "served se ts' key \<and> (served se ts k \<longrightarrow> served se ts' k) \<and> (wants (ts_ses ts) k q \<longrightarrow> wants (ts_ses ts') k q)
    \<and> ses_ID (ts_ses ts') = ses_ID (ts_ses ts)"
proof -
  from StartTelmetryUpdate_Ok [OF assms] obtain sub where s: "map_get (ses_StreamSub (ts_ses ts)) key = Some sub"
    "ses_StreamSub (ts_ses ts') = map_put key (sub\<lparr>sub_started := True\<rparr>) (ses_StreamSub (ts_ses ts))"
    "\<And>k i. groupsOf se ts' k i \<longleftrightarrow> groupsOf se ts k i
       \<or> k \<in> targets (me_clone (se_env se)) (se_types se) (me_schema (se_env se)) (sub_Prefix sub) (sub_Paths sub) \<and> i = sub_ID sub"
    "ses_ID (ts_ses ts') = ses_ID (ts_ses ts)" by metis
  have "served se ts' key" unfolding served_def by (simp add: s(2,3) map_get_put)
  moreover have "served se ts k \<longrightarrow> served se ts' k"
    using s(1) \<open>served se ts' key\<close> unfolding served_def by (cases "k = key") (auto simp: s(2,3) map_get_put)
  moreover have "wants (ts_ses ts) k q \<longrightarrow> wants (ts_ses ts') k q"
    using s(1) unfolding wants_def by (cases "k = key") (auto simp: s(2) map_get_put)
  ultimately show ?thesis using s(4) by blast
qed

lemma startSubs_served:
  assumes "trie_laws (se_tops se)" "startSubs se keys ts = (ts', Ok ())"
  shows "(\<forall>key \<in> set keys. served se ts' key) \<and> (\<forall>k. served se ts k \<longrightarrow> served se ts' k)
    \<and> (\<forall>k q. wants (ts_ses ts) k q \<longrightarrow> wants (ts_ses ts') k q)"
  using assms
proof (induction se keys ts rule: startSubs.induct)
  case (2 se key keys ts)
  then obtain ts1 where 1: "StartTelmetryUpdate se key ts = Ok ts1" "startSubs se keys ts1 = (ts', Ok ())"
    by (auto split: sum.splits)
  from 2(1) [OF 1(1) 2(2) 1(2)] start_served [OF 2(2) 1(1)] show ?case by auto
qed simp

lemma streamRequest_served:
  assumes "trie_laws (se_tops se)" "streamRequest se sl ts = (ts', Ok ())" "e \<in> set (sl_Subscription sl)"
  shows "served se ts' (subKey (ses_ID (ts_ses ts)) (entryParams sl e)) \<and> wants (ts_ses ts') (subKey (ses_ID (ts_ses ts)) (entryParams sl e)) (sm_Path e)"
proof -
  from assms(2) obtain ses q b ts1 keys where i: "initUpdate se sl (ts_ses ts) = (ses, q)"
    and a: "addSubs se sl b (sl_Subscription sl) [] (ts\<lparr>ts_ses := ses\<rparr>) = (ts1, Ok keys)"
    and st: "startSubs se keys (addStreamDynamicSubscription (startedList keys (ts_ses ts1)) ts1) = (ts', Ok ())"
    by (auto simp: streamRequest_def split: sum.splits prod.splits)
  have dyn: "ts_ses (addStreamDynamicSubscription subs ts1) = ts_ses ts1" for subs
    by (simp add: addStreamDynamicSubscription_def Let_def)
  from addSubs_wants [OF a] startSubs_served [OF assms(1) st] initUpdate_frame [OF i] assms(3) show ?thesis by (auto simp: dyn)
qed


definition exSubEnv :: "((string, 32 word) gomap, (string, subscribers) gomap, string) subEnv" where
  "exSubEnv = \<lparr>se_env = exEnv, se_types = exTypes, se_uops = listTrie, se_tops = listTrie, se_clock = int, se_root = Some exRoot,
     se_serverAliases = [], se_sync = (\<lambda>_. Ok [])\<rparr>"

definition exState :: "((string, 32 word) gomap, (string, subscribers) gomap, string) teleState" where
  "exState = \<lparr>ts_subID = 20, ts_ses = exSession, ts_tcb = \<lparr>lookup = lookup exCtrl, ready = []\<rparr>, ts_updates = [], ts_running = []\<rparr>"

definition exStream :: subscriptionList where
  "exStream = exList\<lparr>sl_Mode := 0\<rparr>"

lemma exStream_ok: "snd (streamRequest exSubEnv exStream exState) = Ok ()"
proof -
  let ?path = "Some (empty_gpath\<lparr>p_Elem := [mkElem ''name'' []]\<rparr>)"
  have v: "Model_ValidateGNMIPath id exModel [Some exEth0, ?path] = Ok ()" by code_simp
  have iu: "snd (initTelemetryUpdate exEnv int newClientAliases (Some exRoot) exStream exChan) = Ok ()" by code_simp
  have full: "GNMIFullPath id (Some exEth0) ?path = (Ok (Some exPath) :: (serr, gpath option) result)" by code_simp
  obtain ch where ch: "initTelemetryUpdate exEnv int newClientAliases (Some exRoot) exStream exChan = (ch, Ok ())"
    using iu by (metis prod.collapse)
  have env: "me_clone exEnv = id" "me_schema exEnv = exModel" by (simp_all add: exEnv_def)
  have sl: "sl_Prefix exStream = Some exEth0" "sl_Subscription exStream = [\<lparr>sm_Path = ?path, sm_Mode = 1, sm_SampleInterval = 0,
       sm_SuppressRedundant = False, sm_HeartbeatInterval = 0\<rparr>]" by (simp_all add: exStream_def exList_def)
  show ?thesis
    using v by (simp add: streamRequest_def exSubEnv_def exState_def exSession_def initUpdate_def ch env sl
        addStreamSubscription_def entryParams_def configure_def Let_def StartTelmetryUpdate_def register_def full newSubscription_def
        addStreamDynamicSubscription_def)
qed


theorem Subscribe_leaves_nothing_witness:
  "\<exists>ts'. Subscribe exSubEnv [Received (RequestSubscribe exStream), EndOfStream] exState = (ts', Some (Ok ()))
     \<and> ses_StreamSub (ts_ses ts') = [] \<and> ses_shutdown (ts_ses ts')"
proof -
  let ?s = "Subscribe exSubEnv [Received (RequestSubscribe exStream), EndOfStream] exState"
  obtain ts1 where ts1: "streamRequest exSubEnv exStream exState = (ts1, Ok ())" using exStream_ok by (metis prod.collapse)
  have p: "processSubscribeRequest exSubEnv (RequestSubscribe exStream) exState = (ts1, Ok ())"
  proof -
    have "asPath (ToPath id newClientAliases (GPath (sl_Prefix exStream)) False) = Ok (sl_Prefix exStream)" by code_simp
    moreover have "sl_UseAliases exStream = False" "sl_Subscription exStream \<noteq> []" "sl_UseModels exStream = []" "sl_Encoding exStream = 4" "sl_Mode exStream = 0"
      by (simp_all add: exStream_def exList_def)
    moreover have "me_clone (se_env exSubEnv) = id" "ses_aliases (ts_ses exState) = newClientAliases"
      by (simp_all add: exSubEnv_def exEnv_def exState_def exSession_def)
    ultimately show ?thesis
      using ts1 by (simp add: processSubscribeRequest_def Let_def CheckEncoding_def supportedEncodings_def subscribeMode_def)
  qed
  then have "snd ?s = Some (Ok ())" by (simp add: Subscribe_def)
  then have s: "?s = (fst ?s, Some (Ok ()))" by (metis prod.collapse)
  have laws: "trie_laws (se_tops exSubEnv)" by (simp add: exSubEnv_def listTrie_laws)
  have g: "groups_ok (se_tops exSubEnv) (lookup (ts_tcb exState))"
    by (auto simp: groups_ok_def exSubEnv_def exState_def listTrie_def exCtrl_def map_ok_def split: if_splits)
  have n: "ses_StreamSub (ts_ses exState) = []" by (simp add: exState_def exSession_def)
  from Subscribe_leaves_nothing [OF laws g n s] s show ?thesis by auto
qed

end
