(* ===== verification/Forwarding.thy ===== *)
theory Forwarding
  imports SubSession
begin

text \<open>
  The channel of responses of a Subscribe call with its forwarding goroutine, of \<open>Server.Subscribe\<close> in
  \<open>gnmi/server/server.go\<close>, \<open>sendTelemetryUpdate\<close> and \<open>stopSubSession\<close> in \<open>subscribe.go\<close>. The other theories take the channel as
  drained: here that is shown to be right for what is sent, and what of it the client gets.
\<close>

section \<open>The system\<close>

text \<open>
  \<open>make(chan *gnmipb.SubscribeResponse, 256)\<close>. A sender is a goroutine of the session: the receive loop or a subscription; it is
  elsewhere, or at the statement \<open>subses.respchan <- response\<close>. The forwarding goroutine reads the channel, or is in
  \<open>stream.Send\<close>, which takes as long as the client does and whose error is ignored, or has ended.
\<close>

definition respCapacity :: nat where "respCapacity = 256"

datatype 'r forwarder = Reading | Sending 'r | Ended

record 'r forwarding =
  f_senders :: "'r option list"
  f_buffer :: "'r list"
  f_closed :: bool
  f_shutdown :: bool
  f_reader :: "'r forwarder"
  f_sent :: "'r list"
  f_out :: "'r list"
  f_crashed :: bool
  f_returned :: bool

definition startForwarding :: "nat \<Rightarrow> 'r forwarding" where
  "startForwarding n = \<lparr>f_senders = replicate n None, f_buffer = [], f_closed = False, f_shutdown = False, f_reader = Reading,
     f_sent = [], f_out = [], f_crashed = False, f_returned = False\<rparr>"

datatype 'r fwdLabel =
    Arrive nat 'r | Put nat | PutClosed nat | Take | Sent | ReadClosed | ReadShutdown
  | Close | CloseDone | Return

text \<open>
  A receive from a closed channel gives what is left in the buffer first. A send on a closed channel panics, also one that
  was blocked on a full buffer when the channel was closed. \<open>Return\<close> is the end of \<open>waitgroup.Wait\<close>, for which all goroutines
  have to be done. The end of the process stops everything.
\<close>

inductive fwd_step :: "'r forwarding \<Rightarrow> 'r fwdLabel \<Rightarrow> 'r forwarding \<Rightarrow> bool" where
  arrive: "\<not> f_crashed s \<Longrightarrow> \<not> f_returned s \<Longrightarrow> i < length (f_senders s) \<Longrightarrow> f_senders s ! i = None \<Longrightarrow>
     fwd_step s (Arrive i r) (s\<lparr>f_senders := (f_senders s)[i := Some r]\<rparr>)"
| put: "\<not> f_crashed s \<Longrightarrow> i < length (f_senders s) \<Longrightarrow> f_senders s ! i = Some r \<Longrightarrow> \<not> f_closed s \<Longrightarrow> length (f_buffer s) < respCapacity \<Longrightarrow>
     fwd_step s (Put i) (s\<lparr>f_senders := (f_senders s)[i := None], f_buffer := f_buffer s @ [r], f_sent := f_sent s @ [r]\<rparr>)"
| put_closed: "\<not> f_crashed s \<Longrightarrow> i < length (f_senders s) \<Longrightarrow> f_senders s ! i = Some r \<Longrightarrow> f_closed s \<Longrightarrow>
     fwd_step s (PutClosed i) (s\<lparr>f_crashed := True\<rparr>)"
| take_one: "\<not> f_crashed s \<Longrightarrow> f_reader s = Reading \<Longrightarrow> f_buffer s = r # b \<Longrightarrow>
     fwd_step s Take (s\<lparr>f_reader := Sending r, f_buffer := b\<rparr>)"
| sent: "\<not> f_crashed s \<Longrightarrow> f_reader s = Sending r \<Longrightarrow>
     fwd_step s Sent (s\<lparr>f_reader := Reading, f_out := f_out s @ [r]\<rparr>)"
| read_closed: "\<not> f_crashed s \<Longrightarrow> f_reader s = Reading \<Longrightarrow> f_buffer s = [] \<Longrightarrow> f_closed s \<Longrightarrow>
     fwd_step s ReadClosed (s\<lparr>f_reader := Ended\<rparr>)"
| read_shutdown: "\<not> f_crashed s \<Longrightarrow> f_reader s = Reading \<Longrightarrow> f_shutdown s \<Longrightarrow>
     fwd_step s ReadShutdown (s\<lparr>f_reader := Ended\<rparr>)"
| close_channel: "\<not> f_crashed s \<Longrightarrow> \<not> f_closed s \<Longrightarrow> fwd_step s Close (s\<lparr>f_closed := True\<rparr>)"
| close_done: "\<not> f_crashed s \<Longrightarrow> f_closed s \<Longrightarrow> \<not> f_shutdown s \<Longrightarrow> fwd_step s CloseDone (s\<lparr>f_shutdown := True\<rparr>)"
| wait_done: "\<not> f_crashed s \<Longrightarrow> f_shutdown s \<Longrightarrow> f_reader s = Ended \<Longrightarrow> list_all (\<lambda>x. x = None) (f_senders s) \<Longrightarrow> \<not> f_returned s \<Longrightarrow>
     fwd_step s Return (s\<lparr>f_returned := True\<rparr>)"

inductive fwd_steps :: "'r forwarding \<Rightarrow> 'r fwdLabel list \<Rightarrow> 'r forwarding \<Rightarrow> bool" where
  fwd_none: "fwd_steps s [] s"
| fwd_more: "fwd_step s l s1 \<Longrightarrow> fwd_steps s1 ls s2 \<Longrightarrow> fwd_steps s (l # ls) s2"

inductive_simps fwd_steps_simps: "fwd_steps s [] s'" "fwd_steps s (l # ls) s'"

definition fwd_reachable :: "'r forwarding \<Rightarrow> bool" where
  "fwd_reachable s = (\<exists>n ls. fwd_steps (startForwarding n) ls s)"

lemma fwd_steps_append: "fwd_steps s ls s1 \<Longrightarrow> fwd_steps s1 ls' s2 \<Longrightarrow> fwd_steps s (ls @ ls') s2"
  by (induction rule: fwd_steps.induct) (auto intro: fwd_steps.intros)

lemma fwd_steps_invariant:
  assumes "fwd_steps s ls s'" "I s" "\<And>s l s'. fwd_step s l s' \<Longrightarrow> I s \<Longrightarrow> I s'"
  shows "I s'"
  using assms by (induction rule: fwd_steps.induct) auto

section \<open>Order\<close>

text \<open>Everything sent is out, in \<open>stream.Send\<close>, or in the buffer, in this order.\<close>

definition inSend :: "'r forwarder \<Rightarrow> 'r list" where
  "inSend f = (case f of Sending r \<Rightarrow> [r] | _ \<Rightarrow> [])"

definition fwd_inv :: "'r forwarding \<Rightarrow> bool" where
  "fwd_inv s \<longleftrightarrow> f_sent s = f_out s @ inSend (f_reader s) @ f_buffer s \<and> length (f_buffer s) \<le> respCapacity
     \<and> (f_shutdown s \<longrightarrow> f_closed s) \<and> (f_reader s = Ended \<longrightarrow> f_closed s) \<and> (f_returned s \<longrightarrow> f_reader s = Ended \<and> f_shutdown s)
     \<and> (f_returned s \<longrightarrow> \<not> f_crashed s \<and> (\<forall>i < length (f_senders s). f_senders s ! i = None))
     \<and> (f_reader s = Ended \<and> \<not> f_shutdown s \<longrightarrow> f_buffer s = [])"

lemma fwd_step_inv: "fwd_step s l s' \<Longrightarrow> fwd_inv s \<Longrightarrow> fwd_inv s'"
  by (induction rule: fwd_step.induct) (auto simp: fwd_inv_def inSend_def list_all_length)

lemma fwd_inv_start: "fwd_inv (startForwarding n)"
  by (simp add: fwd_inv_def startForwarding_def inSend_def)

lemma reachable_inv:
  assumes "fwd_reachable s"
  shows "fwd_inv s"
proof -
  from assms obtain n ls where "fwd_steps (startForwarding n) ls s" by (auto simp: fwd_reachable_def)
  from fwd_steps_invariant [where I = fwd_inv, OF this fwd_inv_start] fwd_step_inv show ?thesis by metis
qed

section \<open>Draining\<close>

text \<open>As long as the client takes responses, the goroutine can forward all that is in the buffer.\<close>

lemma fwd_drain:
  "f_reader s = Reading \<Longrightarrow> \<not> f_crashed s \<Longrightarrow>
    fwd_steps s (concat (replicate (length (f_buffer s)) [Take, Sent])) (s\<lparr>f_buffer := [], f_out := f_out s @ f_buffer s\<rparr>)"
proof (induction "f_buffer s" arbitrary: s)
  case Nil
  then have "s\<lparr>f_buffer := [], f_out := f_out s @ f_buffer s\<rparr> = s" by (cases s) simp
  with Nil show ?case by (simp add: fwd_steps_simps)
next
  case (Cons r b)
  let ?t = "s\<lparr>f_reader := Sending r, f_buffer := b\<rparr>" and ?u = "s\<lparr>f_buffer := b, f_reader := Reading, f_out := f_out s @ [r]\<rparr>"
  have "fwd_step s Take ?t" using Cons by (intro take_one) simp_all
  moreover have "fwd_step ?t Sent ?u" using sent [of ?t r] Cons(3,4) by simp
  moreover have "fwd_steps ?u (concat (replicate (length b) [Take, Sent])) (?u\<lparr>f_buffer := [], f_out := f_out ?u @ b\<rparr>)"
    using Cons(1) [of ?u] Cons(3,4) by simp
  moreover have "?u\<lparr>f_buffer := [], f_out := f_out ?u @ b\<rparr> = s\<lparr>f_buffer := [], f_out := f_out s @ f_buffer s\<rparr>"
    using Cons(2,3) by (cases s) simp
  ultimately have "fwd_steps s (Take # Sent # concat (replicate (length b) [Take, Sent])) (s\<lparr>f_buffer := [], f_out := f_out s @ f_buffer s\<rparr>)"
    by (metis fwd_more)
  then show ?case by (simp flip: Cons(2))
qed

section \<open>The channel of the other theories\<close>

definition channelOf :: "'tv subscribeResponse forwarding \<Rightarrow> 'tv respchan" where
  "channelOf s = \<lparr>rc_sent = f_sent s, rc_closed = f_closed s\<rparr>"

text \<open>What a step is for a channel that is always drained: a send, the panic of a send, the close, or nothing.\<close>

definition channelStep :: "'tv respchan \<Rightarrow> 'tv subscribeResponse fwdLabel \<Rightarrow> 'tv subscribeResponse option list \<Rightarrow> 'tv respchan \<Rightarrow> bool" where
  "channelStep ch l senders ch' =
     (case l of
        Put i \<Rightarrow> (case senders ! i of Some r \<Rightarrow> sendTelemetryUpdate [r] ch = Ok ch' | None \<Rightarrow> False)
      | PutClosed i \<Rightarrow> ch' = ch \<and> (case senders ! i of Some r \<Rightarrow> sendTelemetryUpdate [r] ch = Panics SendOnClosedChannel | None \<Rightarrow> False)
      | Close \<Rightarrow> ch' = ch\<lparr>rc_closed := True\<rparr>
      | _ \<Rightarrow> ch' = ch)"

lemma fwd_step_channel: "fwd_step s l s' \<Longrightarrow> channelStep (channelOf s) l (f_senders s) (channelOf s')"
  by (induction rule: fwd_step.induct) (simp_all add: channelStep_def channelOf_def)

section \<open>A sender at the end\<close>

text \<open>
  A goroutine that is at its send when the channel is closed ends the process, unless it never runs again: it may be blocked on
  the full buffer, because the client takes no responses, or come to its send later. The session never returns.
\<close>

definition doomed :: "nat \<Rightarrow> 'r \<Rightarrow> 'r forwarding \<Rightarrow> bool" where
  "doomed i r s \<longleftrightarrow> f_closed s \<and> \<not> f_returned s \<and> i < length (f_senders s) \<and> f_senders s ! i = Some r"

lemma doomed_step: "fwd_step s l s' \<Longrightarrow> doomed i r s \<Longrightarrow> doomed i r s'"
  by (induction rule: fwd_step.induct) (auto simp: doomed_def nth_list_update list_all_length)

lemma blocked_sender_crashes:
  assumes "doomed i r s" "fwd_steps s ls s'"
  shows "\<not> f_returned s' \<and> (f_crashed s' \<or> fwd_step s' (PutClosed i) (s'\<lparr>f_crashed := True\<rparr>))"
proof -
  from fwd_steps_invariant [where I = "doomed i r", OF assms(2,1)] doomed_step have "doomed i r s'" by metis
  then show ?thesis using put_closed [of s' i r] by (auto simp: doomed_def)
qed

section \<open>Properties\<close>

text \<open>C36: The responses of a session reach the client in the order in which they were sent, each once; what the client does not
  have is at most one response in \<open>stream.Send\<close> and 256 in the buffer. All of them arrive if the goroutine ends at the closed
  channel; if it sees \<open>shutdown\<close> first, those in the buffer are lost. While it reads, it can forward everything that was
  sent. A call that returned has not ended the process. For the senders the channel is, step by step, the drained channel of the other theories.\<close>

theorem responses_forwarded:
  assumes "fwd_reachable s"
  shows "f_sent s = f_out s @ inSend (f_reader s) @ f_buffer s \<and> length (f_buffer s) \<le> 256
    \<and> (f_reader s = Ended \<and> \<not> f_shutdown s \<longrightarrow> f_out s = f_sent s)
    \<and> (f_returned s \<longrightarrow> \<not> f_crashed s \<and> f_reader s = Ended)
    \<and> (f_reader s = Reading \<and> \<not> f_crashed s \<longrightarrow>
         (\<exists>ls s'. fwd_steps s ls s' \<and> f_out s' = f_sent s \<and> f_sent s' = f_sent s \<and> set ls \<subseteq> {Take, Sent}))
    \<and> (\<forall>l s'. fwd_step s l s' \<longrightarrow> channelStep (channelOf s) l (f_senders s) (channelOf s'))"
proof -
  have inv: "fwd_inv s" by (rule reachable_inv [OF assms])
  have "\<exists>ls s'. fwd_steps s ls s' \<and> f_out s' = f_sent s \<and> f_sent s' = f_sent s \<and> set ls \<subseteq> {Take, Sent}"
    if "f_reader s = Reading" "\<not> f_crashed s"
    using fwd_drain [OF that] inv that(1)
    by (intro exI [of _ "concat (replicate (length (f_buffer s)) [Take, Sent])"] exI [of _ "s\<lparr>f_buffer := [], f_out := f_out s @ f_buffer s\<rparr>"])
      (auto simp: fwd_inv_def inSend_def)
  with inv show ?thesis
    using fwd_step_channel by (auto simp: fwd_inv_def inSend_def respCapacity_def)
qed

text \<open>A response is sent and the session ends: \<open>shutdown\<close> is seen first, and the response is lost.\<close>

theorem responses_forwarded_witness:
  "\<exists>s :: string subscribeResponse forwarding. fwd_reachable s \<and> f_reader s = Ended \<and> f_sent s = [SyncResponse True] \<and> f_out s = [] \<and> f_buffer s = [SyncResponse True]
    \<and> length (f_buffer s) \<le> 256 \<and> f_sent s = f_out s @ inSend (f_reader s) @ f_buffer s"
proof -
  let ?r = "SyncResponse True :: string subscribeResponse"
  let ?ls = "[Arrive 0 ?r, Put 0, Close, CloseDone, ReadShutdown]"
  let ?s = "\<lparr>f_senders = [None :: string subscribeResponse option], f_buffer = [?r], f_closed = True, f_shutdown = True, f_reader = Ended,
     f_sent = [?r], f_out = [], f_crashed = False, f_returned = False\<rparr>"
  let ?s1 = "(startForwarding 1)\<lparr>f_senders := [Some ?r]\<rparr>"
  let ?s2 = "(startForwarding 1)\<lparr>f_buffer := [?r], f_sent := [?r]\<rparr>"
  have "fwd_step (startForwarding 1) (Arrive 0 ?r) ?s1"
    using arrive [of "startForwarding 1" 0 ?r] by (simp add: startForwarding_def)
  moreover have "fwd_step ?s1 (Put 0) ?s2"
    using put [of ?s1 0 ?r] by (simp add: startForwarding_def respCapacity_def)
  moreover have "fwd_step ?s2 Close (?s2\<lparr>f_closed := True\<rparr>)" by (rule close_channel) (simp_all add: startForwarding_def)
  moreover have "fwd_step (?s2\<lparr>f_closed := True\<rparr>) CloseDone (?s2\<lparr>f_closed := True, f_shutdown := True\<rparr>)"
    using close_done [of "?s2\<lparr>f_closed := True\<rparr>"] by (simp add: startForwarding_def)
  moreover have "fwd_step (?s2\<lparr>f_closed := True, f_shutdown := True\<rparr>) ReadShutdown ?s"
    using read_shutdown [of "?s2\<lparr>f_closed := True, f_shutdown := True\<rparr>"] by (simp add: startForwarding_def)
  ultimately have "fwd_steps (startForwarding 1) ?ls ?s" by (blast intro: fwd_more fwd_none)
  then have "fwd_reachable ?s" unfolding fwd_reachable_def by blast
  with responses_forwarded [OF this] show ?thesis by (intro exI [of _ ?s]) simp
qed

end
