(* ===== verification/ChangeDelivery.thy ===== *)
theory ChangeDelivery
  imports Forwarding
begin

text \<open>
  The way of a change to a client, across the components of \<open>gnmi/server/subscribe.go\<close> and \<open>server.go\<close>: a round of changes of the
  telemetry control block, the event of a subscription, its goroutine, the channel of responses and the goroutine that forwards
  them. What the client gets is given by a specification that mentions neither tries nor queues.
\<close>

section \<open>Counting the reports of a path\<close>

text \<open>What the source relies on of \<open>gtrie.Trie\<close> when it reads by prefix.\<close>

definition trie_search_laws :: "('t, 'v) trieOps \<Rightarrow> bool" where
  "trie_search_laws ops \<longleftrightarrow>
     (\<forall>k. tFind ops (tNew ops) k = None)
     \<and> (\<forall>t k v k'. tFind ops (tAdd ops k v t) k' = (if k' = k then Some v else tFind ops t k'))
     \<and> (\<forall>t p. map_ok (tAll ops t p) \<and> (\<forall>k v. (k, v) \<in> set (tAll ops t p) \<longleftrightarrow> tFind ops t k = Some v \<and> HasPrefix k p))
     \<and> (\<forall>t p. set (tPrefixSearch ops t p) = {k. tFind ops t k \<noteq> None \<and> HasPrefix k p})"

lemma listTrie_search_laws: "trie_search_laws listTrie"
proof -
  have k: "fst ` set (AList.clearjunk t) = {k. map_get t k \<noteq> None}" for t :: "(string, 'a) gomap"
    by (simp add: dom_map_of_conv_image_fst [symmetric] map_of_clearjunk) (simp add: dom_def)
  have kv: "(k, v) \<in> set (AList.clearjunk t) \<longleftrightarrow> map_get t k = Some v" for t :: "(string, 'a) gomap" and k v
    by (metis distinct_clearjunk map_of_clearjunk map_of_eq_Some_iff)
  have "map_ok (filter (\<lambda>kv. HasPrefix (fst kv) p) (AList.clearjunk t))" for t :: "(string, 'a) gomap" and p
    by (simp add: map_ok_def distinct_map_filter)
  moreover have "{x \<in> fst ` set (AList.clearjunk t). HasPrefix x p} = {k. (\<exists>y. map_get t k = Some y) \<and> HasPrefix k p}"
    for t :: "(string, 'a) gomap" and p by (simp add: k)
  ultimately show ?thesis by (auto simp: trie_search_laws_def listTrie_def gomap_simps kv)
qed

text \<open>The counter of a path is 32 bits wide.\<close>

lemma countPaths_find:
  assumes "trie_search_laws ops"
  shows "tFind ops (countPaths ops ps t) k =
    (if k \<in> set ps then Some ((case tFind ops t k of None \<Rightarrow> 0 | Some v \<Rightarrow> v) + of_nat (count_list ps k)) else tFind ops t k)"
proof (induction ps arbitrary: t)
  case (Cons p ps)
  have add: "tFind ops (tAdd ops p v t) k' = (if k' = p then Some v else tFind ops t k')" for v k'
    using assms by (simp add: trie_search_laws_def)
  show ?case by (auto simp: Cons.IH add split: option.split)
qed simp

definition startingWith :: "string list \<Rightarrow> string \<Rightarrow> string list" where
  "startingWith ps d = filter (\<lambda>p. HasPrefix p d) ps"

lemma sum_count_startingWith: "(\<Sum>k \<in> {k \<in> set ps. HasPrefix k d}. count_list ps k) = length (startingWith ps d)"
proof -
  have "count_list (startingWith ps d) k = (if HasPrefix k d then count_list ps k else 0)" for k
    by (induction ps) (auto simp: startingWith_def)
  moreover have "(\<Sum>k \<in> set (startingWith ps d). count_list (startingWith ps d) k) = length (startingWith ps d)" by (rule sum_count_set) simp_all
  ultimately show ?thesis by (simp add: startingWith_def)
qed

lemma countPaths_all:
  assumes "trie_search_laws ops"
  shows "sum_list (map snd (tAll ops (countPaths ops ps (tNew ops)) d)) = of_nat (length (startingWith ps d))"
proof -
  let ?t = "countPaths ops ps (tNew ops)"
  have new: "tFind ops (tNew ops) k = None" for k using assms by (simp add: trie_search_laws_def)
  have ok: "map_ok (tAll ops ?t d)" and mem: "\<And>k v. (k, v) \<in> set (tAll ops ?t d) \<longleftrightarrow> tFind ops ?t k = Some v \<and> HasPrefix k d"
    using assms by (simp_all add: trie_search_laws_def)
  have "set (tAll ops ?t d) = (\<lambda>k. (k, of_nat (count_list ps k))) ` {k \<in> set ps. HasPrefix k d}"
    by (auto simp: mem countPaths_find [OF assms] new split: if_splits)
  moreover have "sum_list (map snd (tAll ops ?t d)) = (\<Sum>kv \<in> set (tAll ops ?t d). snd kv)"
    using ok by (simp add: sum_list_distinct_conv_sum_set map_ok_def distinct_map)
  ultimately have "sum_list (map snd (tAll ops ?t d)) = (\<Sum>k \<in> {k \<in> set ps. HasPrefix k d}. of_nat (count_list ps k))"
    by (simp add: sum.reindex inj_on_def)
  then show ?thesis by (simp flip: sum_count_startingWith)
qed

section \<open>What a client is told\<close>

definition foundIn :: "'tv modelEnv \<Rightarrow> gval option \<Rightarrow> gpath option \<Rightarrow> DataAndPath list" where
  "foundIn env branch path = (case Find (me_vals env) (me_schema env) branch path [] of (found, ok) \<Rightarrow> if ok then found else [])"

text \<open>A node has an update if it has a value to encode; its duplicates are the reported paths that start with
  its own, as strings.\<close>

definition updateOn :: "'tv modelEnv \<Rightarrow> gEncoding \<Rightarrow> string list \<Rightarrow> DataAndPath \<Rightarrow> 'tv gupdate list" where
  "updateOn env encoding updated data =
     (case (me_encode env (d_Value data) encoding, ToGNMIPath (d_Path data)) of
        (Inr (Some v), Inr g) \<Rightarrow> [\<lparr>u_Path = g, u_Val = Some v, u_Duplicates = of_nat (length (startingWith updated (d_Path data)))\<rparr>]
      | _ \<Rightarrow> [])"

definition updatesIn :: "'tv modelEnv \<Rightarrow> gEncoding \<Rightarrow> string list \<Rightarrow> gval option \<Rightarrow> gpath option list \<Rightarrow> 'tv gupdate list" where
  "updatesIn env encoding updated branch paths =
     concat (map (\<lambda>path. concat (map (updateOn env encoding updated) (foundIn env branch path))) paths)"

text \<open>One response per node of the prefix: all values of the paths of the subscription, and the deleted paths that
  start with the path of the node.\<close>

definition reports ::
    "'tv modelEnv \<Rightarrow> gEncoding \<Rightarrow> gpath option list \<Rightarrow> string list \<Rightarrow> string list \<Rightarrow> gpath option \<Rightarrow> DataAndPath \<Rightarrow> 'tv subscribeResponse \<Rightarrow> bool" where
  "reports env encoding paths updated deleted prefixAlias top_node r =
     (case r of
        SyncResponse _ \<Rightarrow> False
      | ResponseUpdate n \<Rightarrow>
          n_Prefix n = prefixAlias \<and> n_Alias n = [] \<and> n_Update n = updatesIn env encoding updated (d_Value top_node) paths
          \<and> Inr ` set (n_Delete n) = ToGNMIPath ` set (startingWith deleted (d_Path top_node)))"

lemma reports_update [simp]:
  "reports env encoding paths updated deleted prefixAlias t (ResponseUpdate n) \<longleftrightarrow>
     n_Prefix n = prefixAlias \<and> n_Alias n = [] \<and> n_Update n = updatesIn env encoding updated (d_Value t) paths
     \<and> Inr ` set (n_Delete n) = ToGNMIPath ` set (startingWith deleted (d_Path t))"
  by (simp add: reports_def)

section \<open>The update of a subscription\<close>

lemma getUpdates_reference:
  assumes "trie_search_laws ops" "getUpdates env ops (Some (countPaths ops ups (tNew ops))) data encoding = Ok u"
  shows "(case u of None \<Rightarrow> [] | Some x \<Rightarrow> [x]) = updateOn env encoding ups data"
  using assms(2) by (auto simp: getUpdates_def updateOn_def countPaths_all [OF assms(1)] split: sum.splits option.splits exn.splits)

lemma dataUpdates_reference:
  assumes "trie_search_laws ops" "dataUpdates env ops (Some (countPaths ops ups (tNew ops))) encoding l = Ok us"
  shows "us = concat (map (updateOn env encoding ups) l)"
  using assms(2)
proof (induction l arbitrary: us)
  case (Cons d l)
  then obtain u vs where u: "getUpdates env ops (Some (countPaths ops ups (tNew ops))) d encoding = Ok u"
    and vs: "dataUpdates env ops (Some (countPaths ops ups (tNew ops))) encoding l = Ok vs" "us = (case u of None \<Rightarrow> vs | Some x \<Rightarrow> x # vs)"
    by (auto split: sum.splits)
  have "us = (case u of None \<Rightarrow> [] | Some x \<Rightarrow> [x]) @ vs" using vs(2) by (cases u) simp_all
  then show ?case using getUpdates_reference [OF assms(1) u] Cons.IH [OF vs(1)] by simp
qed simp

lemma pathUpdates_reference:
  assumes "trie_search_laws ops" "pathUpdates env ops (Some (countPaths ops ups (tNew ops))) encoding prefix branch paths = Ok us"
  shows "us = updatesIn env encoding ups branch paths"
  using assms(2)
proof (induction paths arbitrary: us)
  case (Cons p paths)
  obtain l ok where f: "Find (me_vals env) (me_schema env) branch p [] = (l, ok)" by fastforce
  show ?case
  proof (cases "\<not> ok \<or> l = []")
    case True
    then have "foundIn env branch p = []" by (auto simp: foundIn_def f)
    with True Cons show ?thesis by (auto simp: f updatesIn_def split: sum.splits)
  next
    case False
    with Cons.prems f obtain us1 us2 where u: "dataUpdates env ops (Some (countPaths ops ups (tNew ops))) encoding l = Ok us1"
      "pathUpdates env ops (Some (countPaths ops ups (tNew ops))) encoding prefix branch paths = Ok us2" "us = us1 @ us2"
      by (auto split: sum.splits)
    with False f show ?thesis using dataUpdates_reference [OF assms(1) u(1)] Cons.IH [OF u(2)] by (simp add: updatesIn_def foundIn_def)
  qed
qed (simp add: updatesIn_def)

lemma getDeletes_reference:
  assumes "trie_search_laws ops" "getDeletes ops (countPaths ops dels (tNew ops)) u d False = Ok ds"
  shows "Inr ` set ds = ToGNMIPath ` set (startingWith dels d)"
proof -
  have "getDeletes_loop ops u False ps = Ok ds \<Longrightarrow> Inr ` set ds = ToGNMIPath ` set ps" for ps ds
    by (induction ps arbitrary: ds) (fastforce split: sum.splits exn.splits)+
  moreover have "set (tPrefixSearch ops (countPaths ops dels (tNew ops)) d) = set (startingWith dels d)"
    using assms(1) countPaths_find [OF assms(1), of dels "tNew ops"] by (auto simp: trie_search_laws_def startingWith_def split: if_splits)
  ultimately show ?thesis using assms(2) unfolding getDeletes_def by metis
qed

text \<open>The tries of a subscription after one event.\<close>

definition counted :: "('u, 32 word) trieOps \<Rightarrow> string list \<Rightarrow> string list \<Rightarrow> 'u subView \<Rightarrow> bool" where
  "counted ops updated deleted v \<longleftrightarrow>
     sv_updatedList v = countPaths ops updated (tNew ops) \<and> sv_deletedList v = countPaths ops deleted (tNew ops)"

lemma telemetryTops_reports:
  assumes "trie_search_laws ops" "counted ops updated deleted v" "telemetryTops env ops clock v prefixAlias tops ch = (ch', Ok ())"
  shows "\<exists>us. rc_sent ch' = rc_sent ch @ us \<and> rc_closed ch' = rc_closed ch
    \<and> list_all2 (reports env (sv_Encoding v) (sv_Paths v) updated deleted prefixAlias) tops us"
  using assms(3)
proof (induction tops arbitrary: ch)
  case (Cons t tops)
  from Cons.prems obtain ds us where ds: "getDeletes ops (sv_deletedList v) (sv_updatedList v) (d_Path t) False = Ok ds"
    and us: "pathUpdates env ops (Some (sv_updatedList v)) (sv_Encoding v) (sv_Prefix v) (d_Value t) (sv_Paths v) = Ok us"
    and rest: "telemetryTops env ops clock v prefixAlias tops
        (ch\<lparr>rc_sent := rc_sent ch @ buildSubscribeResponse (clock (length (rc_sent ch))) prefixAlias (Some us) (Some ds)\<rparr>) = (ch', Ok ())"
    by (auto simp: sendTelemetryUpdate_eq split: if_splits sum.splits)
  from Cons.IH [OF rest] obtain vs where vs: "list_all2 (reports env (sv_Encoding v) (sv_Paths v) updated deleted prefixAlias) tops vs"
    "rc_sent ch' = rc_sent ch @ buildSubscribeResponse (clock (length (rc_sent ch))) prefixAlias (Some us) (Some ds) @ vs"
    "rc_closed ch' = rc_closed ch" by auto
  have "us = updatesIn env (sv_Encoding v) updated (d_Value t) (sv_Paths v)" "Inr ` set ds = ToGNMIPath ` set (startingWith deleted (d_Path t))"
    using pathUpdates_reference [OF assms(1)] getDeletes_reference [OF assms(1)] us ds assms(2) unfolding counted_def by metis+
  with vs show ?case
    by (intro exI [of _ "buildSubscribeResponse (clock (length (rc_sent ch))) prefixAlias (Some us) (Some ds) @ vs"])
      (simp add: buildSubscribeResponse_def)
qed simp

lemma telemetryUpdate_reports:
  assumes "trie_search_laws ops" "counted ops updated deleted v" "telemetryUpdate env ops clock cas root v (Some tree) ch = (ch', Ok ())"
  shows "\<exists>prefixAlias us. asPath (ToAlias cas (GPath (sv_Prefix v)) False) = Ok prefixAlias
    \<and> rc_sent ch' = rc_sent ch @ us \<and> rc_closed ch' = rc_closed ch
    \<and> list_all2 (reports env (sv_Encoding v) (sv_Paths v) updated deleted prefixAlias) (foundIn env (Some tree) (sv_Prefix v)) us"
proof -
  obtain l ok where f: "Find (me_vals env) (me_schema env) (Some tree) (sv_Prefix v) [] = (l, ok)" by fastforce
  from assms(3) f obtain prefixAlias where a: "asPath (ToAlias cas (GPath (sv_Prefix v)) False) = Ok prefixAlias"
    and t: "if \<not> ok \<or> l = [] then ch' = ch else telemetryTops env ops clock v prefixAlias l ch = (ch', Ok ())"
    by (auto simp: telemetryUpdate_def split: if_splits sum.splits)
  show ?thesis
  proof (cases "\<not> ok \<or> l = []")
    case True
    with t a show ?thesis by (auto simp: foundIn_def f)
  next
    case False
    with t telemetryTops_reports [OF assms(1,2), of env clock prefixAlias l ch ch'] a show ?thesis by (simp add: foundIn_def f)
  qed
qed

section \<open>The goroutine of the subscription\<close>

text \<open>
  A goroutine for changes that waits, with nothing to report and its queue empty; the channel of responses is open. One event that
  is put into the queue is served by two steps.
\<close>

definition awaits :: "('u, 32 word) trieOps \<Rightarrow> ('u, 'tv) runState \<Rightarrow> bool" where
  "awaits ops st \<longleftrightarrow>
     r_phase st = Running \<and> c_StreamMode (sub_Configured (r_sub st)) = ON_CHANGE \<and> r_queue st = [] \<and> \<not> r_qclosed st
     \<and> sub_updatedList (r_sub st) = tNew ops \<and> sub_deletedList (r_sub st) = tNew ops \<and> \<not> rc_closed (r_ch st)"

lemma event_served:
  assumes "trie_search_laws ops" "awaits ops st" "ev_updatedroot ev = Some tree"
  shows "\<exists>st'. run_steps env ops clock st [Enqueue ev, Event] st'
    \<and> (r_phase st' = Running \<longrightarrow> awaits ops st' \<and> (\<exists>prefixAlias us.
          asPath (ToAlias (r_cas st) (GPath (sub_Prefix (r_sub st))) False) = Ok prefixAlias \<and> rc_sent (r_ch st') = rc_sent (r_ch st) @ us
          \<and> list_all2 (reports env (sub_Encoding (r_sub st)) (sub_Paths (r_sub st)) (ev_updatedPath ev) (ev_deletedPath ev) prefixAlias)
              (foundIn env (Some tree) (sub_Prefix (r_sub st))) us))"
proof -
  let ?sub = "countEvent ops ev (r_sub st)"
  let ?q = "st\<lparr>r_queue := [ev]\<rparr>"
  let ?st1 = "(?q\<lparr>r_queue := []\<rparr>)\<lparr>r_sub := ?sub\<rparr>"
  let ?out = "telemetryUpdate env ops clock (r_cas st) (r_root st) (viewOf ?sub) (Some tree) (r_ch st)"
  note aw = assms(2) [unfolded awaits_def]
  have "run_step env ops clock st (Enqueue ev) ?q" using aw enqueue [of st env ops clock ev] by simp
  moreover have "run_step env ops clock ?q Event (onEvent env ops clock ev (?q\<lparr>r_queue := []\<rparr>))"
    by (rule event) (use aw in simp_all)
  moreover have "onEvent env ops clock ev (?q\<lparr>r_queue := []\<rparr>) = afterUpdate ops ?out ?st1"
    using aw assms(3) by (simp add: onEvent_def Let_def)
  ultimately have steps: "run_steps env ops clock st [Enqueue ev, Event] (afterUpdate ops ?out ?st1)" by (auto simp: run_steps_Cons)
  obtain ch r where out: "?out = (ch, r)" by (cases ?out)
  show ?thesis
  proof (cases r)
    case (Inl e)
    with out have "r_phase (afterUpdate ops ?out ?st1) \<noteq> Running" by (cases e) (simp_all add: afterUpdate_def)
    with steps show ?thesis by blast
  next
    case (Inr u)
    have "counted ops (ev_updatedPath ev) (ev_deletedPath ev) (viewOf ?sub)" using aw by (simp add: counted_def viewOf_def countEvent_def)
    moreover have "?out = (ch, Ok ())" using out Inr by simp
    ultimately obtain prefixAlias us where
      "asPath (ToAlias (r_cas st) (GPath (sub_Prefix (r_sub st))) False) = Ok prefixAlias" "rc_sent ch = rc_sent (r_ch st) @ us"
      "rc_closed ch = rc_closed (r_ch st)"
      "list_all2 (reports env (sub_Encoding (r_sub st)) (sub_Paths (r_sub st)) (ev_updatedPath ev) (ev_deletedPath ev) prefixAlias)
         (foundIn env (Some tree) (sub_Prefix (r_sub st))) us"
      using telemetryUpdate_reports [OF assms(1), of _ _ "viewOf ?sub" env clock "r_cas st" "r_root st" tree "r_ch st" ch] unfolding viewOf_def countEvent_def by fastforce
    then show ?thesis
      using steps aw out Inr
      by (intro exI [of _ "afterUpdate ops ?out ?st1"]) (simp add: afterUpdate_def awaits_def resetLists_def countEvent_def)
  qed
qed

section \<open>The way through the channel\<close>

text \<open>The forwarding goroutine reads, and a sender is elsewhere.\<close>

definition idle :: "nat \<Rightarrow> 'r forwarding \<Rightarrow> bool" where
  "idle j s \<longleftrightarrow> f_reader s = Reading \<and> \<not> f_crashed s \<and> \<not> f_closed s \<and> \<not> f_returned s \<and> j < length (f_senders s) \<and> f_senders s ! j = None"

lemma forward_one:
  assumes "idle j s" "f_buffer s = []"
  shows "\<exists>s'. fwd_steps s [Arrive j r, Put j, Take, Sent] s' \<and> idle j s' \<and> f_buffer s' = []
    \<and> f_out s' = f_out s @ [r] \<and> f_sent s' = f_sent s @ [r]"
proof -
  let ?a = "s\<lparr>f_senders := (f_senders s)[j := Some r]\<rparr>"
  let ?b = "?a\<lparr>f_senders := (f_senders ?a)[j := None], f_buffer := f_buffer ?a @ [r], f_sent := f_sent ?a @ [r]\<rparr>"
  let ?c = "?b\<lparr>f_reader := Sending r, f_buffer := []\<rparr>"
  let ?d = "?c\<lparr>f_reader := Reading, f_out := f_out ?c @ [r]\<rparr>"
  note idle = assms(1) [unfolded idle_def]
  have "fwd_step s (Arrive j r) ?a" by (rule arrive) (use idle in simp_all)
  moreover have "fwd_step ?a (Put j) ?b" by (rule put) (use idle assms(2) in \<open>simp_all add: respCapacity_def\<close>)
  moreover have "fwd_step ?b Take ?c" by (rule take_one) (use idle assms(2) in simp_all)
  moreover have "fwd_step ?c Sent ?d" by (rule sent) (use idle in simp_all)
  ultimately have "fwd_steps s [Arrive j r, Put j, Take, Sent] ?d" unfolding fwd_steps_simps by blast
  then show ?thesis using idle by (intro exI [of _ ?d]) (simp add: idle_def)
qed

lemma forward_all:
  assumes "idle j s"
  shows "\<exists>ls s'. fwd_steps s ls s' \<and> idle j s' \<and> f_out s' = f_out s @ f_buffer s @ us \<and> f_sent s' = f_sent s @ us"
proof -
  have *: "\<exists>ls s'. fwd_steps s ls s' \<and> idle j s' \<and> f_out s' = f_out s @ us \<and> f_sent s' = f_sent s @ us"
    if "idle j s" "f_buffer s = []" for s
    using that
  proof (induction us arbitrary: s)
    case (Cons r us)
    from forward_one [OF Cons.prems, of r] obtain s1 where 1: "fwd_steps s [Arrive j r, Put j, Take, Sent] s1" "idle j s1" "f_buffer s1 = []"
      "f_out s1 = f_out s @ [r]" "f_sent s1 = f_sent s @ [r]" by blast
    from Cons.IH [OF 1(2,3)] obtain ls s2 where "fwd_steps s1 ls s2" "idle j s2" "f_out s2 = f_out s1 @ us" "f_sent s2 = f_sent s1 @ us" by blast
    with fwd_steps_append [OF 1(1)] 1(4,5) show ?case by fastforce
  qed (auto intro: fwd_none)
  let ?s0 = "s\<lparr>f_buffer := [], f_out := f_out s @ f_buffer s\<rparr>"
  have d: "fwd_steps s (concat (replicate (length (f_buffer s)) [Take, Sent])) ?s0" using fwd_drain [of s] assms by (simp add: idle_def)
  from * [of ?s0] assms obtain ls s' where "fwd_steps ?s0 ls s'" "idle j s'" "f_out s' = f_out ?s0 @ us" "f_sent s' = f_sent ?s0 @ us"
    by (auto simp: idle_def)
  with fwd_steps_append [OF d] show ?thesis by fastforce
qed

section \<open>Properties\<close>

text \<open>The event of a subscription for a round of changes.\<close>

definition roundEvent ::
    "('t, subscribers) trieOps \<Rightarrow> 't \<Rightarrow> TeleID \<Rightarrow> teleChange list \<Rightarrow> gval \<Rightarrow> gval teleEvent" where
  "roundEvent ops t i cs tree = \<lparr>ev_sub = i, ev_updatedroot = Some tree, ev_updatedPath = updatesFor ops t i cs,
      ev_deletedPath = deletesFor ops t i cs\<rparr>"

text \<open>C5: A round of changes reaches the client of a subscription to changes that it concerns. The round puts one event into the
  queue of the subscription; two steps of its goroutine serve it. Unless the update fails, which ends the goroutine, the client can
  get, after what was on its way, exactly one response per node that the prefix matches in the tree of the round: with all values of
  the paths of the subscription, how often paths that start with theirs were reported, and the deleted paths. The goroutine is
  ready for the next round.\<close>

theorem change_reaches_client:
  assumes "trie_search_laws ops'" "awaits ops' st" "channelOf s = r_ch st" "idle j s"
    and "\<forall>i q. map_get qs i = Some q \<longrightarrow> \<not> ch_closed q \<and> length (ch_buf q) < ch_cap q"
    and "map_get qs i = Some q" "ch_buf q = []"
    and "updatesFor ops (lookup tcb) i cs \<noteq> [] \<or> deletesFor ops (lookup tcb) i cs \<noteq> []"
  shows "\<exists>tcb1 tcb2 qs' st'. applyChanges ops cs (ChangeStarted tcb) = Ok tcb1 \<and> ChangeCompleted tree qs tcb1 = Completed (tcb2, qs')
    \<and> map_get qs' i = Some (q\<lparr>ch_buf := [roundEvent ops (lookup tcb) i cs tree]\<rparr>)
    \<and> run_steps env ops' clock st [Enqueue (roundEvent ops (lookup tcb) i cs tree), Event] st'
    \<and> (r_phase st' = Running \<longrightarrow> awaits ops' st' \<and> (\<exists>prefixAlias us ls s'.
          asPath (ToAlias (r_cas st) (GPath (sub_Prefix (r_sub st))) False) = Ok prefixAlias
          \<and> list_all2 (reports env (sub_Encoding (r_sub st)) (sub_Paths (r_sub st))
                (updatesFor ops (lookup tcb) i cs) (deletesFor ops (lookup tcb) i cs) prefixAlias)
              (foundIn env (Some tree) (sub_Prefix (r_sub st))) us
          \<and> fwd_steps s ls s' \<and> f_out s' = f_out s @ f_buffer s @ us \<and> rc_sent (channelOf s') = rc_sent (r_ch st')))"
proof -
  let ?ev = "roundEvent ops (lookup tcb) i cs tree"
  from round_delivers [OF assms(5), of ops cs tcb tree] assms(6-8) roundEvent_def obtain tcb1 tcb2 qs' where
    r: "applyChanges ops cs (ChangeStarted tcb) = Ok tcb1" "ChangeCompleted tree qs tcb1 = Completed (tcb2, qs')"
      "map_get qs' i = Some (q\<lparr>ch_buf := [?ev]\<rparr>)" by (fastforce simp: roundEvent_def)
  from event_served [OF assms(1,2), of ?ev tree env clock] obtain st' where
    st: "run_steps env ops' clock st [Enqueue ?ev, Event] st'"
      "r_phase st' = Running \<Longrightarrow> awaits ops' st' \<and> (\<exists>prefixAlias us.
          asPath (ToAlias (r_cas st) (GPath (sub_Prefix (r_sub st))) False) = Ok prefixAlias \<and> rc_sent (r_ch st') = rc_sent (r_ch st) @ us
          \<and> list_all2 (reports env (sub_Encoding (r_sub st)) (sub_Paths (r_sub st)) (updatesFor ops (lookup tcb) i cs)
                (deletesFor ops (lookup tcb) i cs) prefixAlias) (foundIn env (Some tree) (sub_Prefix (r_sub st))) us)" by (auto simp: roundEvent_def)
  have sent: "rc_sent (channelOf s') = rc_sent (r_ch st) @ us" if "f_sent s' = f_sent s @ us" for s' us
    using that assms(3) [symmetric] by (simp add: channelOf_def)
  have "r_phase st' = Running \<longrightarrow> awaits ops' st' \<and> (\<exists>prefixAlias us ls s'.
          asPath (ToAlias (r_cas st) (GPath (sub_Prefix (r_sub st))) False) = Ok prefixAlias
          \<and> list_all2 (reports env (sub_Encoding (r_sub st)) (sub_Paths (r_sub st))
                (updatesFor ops (lookup tcb) i cs) (deletesFor ops (lookup tcb) i cs) prefixAlias)
              (foundIn env (Some tree) (sub_Prefix (r_sub st))) us
          \<and> fwd_steps s ls s' \<and> f_out s' = f_out s @ f_buffer s @ us \<and> rc_sent (channelOf s') = rc_sent (r_ch st'))" (is "_ \<longrightarrow> ?told")
  proof
    assume running: "r_phase st' = Running"
    from st(2) [OF this] obtain prefixAlias us where told: "awaits ops' st'"
      "asPath (ToAlias (r_cas st) (GPath (sub_Prefix (r_sub st))) False) = Ok prefixAlias" "rc_sent (r_ch st') = rc_sent (r_ch st) @ us"
      "list_all2 (reports env (sub_Encoding (r_sub st)) (sub_Paths (r_sub st)) (updatesFor ops (lookup tcb) i cs)
          (deletesFor ops (lookup tcb) i cs) prefixAlias) (foundIn env (Some tree) (sub_Prefix (r_sub st))) us" by blast
    obtain ls s' where "fwd_steps s ls s'" "f_out s' = f_out s @ f_buffer s @ us" "f_sent s' = f_sent s @ us"
      using forward_all [OF assms(4), of us] by blast
    with told sent show ?told by metis
  qed
  with r st(1) show ?thesis by blast
qed

text \<open>The two steps are determined.\<close>

lemma event_steps_end:
  assumes "run_steps env ops clock st [Enqueue ev, Event] st'" "r_queue st = []"
  shows "st' = onEvent env ops clock ev st"
proof -
  from assms(1) obtain st1 where 1: "run_step env ops clock st (Enqueue ev) st1" "run_step env ops clock st1 Event st'"
    by (auto simp: run_steps_Cons)
  from 1(1) assms(2) have "st1 = st\<lparr>r_queue := [ev]\<rparr>" by (auto elim: run_step_EnqueueE)
  with 1(2) have "st' = onEvent env ops clock ev (st\<lparr>r_queue := []\<rparr>)" by (auto elim: run_step_EventE)
  moreover have "st\<lparr>r_queue := []\<rparr> = st" using assms(2) by (cases st) simp
  ultimately show ?thesis by simp
qed

definition exChangeSub :: "(string, 32 word) gomap subscription" where
  "exChangeSub = exSub\<lparr>sub_Configured := (sub_Configured exSub)\<lparr>c_StreamMode := ON_CHANGE\<rparr>\<rparr>"

definition exWaiting :: "((string, 32 word) gomap, string) runState" where
  "exWaiting = exRun\<lparr>r_sub := exChangeSub\<rparr>"

definition exTcb :: "((string, subscribers) gomap, gval) teleCtrl" where
  "exTcb = \<lparr>lookup = [(''/interface[name=eth0]/mtu'', [(7, 7)])], ready = []\<rparr>"

text \<open>One leaf is deleted: the client gets the values that remain and the path of the leaf.\<close>

theorem change_reaches_client_witness:
  "\<exists>ls s' n. fwd_steps (startForwarding 1) ls s' \<and> f_out s' = [ResponseUpdate n] \<and> n_Prefix n = Some exEth0
    \<and> map u_Val (n_Update n) = [Some ''eth0'']
    \<and> set (n_Delete n) = {empty_gpath\<lparr>p_Elem := [mkElem ''interface'' [(''name'', ''eth0'')], mkElem ''mtu'' []]\<rparr>}"
proof -
  let ?cs = "[Deleted ''/interface[name=eth0]/mtu'']"
  let ?ev = "roundEvent listTrie (lookup exTcb) 7 ?cs exRoot"
  let ?told = "reports exEnv 4 [Some (empty_gpath\<lparr>p_Elem := [mkElem ''name'' []]\<rparr>)] [] [''/interface[name=eth0]/mtu''] (Some exEth0)"
  let ?node = "\<lparr>d_Value = Some (exInterface ''eth0''), d_Path = ''/interface[name=eth0]''\<rparr>"
  have paths: "updatesFor listTrie (lookup exTcb) 7 ?cs = []" "deletesFor listTrie (lookup exTcb) 7 ?cs = [''/interface[name=eth0]/mtu'']"
    by code_simp+
  have sub: "sub_Encoding exChangeSub = 4" "sub_Paths exChangeSub = [Some (empty_gpath\<lparr>p_Elem := [mkElem ''name'' []]\<rparr>)]"
    "sub_Prefix exChangeSub = Some exEth0" by code_simp+
  have waits: "awaits listTrie exWaiting"
    by (simp add: awaits_def exWaiting_def exChangeSub_def exRun_def exSub_def newSubscription_def listTrie_def exChan_def)
  have chan: "channelOf (startForwarding 1) = r_ch exWaiting" by (simp add: channelOf_def startForwarding_def exWaiting_def exRun_def exChan_def)
  have idle: "idle 0 (startForwarding 1)" by (simp add: idle_def startForwarding_def)
  have room: "\<forall>i q. map_get [(7, exQueue 64)] i = Some q \<longrightarrow> \<not> ch_closed q \<and> length (ch_buf q) < ch_cap q"
    by (auto simp: exQueue_def split: if_splits)
  have q: "map_get [(7 :: TeleID, exQueue 64)] 7 = Some (exQueue 64)" "ch_buf (exQueue 64) = []" by (simp_all add: exQueue_def)
  have ne: "updatesFor listTrie (lookup exTcb) 7 ?cs \<noteq> [] \<or> deletesFor listTrie (lookup exTcb) 7 ?cs \<noteq> []" using paths(2) by simp
  have r_sub: "r_sub exWaiting = exChangeSub" by (simp add: exWaiting_def)
  from change_reaches_client [where i = 7 and cs = ?cs and tcb = exTcb and ops = listTrie and tree = exRoot and env = exEnv and clock = int,
      OF listTrie_search_laws waits chan idle room q ne, unfolded paths r_sub sub]
  obtain st' where st: "run_steps exEnv listTrie int exWaiting [Enqueue ?ev, Event] st'"
    and told: "r_phase st' = Running \<Longrightarrow> \<exists>prefixAlias us ls s'.
        asPath (ToAlias (r_cas exWaiting) (GPath (Some exEth0)) False) = Ok prefixAlias
        \<and> list_all2 (reports exEnv 4 [Some (empty_gpath\<lparr>p_Elem := [mkElem ''name'' []]\<rparr>)] [] [''/interface[name=eth0]/mtu''] prefixAlias)
            (foundIn exEnv (Some exRoot) (Some exEth0)) us
        \<and> fwd_steps (startForwarding 1) ls s' \<and> f_out s' = f_out (startForwarding 1) @ f_buffer (startForwarding 1) @ us"
    by blast
  have "r_phase (onEvent exEnv listTrie int ?ev exWaiting) = Running" by code_simp
  with event_steps_end [OF st] waits have "r_phase st' = Running" by (simp add: awaits_def)
  moreover have "asPath (ToAlias (r_cas exWaiting) (GPath (Some exEth0)) False) = Ok (Some exEth0)" by code_simp
  moreover have "foundIn exEnv (Some exRoot) (Some exEth0) = [?node]" by code_simp
  ultimately obtain us ls s' where us: "list_all2 ?told [?node] us" and fwd: "fwd_steps (startForwarding 1) ls s'"
      "f_out s' = f_out (startForwarding 1) @ f_buffer (startForwarding 1) @ us"
    using told by auto
  from us obtain r where r: "us = [r]" "?told ?node r" by (auto simp: list_all2_Cons1)
  then obtain n where n: "r = ResponseUpdate n" by (cases r) (auto simp: reports_def)
  have "map u_Val (updatesIn exEnv 4 [] (Some (exInterface ''eth0'')) [Some (empty_gpath\<lparr>p_Elem := [mkElem ''name'' []]\<rparr>)]) = [Some ''eth0'']"
    by code_simp
  with r n have upd: "map u_Val (n_Update n) = [Some ''eth0'']" "n_Prefix n = Some exEth0" by simp_all
  have "ToGNMIPath ` set (startingWith [''/interface[name=eth0]/mtu''] ''/interface[name=eth0]'')
      = Inr ` {empty_gpath\<lparr>p_Elem := [mkElem ''interface'' [(''name'', ''eth0'')], mkElem ''mtu'' []]\<rparr>}" by code_simp
  with r n have "(Inr :: gpath \<Rightarrow> xpath_error exn + gpath) ` set (n_Delete n) = Inr ` {empty_gpath\<lparr>p_Elem := [mkElem ''interface'' [(''name'', ''eth0'')], mkElem ''mtu'' []]\<rparr>}"
    by simp
  then have "set (n_Delete n) = {empty_gpath\<lparr>p_Elem := [mkElem ''interface'' [(''name'', ''eth0'')], mkElem ''mtu'' []]\<rparr>}"
    by (simp only: inj_image_eq_iff [OF inj_Inr])
  with upd fwd r n show ?thesis by (intro exI [of _ ls] exI [of _ s'] exI [of _ n]) (simp add: startForwarding_def)
qed

end
