(* ===== verification/TreeWrite.thy ===== *)
theory TreeWrite
  imports DataTree
begin

text \<open>
  Writing the data tree: \<open>GetOrCreateNode\<close>, \<open>WriteValue\<close>, \<open>WriteTypedValue\<close>, \<open>WriteStringValue\<close>, \<open>DeleteValue\<close>,
  \<open>FindValue\<close> and the internal JSON form, of \<open>gnmi/model/utilities.go\<close>. The tree is mutable Go data that is
  shared by pointers, so it is a heap of type \<open>'h\<close> and its values are references of type \<open>'v\<close>; the functions of
  \<open>ytypes\<close>, \<open>ydb\<close>, \<open>ygot\<close>, \<open>reflect\<close> and \<open>encoding/json\<close> that read and write it are the fields of one record.
\<close>

section \<open>Functions on a heap\<close>

type_synonym ('h, 'e, 'a) actM = "'h \<Rightarrow> 'h \<times> ('e, 'a) result"
type_synonym ('h, 'a) heapM = "('h, string, 'a) actM"

definition hret :: "'a \<Rightarrow> ('h, 'e, 'a) actM" where "hret v h = (h, Ok v)"
definition herr :: "'e \<Rightarrow> ('h, 'e, 'a) actM" where "herr e h = (h, Failed e)"
definition hpanic :: "panic \<Rightarrow> ('h, 'e, 'a) actM" where "hpanic p h = (h, Panics p)"

definition hbind :: "('h, 'e, 'a) actM \<Rightarrow> ('a \<Rightarrow> ('h, 'e, 'b) actM) \<Rightarrow> ('h, 'e, 'b) actM" where
  "hbind m f h = (case m h of (h', Inl e) \<Rightarrow> (h', Inl e) | (h', Inr v) \<Rightarrow> f v h')"

named_theorems heap_simps "unfolding of functions on a heap"

lemmas [heap_simps] = hret_def herr_def hpanic_def hbind_def

section \<open>The library\<close>

datatype typedValue = JsonVal string | JsonIetfVal string | BoolVal bool | OtherVal string

datatype json = JObject "(string \<times> json) list" | JArray "json list" | JNumber string | JString string | JNull | JBool bool

text \<open>\<open>yang.YangType\<close>: the kind of a leaf's type, with the members of a union.\<close>

datatype ykind =
    Ynone | Yint8 | Yint16 | Yint32 | Yint64 | Yuint8 | Yuint16 | Yuint32 | Yuint64 | Ybinary | Ybits | Ybool
  | Ydecimal64 | Yempty | Yenum | Yidentityref | YinstanceIdentifier | Yleafref | Ystring | Yunion

datatype yangType = YangType (yt_Kind: ykind) (yt_Type: "yangType list")

fun scalarType :: "ykind \<Rightarrow> gotype option" where
  "scalarType Ystring = Some (TScalar ''string'')"
| "scalarType Ybool = Some (TScalar ''bool'')"
| "scalarType Yempty = Some (TScalar ''bool'')"
| "scalarType Yint8 = Some (TScalar ''int8'')"
| "scalarType Yint16 = Some (TScalar ''int16'')"
| "scalarType Yint32 = Some (TScalar ''int32'')"
| "scalarType Yint64 = Some (TScalar ''int64'')"
| "scalarType Yuint8 = Some (TScalar ''uint8'')"
| "scalarType Yuint16 = Some (TScalar ''uint16'')"
| "scalarType Yuint32 = Some (TScalar ''uint32'')"
| "scalarType Yuint64 = Some (TScalar ''uint64'')"
| "scalarType Ybinary = Some (TSlice (TScalar ''uint8''))"
| "scalarType Ybits = Some (TScalar ''int8'')"
| "scalarType Ydecimal64 = Some (TScalar ''float64'')"
| "scalarType YinstanceIdentifier = Some (TScalar ''string'')"
| "scalarType Yleafref = Some (TScalar ''string'')"
| "scalarType Yenum = Some (TScalar ''int64'')"
| "scalarType Yidentityref = Some (TScalar ''int64'')"
| "scalarType _ = None"

fun baseType :: "yangType \<Rightarrow> gotype option list" where
  "baseType (YangType kind ts) = (if kind = Yunion then concat (map baseType ts) else [scalarType kind])"

record ('h, 'v) treeLib =
  yt_GetOrCreateNode :: "yentry \<Rightarrow> 'v \<Rightarrow> pathElem \<Rightarrow> ('h, 'v \<times> yentry) heapM"
  yt_DeleteNode :: "yentry \<Rightarrow> 'v \<Rightarrow> gpath option \<Rightarrow> ('h, unit) heapM"
  yt_GetNode :: "yentry \<Rightarrow> 'v \<Rightarrow> gpath option \<Rightarrow> 'h \<Rightarrow> (string, 'v list) result"
  yt_SetNode :: "yentry \<Rightarrow> 'v \<Rightarrow> gpath option \<Rightarrow> typedValue option \<Rightarrow> ('h, unit) heapM"
  yt_StringToType :: "gotype \<Rightarrow> string \<Rightarrow> (string, 'v) result"
  yd_ValScalarNew :: "gotype \<Rightarrow> string \<Rightarrow> (string, 'v) result"
  yd_ValSliceNew :: "gotype option \<Rightarrow> (string, 'v) result"
  yd_ValSliceAppend :: "'v \<Rightarrow> 'v \<Rightarrow> (string, 'v) result"
  yd_ValChildSet :: "'v \<Rightarrow> string \<Rightarrow> 'v option \<Rightarrow> ('h, unit) heapM"
  yg_EncodeTypedValue :: "'v \<Rightarrow> (string, typedValue option) result"
  rf_Set :: "'v \<Rightarrow> 'v option \<Rightarrow> 'h \<Rightarrow> 'h option"
  rf_TypeOf :: "'v \<Rightarrow> 'h \<Rightarrow> gotype option"
  rf_isGoStruct :: "'v \<Rightarrow> 'h \<Rightarrow> bool"
  rf_bool :: "bool \<Rightarrow> 'v"
  rf_string :: "string \<Rightarrow> 'v"
  un_Unmarshal :: "string \<Rightarrow> 'v \<Rightarrow> ('h, unit) heapM"
  js_Unmarshal :: "string \<Rightarrow> (string, json) result"
  js_Sprint :: "string \<Rightarrow> string"
  en_FindChild :: "yentry \<Rightarrow> string \<Rightarrow> yentry option"
  en_Type :: "yentry \<Rightarrow> yangType option"
  rf_New :: "gotype \<Rightarrow> 'h \<Rightarrow> 'h \<times> 'v"
  yd_Parse :: "string \<Rightarrow> string option"
  yd_Convert :: "string \<Rightarrow> 'v \<Rightarrow> ('h, unit) heapM"

text \<open>A modelled object: the schema entry of its root and its root.\<close>

record 'v MO =
  mo_Schema :: yentry
  mo_Root :: 'v
  mo_RootType :: gotype

definition IsDir :: "yentry \<Rightarrow> bool" where "IsDir e = (en_Kind e = DirectoryEntry \<or> en_Kind e = ListEntry)"
definition IsLeafList :: "yentry \<Rightarrow> bool" where "IsLeafList e = (en_Kind e = LeafListEntry)"
definition IsList :: "yentry \<Rightarrow> bool" where "IsList e = (en_Kind e = ListEntry)"

section \<open>Nodes\<close>

record 'v treeNode =
  tn_Schema :: yentry
  tn_Data :: 'v
  tn_Path :: "pathElem list"

text \<open>The loop of \<open>GetOrCreateNode\<close>: schema and data of the parent and of the last node reached.\<close>

fun createNodes ::
    "('h, 'v) treeLib \<Rightarrow> pathElem list \<Rightarrow> (yentry \<times> 'v) \<times> (yentry \<times> 'v) \<Rightarrow> ('h, (yentry \<times> 'v) \<times> (yentry \<times> 'v)) heapM" where
  "createNodes lib [] nodes = hret nodes"
| "createNodes lib (e # es) (p, (tSchema, leaf)) =
     hbind (yt_GetOrCreateNode lib tSchema leaf e)
       (\<lambda>(leaf', tSchema'). createNodes lib es ((tSchema, leaf), (tSchema', leaf')))"

definition GetOrCreateNode :: "('h, 'v) treeLib \<Rightarrow> 'v MO \<Rightarrow> gpath option \<Rightarrow> ('h, 'v treeNode \<times> 'v treeNode) heapM" where
  "GetOrCreateNode lib mo gpath =
     (let elems = GetElem gpath; r = (mo_Schema mo, mo_Root mo) in
      if elems = [] then
        hret (\<lparr>tn_Schema = mo_Schema mo, tn_Data = mo_Root mo, tn_Path = []\<rparr>, \<lparr>tn_Schema = mo_Schema mo, tn_Data = mo_Root mo, tn_Path = []\<rparr>)
      else
        hbind (createNodes lib elems (r, r))
          (\<lambda>((pSchema, parent), (tSchema, leaf)).
             hret (\<lparr>tn_Schema = pSchema, tn_Data = parent, tn_Path = butlast elems\<rparr>,
                   \<lparr>tn_Schema = tSchema, tn_Data = leaf, tn_Path = [last elems]\<rparr>)))"

definition WriteValue :: "('h, 'v) treeLib \<Rightarrow> 'v MO \<Rightarrow> gpath option \<Rightarrow> 'v option \<Rightarrow> ('h, unit) heapM" where
  "WriteValue lib mo gpath v =
     hbind (GetOrCreateNode lib mo gpath)
       (\<lambda>(parent, target).
          if IsDir (tn_Schema target) then
            (\<lambda>h. case rf_Set lib (tn_Data target) v h of
                    None \<Rightarrow> (h, Failed (''unable to set '' @ en_Name (tn_Schema target)))
                  | Some h' \<Rightarrow> (h', Ok ()))
          else yd_ValChildSet lib (tn_Data parent) (en_Name (tn_Schema target)) v)"

section \<open>Values given as strings\<close>

definition asPathOf :: "pathElem list \<Rightarrow> gpath option" where
  "asPathOf es = Some (empty_gpath\<lparr>p_Elem := es\<rparr>)"

text \<open>A conversion with a second try; the error is that of the first.\<close>

definition convert :: "(string, 'v) result \<Rightarrow> (string, 'v) result \<Rightarrow> (string, 'v) result" where
  "convert first second =
     (case first of
        Inr v \<Rightarrow> Ok v
      | Inl (Panic p) \<Rightarrow> Panics p
      | Inl (Err e) \<Rightarrow> (case second of Inr v \<Rightarrow> Ok v | Inl (Panic p) \<Rightarrow> Panics p | Inl (Err _) \<Rightarrow> Failed e))"

definition lift :: "('e, 'a) result \<Rightarrow> ('h, 'e, 'a) actM" where "lift r h = (h, r)"

lemmas [heap_simps] = lift_def

definition writeLeaf :: "('h, 'v) treeLib \<Rightarrow> yentry \<Rightarrow> 'v \<Rightarrow> gpath option \<Rightarrow> gotype option \<Rightarrow> string \<Rightarrow> ('h, unit) heapM" where
  "writeLeaf lib schema base gpath t v =
     (case t of
        None \<Rightarrow> herr (''invalid type inserted for '' @ ToXPath gpath)
      | Some t0 \<Rightarrow>
          (let t1 = (case t0 of TPtr t' \<Rightarrow> t' | _ \<Rightarrow> t0) in
           hbind (lift (convert (yt_StringToType lib t1 v) (yd_ValScalarNew lib t1 v)))
             (\<lambda>vv. hbind (lift (yg_EncodeTypedValue lib vv))
                (\<lambda>typedValue. yt_SetNode lib schema base gpath typedValue))))"

definition writeLeafList :: "('h, 'v) treeLib \<Rightarrow> yentry \<Rightarrow> 'v \<Rightarrow> gpath option \<Rightarrow> gotype option \<Rightarrow> string \<Rightarrow> ('h, unit) heapM" where
  "writeLeafList lib schema base gpath t v =
     hbind (lift (yd_ValSliceNew lib t))
       (\<lambda>sv. case t of
           None \<Rightarrow> hpanic NilDereference
         | Some t0 \<Rightarrow>
             (case elemType t0 of
                None \<Rightarrow> hpanic TypeAssertion
              | Some te \<Rightarrow>
                  hbind (lift (convert (yt_StringToType lib te v) (yd_ValScalarNew lib t0 v)))
                    (\<lambda>vv. hbind (lift (yd_ValSliceAppend lib sv vv))
                       (\<lambda>rv. hbind (lift (yg_EncodeTypedValue lib rv))
                          (\<lambda>typedValue. yt_SetNode lib schema base gpath typedValue)))))"

text \<open>The members of a union in turn, up to the first that takes the value; the last error otherwise.\<close>

fun writeUnion ::
    "('h, 'v) treeLib \<Rightarrow> yentry \<Rightarrow> 'v \<Rightarrow> gpath option \<Rightarrow> gpath option \<Rightarrow> gotype option list \<Rightarrow> string \<Rightarrow> (string, unit) result \<Rightarrow> ('h, unit) heapM" where
  "writeUnion lib pschema pvalue gpath p [] v err h = (h, err)"
| "writeUnion lib pschema pvalue gpath p (t # ts) v err h =
     (if t = None then (h, Failed (''invalid union type for '' @ ToXPath gpath))
      else if \<not> rf_isGoStruct lib pvalue h then (h, Panics TypeAssertion)
      else
        (case writeLeaf lib pschema pvalue p t v h of
           (h', Inr u) \<Rightarrow> (h', Ok ())
         | (h', Inl (Panic x)) \<Rightarrow> (h', Panics x)
         | (h', Inl (Err e)) \<Rightarrow> writeUnion lib pschema pvalue gpath p ts v (Failed e) h'))"

text \<open>
  The loop of \<open>WriteStringValue\<close>: \<open>ps\<close> and \<open>pv\<close> are schema and data of the last directory reached, \<open>cs\<close> and \<open>cv\<close>
  of the last node, \<open>p\<close> the path of the last element.
\<close>

fun writeString_loop ::
    "('h, 'v) treeLib \<Rightarrow> gpath option \<Rightarrow> string \<Rightarrow> pathElem list \<Rightarrow> yentry \<Rightarrow> 'v \<Rightarrow> yentry \<Rightarrow> 'v \<Rightarrow> gpath option \<Rightarrow> ('h, unit) heapM" where
  "writeString_loop lib gpath v [] ps pv cs cv p h = (h, Ok ())"
| "writeString_loop lib gpath v (e # es) ps pv cs cv p h =
     (if IsLeafList cs then writeLeafList lib ps pv p (rf_TypeOf lib cv h) (pe_Name e) h
      else if \<not> IsDir cs then (h, Failed (''invalid path: '' @ ToXPath gpath))
      else
        (let p' = asPathOf [e] in
         case yt_GetOrCreateNode lib cs cv e h of
           (h1, Inl x) \<Rightarrow> (h1, Inl x)
         | (h1, Inr (cv', cs')) \<Rightarrow>
             if IsDir cs' then writeString_loop lib gpath v es cs' cv' cs' cv' p' h1
             else if IsLeafList cs' then
               (if v \<noteq> [] then writeLeafList lib ps pv p' (rf_TypeOf lib cv' h1) v h1
                else writeString_loop lib gpath v es ps pv cs' cv' p' h1)
             else
               (case map_option yt_Kind (en_Type lib cs') of
                  Some Yempty \<Rightarrow> yd_ValChildSet lib pv (en_Name cs') (Some (rf_string lib v)) h1
                | Some Yunion \<Rightarrow> writeUnion lib ps pv gpath p' (baseType (the (en_Type lib cs'))) v (Ok ()) h1
                | _ \<Rightarrow>
                    if \<not> rf_isGoStruct lib pv h1 then (h1, Panics TypeAssertion)
                    else writeLeaf lib ps pv p' (rf_TypeOf lib cv' h1) v h1)))"

definition WriteStringValueAt :: "('h, 'v) treeLib \<Rightarrow> yentry \<Rightarrow> 'v \<Rightarrow> gpath option \<Rightarrow> string \<Rightarrow> ('h, unit) heapM" where
  "WriteStringValueAt lib pschema pvalue gpath v = writeString_loop lib gpath v (GetElem gpath) pschema pvalue pschema pvalue None"

definition WriteStringValue :: "('h, 'v) treeLib \<Rightarrow> 'v MO \<Rightarrow> gpath option \<Rightarrow> string \<Rightarrow> ('h, unit) heapM" where
  "WriteStringValue lib mo gpath v = WriteStringValueAt lib (mo_Schema mo) (mo_Root mo) gpath v"

section \<open>The internal JSON form\<close>

text \<open>
  The form of \<open>ygot.ConstructInternalJSON\<close>: a list is an object whose members are named by the values of the keys,
  separated by blanks. \<open>Sprint\<close> is the text that \<open>fmt.Sprint\<close> gives a number.
\<close>

fun jsonDataToString :: "json \<Rightarrow> (string, string) result" where
  "jsonDataToString (JNumber n) = Ok n"
| "jsonDataToString (JString s) = Ok s"
| "jsonDataToString JNull = Ok []"
| "jsonDataToString (JBool b) = Ok (show_bool b)"
| "jsonDataToString (JArray _) = Failed ''unexpected json array''"
| "jsonDataToString (JObject _) = Failed ''unexpected json object''"

definition sprintList :: "string list \<Rightarrow> string" where
  "sprintList xs = ''['' @ Join xs '' '' @ '']''"

definition keyPairs :: "string list \<Rightarrow> string list \<Rightarrow> (string, string) gomap" where
  "keyPairs knames vals = foldl (\<lambda>m (k, v). map_put k v m) [] (zip knames vals)"

text \<open>The loop over the names on the way to a value: \<open>seen\<close> are the names before the index, \<open>base\<close> the text of the path they start at.\<close>

fun jsonPath :: "(yentry \<Rightarrow> string \<Rightarrow> yentry option) \<Rightarrow> string \<Rightarrow> string list \<Rightarrow> string list \<Rightarrow> string list \<Rightarrow> yentry option \<Rightarrow> (string, pathElem list) result" where
  "jsonPath child base all seen [] schema = Ok []"
| "jsonPath child base all seen (k # ks) None = Panics NilDereference"
| "jsonPath child base all seen (k # ks) (Some schema) =
     (case child schema k of
        None \<Rightarrow> Failed (''schema not found for '' @ base @ ''/'' @ Join seen ''/'')
      | Some schema' \<Rightarrow>
          if IsList schema' then
            (case ks of
               [] \<Rightarrow> Failed (''unable to extract key from json bytes from '' @ sprintList all)
             | kv # ks' \<Rightarrow>
                 (let knames = SplitByte (en_Key schema') CHR '' ''; vals = SplitByte kv CHR '' '' in
                  if length vals \<noteq> length knames
                  then Failed (''invalid key value ('' @ sprintList vals @ '') for '' @ sprintList knames)
                  else
                    (case jsonPath child base all (seen @ [k, kv]) ks' (Some schema') of
                       Inl x \<Rightarrow> Inl x
                     | Inr es \<Rightarrow> Ok (mkElem k (keyPairs knames vals) # es))))
          else
            (case jsonPath child base all (seen @ [k]) ks (Some schema') of
               Inl x \<Rightarrow> Inl x
             | Inr es \<Rightarrow> Ok (mkElem k [] # es)))"

text \<open>One value of the JSON tree, found under the names \<open>keys\<close>.\<close>

definition writeJSONValue ::
    "('h, 'v) treeLib \<Rightarrow> (gpath \<Rightarrow> gpath) \<Rightarrow> 'v MO \<Rightarrow> gpath option \<Rightarrow> string list \<Rightarrow> json \<Rightarrow> ('h, unit) heapM" where
  "writeJSONValue lib clone mo gpath keys j =
     hbind (lift (jsonDataToString j))
       (\<lambda>jstr. hbind (lift (jsonPath (en_FindChild lib) (ToXPath gpath) keys [] keys
                              (FindSchemaByRelativeGNMIPath (Some (mo_Schema mo)) gpath)))
          (\<lambda>es. hbind (lift (GNMIFullPath clone gpath (asPathOf es)))
             (\<lambda>fpath. WriteStringValue lib mo fpath jstr)))"

fun unmarshalInternalJSON ::
      "('h, 'v) treeLib \<Rightarrow> (gpath \<Rightarrow> gpath) \<Rightarrow> 'v MO \<Rightarrow> gpath option \<Rightarrow> string list \<Rightarrow> json \<Rightarrow> ('h, unit) heapM"
  and unmarshalObject ::
      "('h, 'v) treeLib \<Rightarrow> (gpath \<Rightarrow> gpath) \<Rightarrow> 'v MO \<Rightarrow> gpath option \<Rightarrow> string list \<Rightarrow> (string \<times> json) list \<Rightarrow> ('h, unit) heapM"
  and unmarshalArray ::
      "('h, 'v) treeLib \<Rightarrow> (gpath \<Rightarrow> gpath) \<Rightarrow> 'v MO \<Rightarrow> gpath option \<Rightarrow> string list \<Rightarrow> json list \<Rightarrow> ('h, unit) heapM" where
  "unmarshalInternalJSON lib clone mo gpath keys (JObject members) = unmarshalObject lib clone mo gpath keys members"
| "unmarshalInternalJSON lib clone mo gpath keys (JArray js) = unmarshalArray lib clone mo gpath keys js"
| "unmarshalInternalJSON lib clone mo gpath keys j = writeJSONValue lib clone mo gpath keys j"
| "unmarshalObject lib clone mo gpath keys [] = hret ()"
| "unmarshalObject lib clone mo gpath keys ((key, subtree) # members) =
     hbind (unmarshalInternalJSON lib clone mo gpath (keys @ [key]) subtree)
       (\<lambda>u. unmarshalObject lib clone mo gpath keys members)"
| "unmarshalArray lib clone mo gpath keys [] = hret ()"
| "unmarshalArray lib clone mo gpath keys (j # js) =
     hbind (unmarshalInternalJSON lib clone mo gpath keys j) (\<lambda>u. unmarshalArray lib clone mo gpath keys js)"

definition UnmarshalInternalJSON ::
    "('h, 'v) treeLib \<Rightarrow> (gpath \<Rightarrow> gpath) \<Rightarrow> 'v MO \<Rightarrow> gpath option \<Rightarrow> string \<Rightarrow> ('h, unit) heapM" where
  "UnmarshalInternalJSON lib clone mo gpath j =
     hbind (lift (js_Unmarshal lib j))
       (\<lambda>jsonTree.
          if FindSchemaByRelativeGNMIPath (Some (mo_Schema mo)) gpath = None
          then herr (''schema not found for '' @ ToXPath gpath)
          else unmarshalInternalJSON lib clone mo gpath [] jsonTree)"

section \<open>Typed values, deletion and lookup\<close>

fun GetJsonVal :: "typedValue option \<Rightarrow> string option" where
  "GetJsonVal (Some (JsonVal b)) = Some b"
| "GetJsonVal _ = None"

fun GetJsonIetfVal :: "typedValue option \<Rightarrow> string option" where
  "GetJsonIetfVal (Some (JsonIetfVal b)) = Some b"
| "GetJsonIetfVal _ = None"

fun GetBoolVal :: "typedValue option \<Rightarrow> bool" where
  "GetBoolVal (Some (BoolVal b)) = b"
| "GetBoolVal _ = False"

definition WriteTypedValue ::
    "('h, 'v) treeLib \<Rightarrow> (gpath \<Rightarrow> gpath) \<Rightarrow> 'v MO \<Rightarrow> gpath option \<Rightarrow> typedValue option \<Rightarrow> ('h, unit) heapM" where
  "WriteTypedValue lib clone mo gpath typedValue =
     hbind (GetOrCreateNode lib mo gpath)
       (\<lambda>(parent, target).
          if IsDir (tn_Schema target) then
            (case GetJsonVal typedValue of
               Some b \<Rightarrow> UnmarshalInternalJSON lib clone mo gpath b
             | None \<Rightarrow>
                 (\<lambda>h. if rf_isGoStruct lib (tn_Data target) h
                       then un_Unmarshal lib (case GetJsonIetfVal typedValue of None \<Rightarrow> [] | Some b \<Rightarrow> b) (tn_Data target) h
                       else (h, Panics TypeAssertion)))
          else
            (case en_Type lib (tn_Schema target) of
               None \<Rightarrow> hpanic NilDereference
             | Some yt \<Rightarrow>
                 if yt_Kind yt = Yempty then
                   yd_ValChildSet lib (tn_Data parent) (en_Name (tn_Schema target)) (Some (rf_bool lib (GetBoolVal typedValue)))
                 else
                   (case GetJsonVal typedValue of
                      Some b \<Rightarrow> UnmarshalInternalJSON lib clone mo gpath b
                    | None \<Rightarrow>
                        (case GetJsonIetfVal typedValue of
                           Some b \<Rightarrow>
                             WriteStringValueAt lib (tn_Schema parent) (tn_Data parent) (asPathOf (tn_Path target)) (js_Sprint lib b)
                         | None \<Rightarrow> yt_SetNode lib (mo_Schema mo) (mo_Root mo) gpath typedValue))))"

text \<open>
  The parent of an entry is the entry one element up; the entry of the root has none. A path whose last name is part
  of the text of the parent's key is left alone.
\<close>

definition parentSchema :: "yentry \<Rightarrow> pathElem list \<Rightarrow> yentry option" where
  "parentSchema schema elems = (if elems = [] then None else findSchema schema (butlast elems))"

definition DeleteValue :: "('h, 'v) treeLib \<Rightarrow> 'v MO \<Rightarrow> gpath option \<Rightarrow> ('h, unit) heapM" where
  "DeleteValue lib mo gpath =
     (case findSchema (mo_Schema mo) (GetElem gpath) of
        None \<Rightarrow> herr (''schema for '' @ ToXPath gpath @ '' not found'')
      | Some tSchema \<Rightarrow>
          (case parentSchema (mo_Schema mo) (GetElem gpath) of
             Some pSchema \<Rightarrow>
               if Contains (en_Key pSchema) (pe_Name (last (GetElem gpath))) then hret ()
               else yt_DeleteNode lib (mo_Schema mo) (mo_Root mo) gpath
           | None \<Rightarrow> yt_DeleteNode lib (mo_Schema mo) (mo_Root mo) gpath))"

definition FindValue :: "('h, 'v) treeLib \<Rightarrow> 'v MO \<Rightarrow> gpath option \<Rightarrow> 'h \<Rightarrow> 'v option" where
  "FindValue lib mo gpath h =
     (case yt_GetNode lib (mo_Schema mo) (mo_Root mo) gpath h of
        Inl e \<Rightarrow> None
      | Inr [] \<Rightarrow> None
      | Inr (v # _) \<Rightarrow> Some v)"

section \<open>Roots\<close>

datatype Encoding = Encoding_JSON | Encoding_JSON_IETF | Encoding_YAML

definition NewEmptyRoot :: "('h, 'v) treeLib \<Rightarrow> 'v MO \<Rightarrow> 'h \<Rightarrow> 'h \<times> 'v MO" where
  "NewEmptyRoot lib mo h = (let (h', root) = rf_New lib (mo_RootType mo) h in (h', mo\<lparr>mo_Root := root\<rparr>))"

text \<open>The error of a library function as a tagged error.\<close>

definition tagged :: "code \<Rightarrow> ErrorTag \<Rightarrow> ('h, 'a) heapM \<Rightarrow> ('h, serr, 'a) actM" where
  "tagged c tag m h =
     (case m h of
        (h', Inr v) \<Rightarrow> (h', Ok v)
      | (h', Inl (Err e)) \<Rightarrow> (h', Failed (Tagged c tag))
      | (h', Inl (Panic p)) \<Rightarrow> (h', Panics p))"

lemmas [heap_simps] = tagged_def

definition NewRoot ::
    "('h, 'v) treeLib \<Rightarrow> (gpath \<Rightarrow> gpath) \<Rightarrow> 'v MO \<Rightarrow> string option \<Rightarrow> Encoding \<Rightarrow> ('h, serr, 'v MO) actM" where
  "NewRoot lib clone mo startup encoding h =
     (let (h1, newMO) = NewEmptyRoot lib mo h in
      case startup of
        None \<Rightarrow> (h1, Ok newMO)
      | Some text \<Rightarrow>
          hbind
            (case encoding of
               Encoding_YAML \<Rightarrow>
                 (if yd_Parse lib text \<noteq> None then herr (Tagged InvalidArgument TagBadData)
                  else tagged Internal TagOperationFail (yd_Convert lib text (mo_Root newMO)))
             | Encoding_JSON \<Rightarrow> tagged InvalidArgument TagBadData (UnmarshalInternalJSON lib clone newMO None text)
             | Encoding_JSON_IETF \<Rightarrow> tagged InvalidArgument TagBadData (un_Unmarshal lib text (mo_Root newMO)))
            (\<lambda>u. hret newMO) h1)"

section \<open>Updates by the external system\<close>

text \<open>The path is parsed and the write is tried; no error is reported.\<close>

definition ignore :: "('h, 'e, 'a) actM \<Rightarrow> ('h, 'e, unit) actM" where
  "ignore m h = (case m h of (h', Inl (Panic p)) \<Rightarrow> (h', Panics p) | (h', _) \<Rightarrow> (h', Ok ()))"

lemmas [heap_simps] = ignore_def

definition onPath :: "string \<Rightarrow> (gpath option \<Rightarrow> ('h, unit) heapM) \<Rightarrow> ('h, unit) heapM" where
  "onPath path f =
     (case ToGNMIPath path of Inl (Err e) \<Rightarrow> hret () | Inl (Panic p) \<Rightarrow> hpanic p | Inr gpath \<Rightarrow> ignore (f (Some gpath)))"

definition MO_UpdateCreate :: "('h, 'v) treeLib \<Rightarrow> 'v MO \<Rightarrow> string \<Rightarrow> string \<Rightarrow> ('h, unit) heapM" where
  "MO_UpdateCreate lib mo path v = onPath path (\<lambda>gpath. WriteStringValue lib mo gpath v)"

definition MO_UpdateReplace :: "('h, 'v) treeLib \<Rightarrow> 'v MO \<Rightarrow> string \<Rightarrow> string \<Rightarrow> ('h, unit) heapM" where
  "MO_UpdateReplace lib mo path v = onPath path (\<lambda>gpath. WriteStringValue lib mo gpath v)"

definition MO_UpdateDelete :: "('h, 'v) treeLib \<Rightarrow> 'v MO \<Rightarrow> string \<Rightarrow> ('h, unit) heapM" where
  "MO_UpdateDelete lib mo path = onPath path (\<lambda>gpath. DeleteValue lib mo gpath)"

section \<open>Paths of schema entries\<close>

text \<open>A \<open>yang.Entry\<close> seen from below: its name and its parent. The names of the parents above, the root left out.\<close>

datatype sentry = SEntry (se_Name: string) (se_Parent: "sentry option")

fun SchemaGNMIPath_loop :: "sentry \<Rightarrow> pathElem list \<Rightarrow> pathElem list" where
  "SchemaGNMIPath_loop (SEntry n None) elems = elems"
| "SchemaGNMIPath_loop (SEntry n (Some p)) elems = SchemaGNMIPath_loop p (mkElem n [] # elems)"

definition SchemaGNMIPath :: "sentry option \<Rightarrow> gpath" where
  "SchemaGNMIPath schema = empty_gpath\<lparr>p_Elem := (case schema of None \<Rightarrow> [] | Some s \<Rightarrow> SchemaGNMIPath_loop s [])\<rparr>"

text \<open>The number of parents, then a slice of that length, filled from its end.\<close>

fun depth :: "sentry \<Rightarrow> nat" where
  "depth (SEntry n None) = 0"
| "depth (SEntry n (Some p)) = Suc (depth p)"

fun fillUp :: "(string \<Rightarrow> 'a) \<Rightarrow> sentry \<Rightarrow> nat \<Rightarrow> 'a list \<Rightarrow> 'a list" where
  "fillUp f (SEntry n None) i xs = xs"
| "fillUp f (SEntry n (Some p)) i xs = fillUp f p (i - 1) (xs[i := f n])"

definition SchemaToGNMIPath :: "sentry option \<Rightarrow> gpath option" where
  "SchemaToGNMIPath entry =
     (case entry of
        None \<Rightarrow> None
      | Some e \<Rightarrow>
          Some (empty_gpath\<lparr>p_Elem := fillUp (\<lambda>n. mkElem n []) e (depth e - 1) (replicate (depth e) (mkElem [] []))\<rparr>))"

definition SchemaToXPath :: "sentry option \<Rightarrow> string" where
  "SchemaToXPath entry =
     (case entry of
        None \<Rightarrow> []
      | Some e \<Rightarrow> Join ((fillUp id e (depth e) (replicate (depth e + 1) []))[0 := []]) ''/'')"

section \<open>Facts\<close>

text \<open>The names below the root, in order.\<close>

fun names :: "sentry \<Rightarrow> string list" where
  "names (SEntry n None) = []"
| "names (SEntry n (Some p)) = names p @ [n]"

lemma length_names: "length (names e) = depth e"
  by (induction e rule: names.induct) auto

lemma SchemaGNMIPath_loop_names: "SchemaGNMIPath_loop e elems = map (\<lambda>n. mkElem n []) (names e) @ elems"
  by (induction e elems rule: SchemaGNMIPath_loop.induct) auto

lemma fillUp_names:
  "length xs = k + depth e \<Longrightarrow> fillUp f e (k + depth e - 1) (xs @ ys) = take k xs @ map f (names e) @ ys"
proof (induction e arbitrary: xs ys rule: names.induct)
  case (2 n p)
  let ?i = "k + depth p"
  have u: "(xs @ ys)[?i := f n] = take ?i xs @ (f n # ys)"
    using 2(2) by (simp add: list_update_append upd_conv_take_nth_drop)
  have "fillUp f p (k + depth p - 1) (take ?i xs @ (f n # ys)) = take k (take ?i xs) @ map f (names p) @ (f n # ys)"
    using 2(2) by (intro 2(1)) simp
  with u show ?case using 2(2) by (simp add: min_absorb1)
qed simp

lemma SchemaToGNMIPath_names:
  "SchemaToGNMIPath (Some e) = Some (empty_gpath\<lparr>p_Elem := map (\<lambda>n. mkElem n []) (names e)\<rparr>)"
  using fillUp_names [of "replicate (depth e) (mkElem [] [])" 0 e "\<lambda>n. mkElem n []" "[]"] by (simp add: SchemaToGNMIPath_def)

lemma SchemaToXPath_names: "SchemaToXPath (Some e) = concat (map (\<lambda>n. ''/'' @ n) (names e))"
proof -
  have "fillUp id e (depth e) (replicate (depth e + 1) []) = [] # names e"
    using fillUp_names [of "replicate (depth e + 1) []" 1 e id "[]"] by simp
  then show ?thesis by (simp add: SchemaToXPath_def Join_rooted)
qed

lemma schema_path_texts:
  "SchemaToGNMIPath (Some e) = Some (SchemaGNMIPath (Some e))
   \<and> (names e \<noteq> [] \<longrightarrow> SchemaToXPath (Some e) = ToXPath (SchemaToGNMIPath (Some e)))"
  by (auto simp: SchemaToGNMIPath_names SchemaGNMIPath_def SchemaGNMIPath_loop_names SchemaToXPath_names
      ToXPath_rooted elemXPath_def mkElem_def Join_rooted comp_def)

text \<open>The values of a JSON tree with the names on the way to them, in the order of a walk.\<close>

fun jsonLeaves :: "string list \<Rightarrow> json \<Rightarrow> (string list \<times> json) list"
  and objectLeaves :: "string list \<Rightarrow> (string \<times> json) list \<Rightarrow> (string list \<times> json) list"
  and arrayLeaves :: "string list \<Rightarrow> json list \<Rightarrow> (string list \<times> json) list" where
  "jsonLeaves keys (JObject members) = objectLeaves keys members"
| "jsonLeaves keys (JArray js) = arrayLeaves keys js"
| "jsonLeaves keys j = [(keys, j)]"
| "objectLeaves keys [] = []"
| "objectLeaves keys ((key, subtree) # members) = jsonLeaves (keys @ [key]) subtree @ objectLeaves keys members"
| "arrayLeaves keys [] = []"
| "arrayLeaves keys (j # js) = jsonLeaves keys j @ arrayLeaves keys js"

fun writeJSONValues ::
    "('h, 'v) treeLib \<Rightarrow> (gpath \<Rightarrow> gpath) \<Rightarrow> 'v MO \<Rightarrow> gpath option \<Rightarrow> (string list \<times> json) list \<Rightarrow> ('h, unit) heapM" where
  "writeJSONValues lib clone mo gpath [] = hret ()"
| "writeJSONValues lib clone mo gpath ((keys, j) # leaves) =
     hbind (writeJSONValue lib clone mo gpath keys j) (\<lambda>u. writeJSONValues lib clone mo gpath leaves)"

lemma hbind_assoc: "hbind (hbind m f) g = hbind m (\<lambda>x. hbind (f x) g)"
  by (auto simp: hbind_def fun_eq_iff split: prod.splits sum.splits)

lemma hbind_hret [simp]: "hbind (hret x) f = f x" "hbind m hret = m"
  by (auto simp: hbind_def hret_def fun_eq_iff split: prod.splits sum.splits)

lemma writeJSONValues_append:
  "writeJSONValues lib clone mo gpath (xs @ ys) =
   hbind (writeJSONValues lib clone mo gpath xs) (\<lambda>u. writeJSONValues lib clone mo gpath ys)"
  by (induction xs) (auto simp: hbind_assoc)

lemma unmarshal_leaves:
  "unmarshalInternalJSON lib clone mo gpath keys j = writeJSONValues lib clone mo gpath (jsonLeaves keys j)"
  "unmarshalObject lib clone mo gpath keys members = writeJSONValues lib clone mo gpath (objectLeaves keys members)"
  "unmarshalArray lib clone mo gpath keys js = writeJSONValues lib clone mo gpath (arrayLeaves keys js)"
  by (induction keys j and keys members and keys js rule: jsonLeaves_objectLeaves_arrayLeaves.induct)
     (simp_all add: writeJSONValues_append)

text \<open>The names under which the internal form has a path, and the schema that fits the path.\<close>

definition internalKeys :: "pathElem list \<Rightarrow> string list" where
  "internalKeys es = concat (map (\<lambda>e. pe_Name e # (if pe_Key e = [] then [] else [Join (map snd (pe_Key e)) '' ''])) es)"

fun fitsSchema :: "(yentry \<Rightarrow> string \<Rightarrow> yentry option) \<Rightarrow> yentry \<Rightarrow> pathElem list \<Rightarrow> bool" where
  "fitsSchema child schema [] = True"
| "fitsSchema child schema (e # es) =
     (case child schema (pe_Name e) of
        None \<Rightarrow> False
      | Some s \<Rightarrow>
          (if pe_Key e = [] then \<not> IsList s
           else IsList s \<and> SplitByte (en_Key s) CHR '' '' = map fst (pe_Key e) \<and> map_ok (pe_Key e))
          \<and> fitsSchema child s es)"

definition blankFree :: "pathElem list \<Rightarrow> bool" where
  "blankFree es = list_all (\<lambda>e. list_all (\<lambda>(k, v). CHR '' '' \<notin> set v) (pe_Key e)) es"

lemma SplitByte_Join: "vs \<noteq> [] \<Longrightarrow> list_all (\<lambda>v. c \<notin> set v) vs \<Longrightarrow> SplitByte (Join vs [c]) c = vs"
proof (induction vs)
  case (Cons v vs)
  have app: "c \<notin> set v \<Longrightarrow> SplitByte (v @ c # s) c = v # SplitByte s c" for v s
    by (induction v) auto
  show ?case
    using Cons by (cases "vs = []") (auto simp: SplitByte_absent Join_cons app)
qed simp

lemma keyPairs_zip: "map_ok m \<Longrightarrow> keyPairs (map fst m) (map snd m) = m"
proof -
  have "map_ok (acc @ m) \<Longrightarrow> foldl (\<lambda>m (k, v). map_put k v m) acc m = acc @ m" for acc m :: "(string, string) gomap"
    by (induction m arbitrary: acc) (auto simp: map_ok_def map_put_fresh image_iff)
  then show "map_ok m \<Longrightarrow> keyPairs (map fst m) (map snd m) = m"
    by (simp add: keyPairs_def zip_map_fst_snd)
qed

lemma jsonPath_internalKeys:
  "fitsSchema child schema es \<Longrightarrow> blankFree es \<Longrightarrow> jsonPath child base all seen (internalKeys es) (Some schema) = Ok es"
proof (induction es arbitrary: schema seen)
  case (Cons e es)
  then obtain s where s: "child schema (pe_Name e) = Some s" "fitsSchema child s es"
    by (auto split: option.splits)
  have e: "mkElem (pe_Name e) (pe_Key e) = e" by (simp add: mkElem_def)
  have IH: "jsonPath child base all seen (internalKeys es) (Some s) = Ok es" for seen
    using Cons.IH [OF s(2)] Cons.prems(2) by (simp add: blankFree_def)
  have split: "SplitByte (Join (map snd (pe_Key e)) '' '') CHR '' '' = map snd (pe_Key e)" if "pe_Key e \<noteq> []"
    using that Cons.prems(2) by (intro SplitByte_Join) (auto simp: blankFree_def list_all_iff)
  show ?case
    using Cons.prems(1) s e IH split keyPairs_zip [of "pe_Key e"]
    by (cases "pe_Key e = []") (auto simp: internalKeys_def)
qed (simp add: internalKeys_def)

lemma length_SplitByte: "length (SplitByte s c) = Suc (count_list s c)"
  by (induction s) (auto split: list.splits)

lemma count_list_Join: "length vs \<le> Suc (count_list (Join vs [c]) c)"
  by (induction vs "[c]" rule: Join.induct) auto

lemma count_list_Join_blank: "v \<in> set vs \<Longrightarrow> c \<in> set v \<Longrightarrow> length vs < Suc (count_list (Join vs [c]) c)"
proof (induction vs)
  case (Cons w ws)
  have pos: "c \<in> set w \<Longrightarrow> 0 < count_list w c"
    using count_list_0_iff [of w c] by simp
  show ?case
  proof (cases "ws = []")
    case False
    with Cons pos count_list_Join [of ws c] show ?thesis by (auto simp: Join_cons)
  qed (use Cons pos in auto)
qed simp

lemma jsonPath_blank:
  assumes "child schema (pe_Name e) = Some s" "IsList s" "SplitByte (en_Key s) CHR '' '' = map fst (pe_Key e)"
    and "(k, v) \<in> set (pe_Key e)" "CHR '' '' \<in> set v"
  shows "\<exists>msg. jsonPath child base all seen (internalKeys (e # es)) (Some schema) = Failed msg"
proof -
  have ne: "pe_Key e \<noteq> []" using assms(4) by auto
  have "length (map snd (pe_Key e)) < length (SplitByte (Join (map snd (pe_Key e)) '' '') CHR '' '')"
    unfolding length_SplitByte using assms(4,5) by (intro count_list_Join_blank) force+
  with assms(1-3) ne show ?thesis by (simp add: internalKeys_def Let_def)
qed

text \<open>The paths and texts of a JSON tree, written one by one.\<close>

fun writeStrings :: "('h, 'v) treeLib \<Rightarrow> 'v MO \<Rightarrow> gpath \<Rightarrow> (pathElem list \<times> string) list \<Rightarrow> ('h, unit) heapM" where
  "writeStrings lib mo pre [] = hret ()"
| "writeStrings lib mo pre ((es, s) # leaves) =
     hbind (WriteStringValue lib mo (Some (pre\<lparr>p_Elem := p_Elem pre @ es\<rparr>)) s) (\<lambda>u. writeStrings lib mo pre leaves)"

definition leafFits :: "(yentry \<Rightarrow> string \<Rightarrow> yentry option) \<Rightarrow> yentry \<Rightarrow> string list \<times> json \<Rightarrow> pathElem list \<times> string \<Rightarrow> bool" where
  "leafFits child schema l p =
     (fst l = internalKeys (fst p) \<and> jsonDataToString (snd l) = Ok (snd p)
      \<and> fitsSchema child schema (fst p) \<and> blankFree (fst p) \<and> no_dots (fst p))"

lemma GNMIFullPath_as:
  "clone_copies clone \<Longrightarrow> no_dots es \<Longrightarrow> GNMIFullPath clone (Some pre) (asPathOf es) = Ok (Some (pre\<lparr>p_Elem := p_Elem pre @ es\<rparr>))"
  by (auto simp: GNMIFullPath_def clone_copies_def asPathOf_def empty_gpath_def Let_def mergePaths_no_dots)

lemma hbind_lift_Ok [simp]: "hbind (lift (Ok x)) f = f x"
  by (simp add: hbind_def lift_def fun_eq_iff)

lemma writeJSONValue_fits:
  assumes "leafFits (en_FindChild lib) base (keys, j) (es, s)" "clone_copies clone"
    and "FindSchemaByRelativeGNMIPath (Some (mo_Schema mo)) (Some pre) = Some base"
  shows "writeJSONValue lib clone mo (Some pre) keys j = WriteStringValue lib mo (Some (pre\<lparr>p_Elem := p_Elem pre @ es\<rparr>)) s"
  using assms jsonPath_internalKeys [of "en_FindChild lib" base es]
  by (simp add: writeJSONValue_def leafFits_def GNMIFullPath_as)

lemma writeJSONValues_fits:
  assumes "list_all2 (leafFits (en_FindChild lib) base) ls leaves" "clone_copies clone"
    and "FindSchemaByRelativeGNMIPath (Some (mo_Schema mo)) (Some pre) = Some base"
  shows "writeJSONValues lib clone mo (Some pre) ls = writeStrings lib mo pre leaves"
  using assms(1)
proof (induction rule: list_all2_induct)
  case (Cons x xs y ys)
  obtain keys j es s where xy: "x = (keys, j)" "y = (es, s)" by (cases x; cases y)
  with Cons writeJSONValue_fits [of lib base keys j es s, OF _ assms(2,3)] show ?case by simp
qed simp

section \<open>Properties\<close>

text \<open>C31: Loading internal JSON under a path writes every scalar of the document, in the order of a walk, to the gNMI path
  whose internal form is the chain of member names above it, under that path, and stops at the first error. This holds
  for documents whose names fit the schema, with list keys in schema order and no blank in a key value.\<close>

theorem internal_json_writes:
  assumes "js_Unmarshal lib text = Ok tree" "clone_copies clone"
    and "FindSchemaByRelativeGNMIPath (Some (mo_Schema mo)) (Some pre) = Some base"
    and "list_all2 (leafFits (en_FindChild lib) base) (jsonLeaves [] tree) leaves"
  shows "UnmarshalInternalJSON lib clone mo (Some pre) text = writeStrings lib mo pre leaves"
  using assms writeJSONValues_fits [OF assms(4,2,3)] by (simp add: UnmarshalInternalJSON_def unmarshal_leaves)

text \<open>A key value with a blank is cut at the blank and refused, although it is what the internal form has for it.\<close>

lemma internal_json_blank_key:
  assumes "FindSchemaByRelativeGNMIPath (Some (mo_Schema mo)) (Some pre) = Some base" "jsonDataToString j = Ok s"
    and "en_FindChild lib base (pe_Name e) = Some l" "IsList l" "SplitByte (en_Key l) CHR '' '' = map fst (pe_Key e)"
    and "(k, v) \<in> set (pe_Key e)" "CHR '' '' \<in> set v"
  shows "\<exists>msg. writeJSONValue lib clone mo (Some pre) (internalKeys (e # es)) j h = (h, Failed msg)"
  using assms(1,2) jsonPath_blank [where child = "en_FindChild lib" and schema = base and es = es and base = "ToXPath (Some pre)"
      and all = "internalKeys (e # es)" and seen = "[]", OF assms(3-7)] by (auto simp: writeJSONValue_def heap_simps)

text \<open>A leaf whose name is part of the text of its list's key, a key or not, is silently kept.\<close>

lemma DeleteValue_key_text:
  assumes "findSchema (mo_Schema mo) (es @ [e]) = Some t" "findSchema (mo_Schema mo) es = Some p" "Contains (en_Key p) (pe_Name e)"
  shows "DeleteValue lib mo (asPathOf (es @ [e])) h = (h, Ok ())"
  using assms by (simp add: DeleteValue_def asPathOf_def empty_gpath_def parentSchema_def hret_def)

end
