(* ===== verification/ModelSet.thy ===== *)
theory ModelSet
  imports TreeWrite "HOL-Library.Sublist"
begin

text \<open>
  The Set transaction of the model: \<open>gnmi/model/set.go\<close> and \<open>Load\<close> of \<open>gnmi/model/model.go\<close>. A transaction keeps, per
  changed path, the old value and whether the external system has been told; a rollback replays them.
\<close>

section \<open>State\<close>

text \<open>
  The calls to the external system (\<open>StateConfig\<close>). The state keeps all calls made; the answer of the system, an error
  or none, may depend on the calls before. \<open>None\<close> is a model without that interface.
\<close>

datatype cfgEvent = CfgStart | CfgCreate string string | CfgReplace string string | CfgDelete string | CfgEnd

type_synonym stateConfig = "cfgEvent list \<Rightarrow> cfgEvent \<Rightarrow> string option"

record 'v backupEntry =
  be_optype :: setOperation
  be_xpath :: string
  be_gpath :: "gpath option"
  be_oldval :: "'v option"
  be_executed :: bool

record ('h, 'v) mstate =
  ms_heap :: 'h
  ms_MO :: "'v MO"
  ms_setBackup :: "'v backupEntry list"
  ms_setSeq :: "64 word"
  ms_cfg :: "cfgEvent list"

text \<open>
  What the model is built from: the library, the schema and the interface of the external system. \<open>se_snapshot\<close> reads
  the Go value behind a reference, \<open>se_at\<close> is the reference that the node with an XPath under a root holds.
\<close>

record ('h, 'v) setEnv =
  se_lib :: "('h, 'v) treeLib"
  se_vals :: ydbVals
  se_model :: schemaModel
  se_clone :: "gpath \<Rightarrow> gpath"
  se_snapshot :: "'h \<Rightarrow> 'v \<Rightarrow> gval"
  se_at :: "'h \<Rightarrow> 'v \<Rightarrow> string \<Rightarrow> 'v option"
  se_isScalar :: "gval \<Rightarrow> bool"
  se_enc :: "gval \<Rightarrow> string option"
  se_config :: "stateConfig option"

type_synonym ('h, 'v, 'a) setM = "(('h, 'v) mstate, serr, 'a) actM"

text \<open>A function of the tree in a transaction, its error as a tagged one.\<close>

definition onTree :: "code \<Rightarrow> ErrorTag \<Rightarrow> ('v MO \<Rightarrow> ('h, 'a) heapM) \<Rightarrow> ('h, 'v, 'a) setM" where
  "onTree c tag f st = (case tagged c tag (f (ms_MO st)) (ms_heap st) of (h, r) \<Rightarrow> (st\<lparr>ms_heap := h\<rparr>, r))"

lemmas [heap_simps] = onTree_def

section \<open>Calls to the external system\<close>

definition callConfig :: "stateConfig \<Rightarrow> cfgEvent \<Rightarrow> ('h, 'v, unit) setM" where
  "callConfig sc ev st =
     (st\<lparr>ms_cfg := ms_cfg st @ [ev]\<rparr>, case sc (ms_cfg st) ev of None \<Rightarrow> Ok () | Some e \<Rightarrow> Failed (Other e))"

text \<open>\<open>if err != nil { m.StateConfig.UpdateEnd(); return err }\<close>\<close>

definition orEnd :: "stateConfig \<Rightarrow> ('h, 'v, unit) setM \<Rightarrow> ('h, 'v, unit) setM" where
  "orEnd sc m st =
     (case m st of
        (st', Inl (Err e)) \<Rightarrow> (fst (callConfig sc CfgEnd st'), Failed e)
      | r \<Rightarrow> r)"

definition mapDataAndPath :: "DataAndPath list \<Rightarrow> (string, DataAndPath) gomap" where
  "mapDataAndPath es = foldl (\<lambda>m entry. if map_get m (d_Path entry) = None then map_put (d_Path entry) entry m else m) [] es"

fun deleteLoop :: "stateConfig \<Rightarrow> (string, DataAndPath) gomap \<Rightarrow> DataAndPath list \<Rightarrow> ('h, 'v, unit) setM" where
  "deleteLoop sc new [] = hret ()"
| "deleteLoop sc new (entry # es) =
     (if map_get new (d_Path entry) = None
      then hbind (orEnd sc (callConfig sc (CfgDelete (d_Path entry)))) (\<lambda>u. deleteLoop sc new es)
      else deleteLoop sc new es)"

fun writeLoop :: "('h, 'v) setEnv \<Rightarrow> stateConfig \<Rightarrow> (string, DataAndPath) gomap \<Rightarrow> DataAndPath list \<Rightarrow> ('h, 'v, unit) setM" where
  "writeLoop env sc cur [] = hret ()"
| "writeLoop env sc cur (entry # es) =
     hbind (orEnd sc (callConfig sc
         (if map_get cur (d_Path entry) \<noteq> None
          then CfgReplace (d_Path entry) (GetValueString (se_isScalar env) (se_enc env) entry)
          else CfgCreate (d_Path entry) (GetValueString (se_isScalar env) (se_enc env) entry))))
       (\<lambda>u. writeLoop env sc cur es)"

text \<open>The two lists that are compared: the nodes of the old value and those of the tree, below the path.\<close>

definition curList :: "('h, 'v) setEnv \<Rightarrow> gpath option \<Rightarrow> 'v option \<Rightarrow> ('h, 'v) mstate \<Rightarrow> (serr, DataAndPath list) result" where
  "curList env gpath oldval st =
     ListAll (se_vals env) (se_model env) (map_option (se_snapshot env (ms_heap st)) oldval) None [AddFakePrefix gpath]"

definition newList :: "('h, 'v) setEnv \<Rightarrow> gpath option \<Rightarrow> ('h, 'v) mstate \<Rightarrow> (serr, DataAndPath list) result" where
  "newList env gpath st =
     ListAll (se_vals env) (se_model env) (Some (se_snapshot env (ms_heap st) (mo_Root (ms_MO st)))) gpath []"

definition executeStateConfig :: "('h, 'v) setEnv \<Rightarrow> gpath option \<Rightarrow> 'v option \<Rightarrow> ('h, 'v, unit) setM" where
  "executeStateConfig env gpath oldval st =
     (case se_config env of
        None \<Rightarrow> (st, Ok ())
      | Some sc \<Rightarrow>
          hbind (lift (curList env gpath oldval st)) (\<lambda>curlist.
          hbind (lift (newList env gpath st)) (\<lambda>newlist.
            let cur = mapDataAndPath curlist; new = mapDataAndPath newlist in
            hbind (orEnd sc (callConfig sc CfgStart)) (\<lambda>u.
            hbind (deleteLoop sc new curlist) (\<lambda>u.
            hbind (writeLoop env sc cur newlist) (\<lambda>u. callConfig sc CfgEnd))))) st)"

section \<open>The transaction\<close>

definition addBackupEntry :: "setOperation \<Rightarrow> string \<Rightarrow> gpath option \<Rightarrow> 'v option \<Rightarrow> ('h, 'v, unit) setM" where
  "addBackupEntry optype xpath gpath oldval st =
     (st\<lparr>ms_setBackup := ms_setBackup st @
        [\<lparr>be_optype = optype, be_xpath = xpath, be_gpath = gpath, be_oldval = oldval, be_executed = False\<rparr>]\<rparr>, Ok ())"

text \<open>The entry that is marked is the one added last.\<close>

definition markExecuted :: "('h, 'v, unit) setM" where
  "markExecuted st =
     (st\<lparr>ms_setBackup := butlast (ms_setBackup st) @ [(last (ms_setBackup st))\<lparr>be_executed := True\<rparr>]\<rparr>, Ok ())"

definition SetInit :: "('h, 'v) mstate \<Rightarrow> ('h, 'v) mstate" where
  "SetInit st = st\<lparr>ms_setSeq := ms_setSeq st + 1, ms_setBackup := []\<rparr>"

text \<open>The old value of an entry back in its place.\<close>

definition writeBack :: "('h, 'v) setEnv \<Rightarrow> 'v backupEntry \<Rightarrow> 'v MO \<Rightarrow> ('h, unit) heapM" where
  "writeBack env be mo =
     (if be_oldval be = None then DeleteValue (se_lib env) mo (be_gpath be)
      else WriteValue (se_lib env) mo (be_gpath be) (be_oldval be))"

fun doneLoop :: "('h, 'v) setEnv \<Rightarrow> 'v backupEntry list \<Rightarrow> ('h, 'v, unit) setM" where
  "doneLoop env [] = hret ()"
| "doneLoop env (be # bes) =
     hbind (ignore (onTree Internal TagOperationFail (writeBack env be))) (\<lambda>u. doneLoop env bes)"

definition clearBackup :: "('h, 'v, unit) setM" where
  "clearBackup st = (st\<lparr>ms_setBackup := []\<rparr>, Ok ())"

definition SetDone :: "('h, 'v) setEnv \<Rightarrow> ('h, 'v, unit) setM" where
  "SetDone env st =
     (if ms_setBackup st = [] then (st, Ok ())
      else if se_config env = None then (st, Ok ())
      else hbind (doneLoop env (ms_setBackup st)) (\<lambda>u. clearBackup) st)"

text \<open>One entry: the value now in its place, the old value back, and the external system told if it had been.\<close>

definition rollbackEntry :: "('h, 'v) setEnv \<Rightarrow> 'v backupEntry \<Rightarrow> ('h, 'v, unit) setM" where
  "rollbackEntry env be st =
     (let new = FindValue (se_lib env) (ms_MO st) (be_gpath be) (ms_heap st) in
      case onTree Internal TagOperationFail (writeBack env be) st of
        (st', Inl (Panic p)) \<Rightarrow> (st', Panics p)
      | (st', Inl (Err e)) \<Rightarrow> (st', Ok ())
      | (st', Inr u) \<Rightarrow>
          if be_executed be then ignore (executeStateConfig env (be_gpath be) new) st' else (st', Ok ()))"

fun rollbackLoop :: "('h, 'v) setEnv \<Rightarrow> 'v backupEntry list \<Rightarrow> ('h, 'v, unit) setM" where
  "rollbackLoop env [] = hret ()"
| "rollbackLoop env (be # bes) = hbind (rollbackEntry env be) (\<lambda>u. rollbackLoop env bes)"

definition SetRollback :: "('h, 'v) setEnv \<Rightarrow> ('h, 'v, unit) setM" where
  "SetRollback env st = hbind (rollbackLoop env (ms_setBackup st)) (\<lambda>u. clearBackup) st"

section \<open>The operations\<close>

text \<open>\<open>Model.Get\<close>: the nodes at a path with the references they hold.\<close>

definition Model_Get :: "('h, 'v) setEnv \<Rightarrow> gpath option \<Rightarrow> ('h, 'v) mstate \<Rightarrow> (string \<times> 'v option) list \<times> bool" where
  "Model_Get env path st =
     (case Find (se_vals env) (se_model env) (Some (se_snapshot env (ms_heap st) (mo_Root (ms_MO st)))) path [] of
        (targets, ok) \<Rightarrow> (map (\<lambda>d. (d_Path d, se_at env (ms_heap st) (mo_Root (ms_MO st)) (d_Path d))) targets, ok))"

definition readOnlyGuard :: "gpath option \<Rightarrow> ('h, 'v, unit) setM" where
  "readOnlyGuard gpath st =
     (case FindSchemaByRelativeGNMIPath (Some (mo_Schema (ms_MO st))) gpath of
        Some s \<Rightarrow> if en_ReadOnly s then (st, Failed (Tagged InvalidArgument TagInvalidPath)) else (st, Ok ())
      | None \<Rightarrow> (st, Ok ()))"

definition pathOf :: "string \<Rightarrow> ('h, 'v, gpath option) setM" where
  "pathOf x =
     (case ToGNMIPath x of
        Inl (Panic p) \<Rightarrow> hpanic p
      | Inl (Err e) \<Rightarrow> herr (Tagged Internal TagInvalidPath)
      | Inr g \<Rightarrow> hret (Some g))"

text \<open>The end of every operation: the external system is told and the entry marked.\<close>

definition execute :: "('h, 'v) setEnv \<Rightarrow> gpath option \<Rightarrow> 'v option \<Rightarrow> ('h, 'v, unit) setM" where
  "execute env gpath oldval st =
     (case executeStateConfig env gpath oldval st of
        (st', Inl (Panic p)) \<Rightarrow> (st', Panics p)
      | (st', Inl (Err e)) \<Rightarrow> (st', Failed (Tagged Internal TagOperationFail))
      | (st', Inr u) \<Rightarrow> markExecuted st')"

definition newRoot :: "('h, 'v) setEnv \<Rightarrow> ('h, 'v, unit) setM" where
  "newRoot env st = (case NewEmptyRoot (se_lib env) (ms_MO st) (ms_heap st) of (h, mo) \<Rightarrow> (st\<lparr>ms_heap := h, ms_MO := mo\<rparr>, Ok ()))"

definition deleteNode :: "('h, 'v) setEnv \<Rightarrow> gpath option \<Rightarrow> ('h, 'v, unit) setM" where
  "deleteNode env gpath =
     onTree InvalidArgument TagBadData (\<lambda>mo. yt_DeleteNode (se_lib env) (mo_Schema mo) (mo_Root mo) gpath)"

definition writeTyped :: "('h, 'v) setEnv \<Rightarrow> gpath option \<Rightarrow> typedValue option \<Rightarrow> ('h, 'v, unit) setM" where
  "writeTyped env gpath typedValue =
     onTree InvalidArgument TagBadData (\<lambda>mo. WriteTypedValue (se_lib env) (se_clone env) mo gpath typedValue)"

text \<open>One target of an operation: \<open>change\<close> is what the operation does to the node.\<close>

definition onTarget ::
    "('h, 'v) setEnv \<Rightarrow> setOperation \<Rightarrow> (gpath option \<Rightarrow> ('h, 'v, unit) setM) \<Rightarrow> string \<Rightarrow> 'v option \<Rightarrow> gpath option \<Rightarrow> ('h, 'v, unit) setM" where
  "onTarget env optype change xpath oldval gpath =
     hbind (readOnlyGuard gpath) (\<lambda>u.
     hbind (addBackupEntry optype xpath gpath oldval) (\<lambda>u.
     hbind (change gpath) (\<lambda>u. execute env gpath oldval)))"

fun targetLoop ::
    "('h, 'v) setEnv \<Rightarrow> setOperation \<Rightarrow> (gpath option \<Rightarrow> ('h, 'v, unit) setM) \<Rightarrow> (string \<times> 'v option) list \<Rightarrow> ('h, 'v, unit) setM" where
  "targetLoop env optype change [] = hret ()"
| "targetLoop env optype change ((xpath, oldval) # targets) =
     hbind (pathOf xpath) (\<lambda>gpath.
     hbind (onTarget env optype change xpath oldval gpath) (\<lambda>u. targetLoop env optype change targets))"

definition fullPath :: "('h, 'v) setEnv \<Rightarrow> gpath option \<Rightarrow> gpath option \<Rightarrow> ('h, 'v, gpath option) setM" where
  "fullPath env pfx path = lift (GNMIFullPath (se_clone env) pfx path)"

definition SetDelete :: "('h, 'v) setEnv \<Rightarrow> gpath option \<Rightarrow> gpath option \<Rightarrow> ('h, 'v, unit) setM" where
  "SetDelete env pfx path =
     hbind (fullPath env pfx path) (\<lambda>fullpath st.
       targetLoop env OpDelete (\<lambda>gpath. if GetElem gpath = [] then newRoot env else deleteNode env gpath)
         (fst (Model_Get env fullpath st)) st)"

definition SetReplace :: "('h, 'v) setEnv \<Rightarrow> gpath option \<Rightarrow> gpath option \<Rightarrow> typedValue option \<Rightarrow> ('h, 'v, unit) setM" where
  "SetReplace env pfx path typedValue =
     hbind (fullPath env pfx path) (\<lambda>fullpath st.
       case Model_Get env fullpath st of (targets, ok) \<Rightarrow>
         if \<not> ok then onTarget env OpReplace (\<lambda>gpath. writeTyped env gpath typedValue) (ToXPath fullpath) None fullpath st
         else targetLoop env OpReplace (\<lambda>gpath. hbind (deleteNode env gpath) (\<lambda>u. writeTyped env gpath typedValue)) targets st)"

definition SetUpdate :: "('h, 'v) setEnv \<Rightarrow> gpath option \<Rightarrow> gpath option \<Rightarrow> typedValue option \<Rightarrow> ('h, 'v, unit) setM" where
  "SetUpdate env pfx path typedValue =
     hbind (fullPath env pfx path) (\<lambda>fullpath st.
       case Model_Get env fullpath st of (targets, ok) \<Rightarrow>
         if \<not> ok then onTarget env OpUpdate (\<lambda>gpath. writeTyped env gpath typedValue) (ToXPath fullpath) None fullpath st
         else targetLoop env OpUpdate (\<lambda>gpath. writeTyped env gpath typedValue) targets st)"

section \<open>Loading\<close>

text \<open>An error of a call in \<open>Load\<close>, except at the start, returns at once.\<close>

definition retag :: "('h, 'v, unit) setM \<Rightarrow> ('h, 'v, unit) setM" where
  "retag m st =
     (case m st of (st', Inl (Err e)) \<Rightarrow> (st', Failed (Tagged Internal TagOperationFail)) | r \<Rightarrow> r)"

fun loadDeletes :: "stateConfig \<Rightarrow> (string, DataAndPath) gomap \<Rightarrow> (string \<times> DataAndPath) list \<Rightarrow> ('h, 'v, unit) setM" where
  "loadDeletes sc new [] = hret ()"
| "loadDeletes sc new ((p, d) # rest) =
     (if map_get new p = None then hbind (retag (callConfig sc (CfgDelete p))) (\<lambda>u. loadDeletes sc new rest)
      else loadDeletes sc new rest)"

fun loadWrites :: "('h, 'v) setEnv \<Rightarrow> stateConfig \<Rightarrow> (string, DataAndPath) gomap \<Rightarrow> (string \<times> DataAndPath) list \<Rightarrow> ('h, 'v, unit) setM" where
  "loadWrites env sc cur [] = hret ()"
| "loadWrites env sc cur ((p, d) # rest) =
     hbind (retag (callConfig sc
         (if map_get cur p \<noteq> None then CfgReplace p (GetValueString (se_isScalar env) (se_enc env) d)
          else CfgCreate p (GetValueString (se_isScalar env) (se_enc env) d))))
       (\<lambda>u. loadWrites env sc cur rest)"

text \<open>\<open>order\<close> is the order in which a \<open>range\<close> visits a map.\<close>

definition loadSync ::
    "('h, 'v) setEnv \<Rightarrow> ((string, DataAndPath) gomap \<Rightarrow> (string, DataAndPath) gomap) \<Rightarrow> stateConfig \<Rightarrow> 'v MO \<Rightarrow> ('h, 'v, unit) setM" where
  "loadSync env order sc newMO st =
     hbind (lift (ListAll (se_vals env) (se_model env) (Some (se_snapshot env (ms_heap st) (mo_Root newMO))) None [])) (\<lambda>newlist.
     hbind (lift (ListAll (se_vals env) (se_model env) (Some (se_snapshot env (ms_heap st) (mo_Root (ms_MO st)))) None [])) (\<lambda>curlist.
       let cur = mapDataAndPath curlist; new = mapDataAndPath newlist in
       hbind (retag (orEnd sc (callConfig sc CfgStart))) (\<lambda>u.
       hbind (loadDeletes sc new (order cur)) (\<lambda>u.
       hbind (loadWrites env sc cur (order new)) (\<lambda>u. retag (callConfig sc CfgEnd)))))) st"

definition Load ::
    "('h, 'v) setEnv \<Rightarrow> ((string, DataAndPath) gomap \<Rightarrow> (string, DataAndPath) gomap) \<Rightarrow> string option \<Rightarrow> Encoding \<Rightarrow> bool \<Rightarrow> ('h, 'v, unit) setM" where
  "Load env order startup encoding sync st =
     (case NewRoot (se_lib env) (se_clone env) (ms_MO st) startup encoding (ms_heap st) of
        (h, Inl x) \<Rightarrow> (st\<lparr>ms_heap := h\<rparr>, Inl x)
      | (h, Inr newMO) \<Rightarrow>
          hbind (case (sync, se_config env) of (True, Some sc) \<Rightarrow> loadSync env order sc newMO | _ \<Rightarrow> hret ())
            (\<lambda>u st'. (st'\<lparr>ms_MO := newMO\<rparr>, Ok ())) (st\<lparr>ms_heap := h\<rparr>))"

section \<open>The calls of one change\<close>

lemma mapDataAndPath_None: "map_get (mapDataAndPath es) p = None \<longleftrightarrow> p \<notin> d_Path ` set es"
proof -
  have "map_get (foldl (\<lambda>m entry. if map_get m (d_Path entry) = None then map_put (d_Path entry) entry m else m) m es) p = None
    \<longleftrightarrow> map_get m p = None \<and> p \<notin> d_Path ` set es" for m
    by (induction es arbitrary: m) (auto simp: gomap_simps)
  then show ?thesis by (simp add: mapDataAndPath_def)
qed

text \<open>The calls that tell the difference of two lists of nodes, in order.\<close>

definition nodeEvent :: "('h, 'v) setEnv \<Rightarrow> DataAndPath list \<Rightarrow> DataAndPath \<Rightarrow> cfgEvent" where
  "nodeEvent env curlist d =
     (if d_Path d \<in> d_Path ` set curlist
      then CfgReplace (d_Path d) (GetValueString (se_isScalar env) (se_enc env) d)
      else CfgCreate (d_Path d) (GetValueString (se_isScalar env) (se_enc env) d))"

definition planned :: "('h, 'v) setEnv \<Rightarrow> DataAndPath list \<Rightarrow> DataAndPath list \<Rightarrow> cfgEvent list" where
  "planned env curlist newlist =
     map (\<lambda>d. CfgDelete (d_Path d)) (filter (\<lambda>d. d_Path d \<notin> d_Path ` set newlist) curlist) @ map (nodeEvent env curlist) newlist"

fun callAll :: "stateConfig \<Rightarrow> cfgEvent list \<Rightarrow> ('h, 'v, unit) setM" where
  "callAll sc [] = hret ()"
| "callAll sc (ev # evs) = hbind (orEnd sc (callConfig sc ev)) (\<lambda>u. callAll sc evs)"

lemma callAll_append: "callAll sc (xs @ ys) = hbind (callAll sc xs) (\<lambda>u. callAll sc ys)"
  by (induction xs) (auto simp: hbind_assoc)

lemma deleteLoop_callAll:
  "deleteLoop sc (mapDataAndPath newlist) es =
   callAll sc (map (\<lambda>d. CfgDelete (d_Path d)) (filter (\<lambda>d. d_Path d \<notin> d_Path ` set newlist) es))"
  by (induction es) (auto simp: mapDataAndPath_None)

lemma writeLoop_callAll: "writeLoop env sc (mapDataAndPath curlist) es = callAll sc (map (nodeEvent env curlist) es)"
  using mapDataAndPath_None [of curlist] by (induction es) (auto simp: nodeEvent_def)

lemma callAll_log:
  "callAll sc evs st = (st\<lparr>ms_cfg := ms_cfg st @ evs\<rparr>, Ok ())
   \<or> (\<exists>called e. prefix called evs \<and> callAll sc evs st = (st\<lparr>ms_cfg := ms_cfg st @ called @ [CfgEnd]\<rparr>, Failed e))"
proof (induction evs arbitrary: st)
  case (Cons ev evs)
  let ?st = "st\<lparr>ms_cfg := ms_cfg st @ [ev]\<rparr>"
  show ?case
  proof (cases "sc (ms_cfg st) ev")
    case None
    then have step: "callAll sc (ev # evs) st = callAll sc evs ?st"
      by (simp add: heap_simps orEnd_def callConfig_def)
    from Cons.IH [of ?st] show ?thesis
    proof
      assume "\<exists>called e. prefix called evs \<and> callAll sc evs ?st = (?st\<lparr>ms_cfg := ms_cfg ?st @ called @ [CfgEnd]\<rparr>, Failed e)"
      then obtain called e where "prefix called evs" "callAll sc evs ?st = (?st\<lparr>ms_cfg := ms_cfg ?st @ called @ [CfgEnd]\<rparr>, Failed e)"
        by blast
      with step show ?thesis by (intro disjI2 exI [of _ "ev # called"] exI [of _ e]) simp
    qed (use step in simp)
  next
    case (Some e)
    then have "callAll sc (ev # evs) st = (st\<lparr>ms_cfg := ms_cfg st @ [ev] @ [CfgEnd]\<rparr>, Failed (Other e))"
      by (simp add: heap_simps orEnd_def callConfig_def)
    then show ?thesis by (intro disjI2 exI [of _ "[ev]"] exI [of _ "Other e"]) simp
  qed
qed (simp add: hret_def)

lemma executeStateConfig_callAll:
  assumes "se_config env = Some sc" "curList env gpath oldval st = Ok curlist" "newList env gpath st = Ok newlist"
  shows "executeStateConfig env gpath oldval st =
    hbind (callAll sc (CfgStart # planned env curlist newlist)) (\<lambda>u. callConfig sc CfgEnd) st"
  using assms
  by (simp add: executeStateConfig_def Let_def deleteLoop_callAll writeLoop_callAll planned_def callAll_append hbind_assoc)

lemma executeStateConfig_log:
  assumes "se_config env = Some sc" "curList env gpath oldval st = Ok curlist" "newList env gpath st = Ok newlist"
  shows "\<exists>called r. prefix called (planned env curlist newlist)
    \<and> executeStateConfig env gpath oldval st = (st\<lparr>ms_cfg := ms_cfg st @ CfgStart # called @ [CfgEnd]\<rparr>, r)
    \<and> (r = Ok () \<longrightarrow> called = planned env curlist newlist) \<and> no_panic r"
proof -
  let ?p = "planned env curlist newlist"
  note ex = executeStateConfig_callAll [OF assms]
  have startFails: ?thesis if e: "sc (ms_cfg st) CfgStart = Some e" for e
    using ex e by (intro exI [of _ "[]"] exI [of _ "Failed (Other e)"])
      (simp add: heap_simps orEnd_def callConfig_def no_panic_def)
  have starts: ?thesis if n: "sc (ms_cfg st) CfgStart = None"
  proof -
    let ?st = "st\<lparr>ms_cfg := ms_cfg st @ [CfgStart]\<rparr>"
    have step: "executeStateConfig env gpath oldval st = hbind (callAll sc ?p) (\<lambda>u. callConfig sc CfgEnd) ?st"
      using ex n by (simp add: heap_simps orEnd_def callConfig_def)
    from callAll_log [of sc ?p ?st] show ?thesis
    proof
      assume "callAll sc ?p ?st = (?st\<lparr>ms_cfg := ms_cfg ?st @ ?p\<rparr>, Ok ())"
      with step show ?thesis
        by (intro exI [of _ ?p] exI [of _ "snd (executeStateConfig env gpath oldval st)"]) (auto simp: hbind_def callConfig_def no_panic_def split: option.splits)
    next
      assume "\<exists>called e. prefix called ?p \<and> callAll sc ?p ?st = (?st\<lparr>ms_cfg := ms_cfg ?st @ called @ [CfgEnd]\<rparr>, Failed e)"
      then obtain called e where "prefix called ?p" "callAll sc ?p ?st = (?st\<lparr>ms_cfg := ms_cfg ?st @ called @ [CfgEnd]\<rparr>, Failed e)"
        by blast
      with step show ?thesis
        by (intro exI [of _ called] exI [of _ "Failed e"]) (simp add: hbind_def no_panic_def)
    qed
  qed
  show ?thesis using startFails starts by (cases "sc (ms_cfg st) CfgStart") auto
qed

lemma listAll_loop_Ok: "\<exists>ds. listAll_loop y m ts opts = Ok ds"
proof (induction ts arbitrary: opts)
  case (Cons t ts)
  from Cons [of opts] obtain ds where "listAll_loop y m ts opts = Ok ds" ..
  moreover from Cons have "\<exists>ds. listAll_loop y m ts opts' = Ok ds" for opts' .
  ultimately show ?case
    using ToGNMIPath_total [of "d_Path t"] by (auto simp: Let_def split: sum.splits exn.splits) (metis Inl_Inr_False)+
qed simp

lemma ListAll_Ok: "\<exists>ds. ListAll y m base path opts = Ok ds"
  using listAll_loop_Ok by (cases path) (auto simp: ListAll_def)

lemma executeStateConfig_frame:
  "\<exists>log r. executeStateConfig env gpath oldval st = (st\<lparr>ms_cfg := log\<rparr>, r) \<and> no_panic r"
proof (cases "se_config env")
  case None
  then show ?thesis by (intro exI [of _ "ms_cfg st"] exI [of _ "Ok ()"]) (simp add: executeStateConfig_def no_panic_def)
next
  case (Some sc)
  obtain curlist newlist where "curList env gpath oldval st = Ok curlist" "newList env gpath st = Ok newlist"
    using ListAll_Ok unfolding curList_def newList_def by metis
  from executeStateConfig_log [OF Some this] show ?thesis by blast
qed

end
