(* ===== verification/SetLaws.thy ===== *)
theory SetLaws
  imports ModelSet
begin

text \<open>
  What a Set transaction keeps: for leaves, and a library that reads and writes them as documented, the invariant of
  the backup, and that a replay of the backup restores the old values. With the calls that the external system sees.
\<close>

section \<open>Leaves in a transaction\<close>

text \<open>
  What the code relies on of the library for a set \<open>P\<close> of paths of leaves, which are no list keys: \<open>read\<close> is the value a
  leaf has. Creating the nodes of a path changes no leaf, \<open>ValChildSet\<close> sets the leaf, \<open>DeleteNode\<close> removes it, \<open>SetNode\<close>
  changes no other leaf, and a search finds a leaf with its value.
\<close>

definition leafNodes :: "('h, 'v) treeLib \<Rightarrow> 'v MO \<Rightarrow> gpath set \<Rightarrow> ('h \<Rightarrow> gpath \<Rightarrow> 'v option) \<Rightarrow> bool" where
  "leafNodes lib mo P read =
     (\<forall>h. \<forall>p\<in>P. \<exists>h1 parent target yt. GetOrCreateNode lib mo (Some p) h = (h1, Ok (parent, target))
        \<and> \<not> IsDir (tn_Schema target) \<and> en_Type lib (tn_Schema target) = Some yt \<and> yt_Kind yt \<noteq> Yempty \<and> read h1 = read h
        \<and> (\<forall>v. \<exists>h2. yd_ValChildSet lib (tn_Data parent) (en_Name (tn_Schema target)) (Some v) h1 = (h2, Ok ())
              \<and> read h2 = (read h)(p := Some v)))"

definition leafChanges :: "('h, 'v) treeLib \<Rightarrow> 'v MO \<Rightarrow> gpath set \<Rightarrow> ('h \<Rightarrow> gpath \<Rightarrow> 'v option) \<Rightarrow> bool" where
  "leafChanges lib mo P read =
     (\<forall>h. \<forall>p\<in>P. (\<exists>h1. yt_DeleteNode lib (mo_Schema mo) (mo_Root mo) (Some p) h = (h1, Ok ()) \<and> read h1 = (read h)(p := None))
        \<and> (\<forall>tv q. q \<noteq> p \<longrightarrow> read (fst (yt_SetNode lib (mo_Schema mo) (mo_Root mo) (Some p) tv h)) q = read h q))"

definition leafSearch :: "('h, 'v) setEnv \<Rightarrow> 'v MO \<Rightarrow> gpath set \<Rightarrow> ('h \<Rightarrow> gpath \<Rightarrow> 'v option) \<Rightarrow> bool" where
  "leafSearch env mo P read =
     (\<forall>h. \<forall>p\<in>P. (\<forall>x. ToGNMIPath x = Ok p \<longrightarrow> se_at env h (mo_Root mo) x = read h p)
        \<and> (\<not> snd (Find (se_vals env) (se_model env) (Some (se_snapshot env h (mo_Root mo))) (Some p) []) \<longrightarrow> read h p = None))"

definition noKeys :: "'v MO \<Rightarrow> gpath set \<Rightarrow> bool" where
  "noKeys mo P =
     (\<forall>p\<in>P. p_Elem p \<noteq> [] \<and> findSchema (mo_Schema mo) (p_Elem p) \<noteq> None
        \<and> (\<forall>s. parentSchema (mo_Schema mo) (p_Elem p) = Some s \<longrightarrow> \<not> Contains (en_Key s) (pe_Name (last (p_Elem p)))))"

definition leafLaws :: "('h, 'v) setEnv \<Rightarrow> 'v MO \<Rightarrow> gpath set \<Rightarrow> ('h \<Rightarrow> gpath \<Rightarrow> 'v option) \<Rightarrow> bool" where
  "leafLaws env mo P read =
     (leafNodes (se_lib env) mo P read \<and> leafChanges (se_lib env) mo P read \<and> leafSearch env mo P read \<and> noKeys mo P)"

text \<open>A value that is no JSON document.\<close>

definition scalarVal :: "typedValue option \<Rightarrow> bool" where
  "scalarVal tv = (GetJsonVal tv = None \<and> GetJsonIetfVal tv = None)"

lemma WriteValue_leaf:
  assumes "leafNodes lib mo P read" "p \<in> P"
  shows "\<exists>h'. WriteValue lib mo (Some p) (Some v) h = (h', Ok ()) \<and> read h' = (read h)(p := Some v)"
proof -
  obtain h1 parent target where g: "GetOrCreateNode lib mo (Some p) h = (h1, Ok (parent, target))" "\<not> IsDir (tn_Schema target)"
    and set: "\<exists>h2. yd_ValChildSet lib (tn_Data parent) (en_Name (tn_Schema target)) (Some v) h1 = (h2, Ok ())
      \<and> read h2 = (read h)(p := Some v)"
    using assms unfolding leafNodes_def by metis
  then show ?thesis by (simp add: WriteValue_def hbind_def)
qed

lemma DeleteValue_leaf:
  assumes "leafChanges lib mo P read" "noKeys mo P" "p \<in> P"
  shows "\<exists>h'. DeleteValue lib mo (Some p) h = (h', Ok ()) \<and> read h' = (read h)(p := None)"
  using assms unfolding leafChanges_def noKeys_def DeleteValue_def by (fastforce split: option.splits)

lemma WriteTypedValue_leaf:
  assumes "leafNodes lib mo P read" "leafChanges lib mo P read" "p \<in> P" "scalarVal tv" "q \<noteq> p"
  shows "read (fst (WriteTypedValue lib clone mo (Some p) tv h)) q = read h q"
proof -
  obtain h1 parent target yt where g: "GetOrCreateNode lib mo (Some p) h = (h1, Ok (parent, target))"
      "\<not> IsDir (tn_Schema target)" "en_Type lib (tn_Schema target) = Some yt" "yt_Kind yt \<noteq> Yempty" "read h1 = read h"
    using assms(1,3) unfolding leafNodes_def by metis
  then have "WriteTypedValue lib clone mo (Some p) tv h = yt_SetNode lib (mo_Schema mo) (mo_Root mo) (Some p) tv h1"
    using assms(4) by (simp add: WriteTypedValue_def scalarVal_def hbind_def)
  with assms(2,3,5) g(5) show ?thesis by (simp add: leafChanges_def)
qed

text \<open>A change of one leaf: it leaves the other leaves, the model and the backup alone.\<close>

definition changesOnly :: "'v MO \<Rightarrow> ('h \<Rightarrow> gpath \<Rightarrow> 'v option) \<Rightarrow> gpath \<Rightarrow> ('h, 'v, unit) setM \<Rightarrow> bool" where
  "changesOnly mo read p f =
     (\<forall>st. ms_MO st = mo \<longrightarrow>
        (\<exists>h r. f st = (st\<lparr>ms_heap := h\<rparr>, r) \<and> (\<forall>q. q \<noteq> p \<longrightarrow> read h q = read (ms_heap st) q)))"

lemma onTree_changes:
  fixes read :: "'h \<Rightarrow> gpath \<Rightarrow> 'v option"
  assumes "\<And>h q. q \<noteq> p \<Longrightarrow> read (fst (f mo h)) q = read h q"
  shows "changesOnly mo read p (onTree c tag f)"
  unfolding changesOnly_def
proof (intro allI impI)
  fix st :: "('h, 'v) mstate" assume mo: "ms_MO st = mo"
  show "\<exists>h r. onTree c tag f st = (st\<lparr>ms_heap := h\<rparr>, r) \<and> (\<forall>q. q \<noteq> p \<longrightarrow> read h q = read (ms_heap st) q)"
    using assms [of _ "ms_heap st"] mo
    by (cases "f mo (ms_heap st)") (auto simp: onTree_def tagged_def split: sum.splits exn.splits)
qed

lemma changesOnly_bind:
  fixes read :: "'h \<Rightarrow> gpath \<Rightarrow> 'v option"
  assumes "changesOnly mo read p f" "changesOnly mo read p g"
  shows "changesOnly mo read p (hbind f (\<lambda>u. g))"
  unfolding changesOnly_def
proof (intro allI impI)
  fix st :: "('h, 'v) mstate" assume mo: "ms_MO st = mo"
  obtain h r where f: "f st = (st\<lparr>ms_heap := h\<rparr>, r)" "\<forall>q. q \<noteq> p \<longrightarrow> read h q = read (ms_heap st) q"
    using assms(1) mo unfolding changesOnly_def by blast
  have "ms_MO (st\<lparr>ms_heap := h\<rparr>) = mo" using mo by simp
  then obtain h' r' where g: "g (st\<lparr>ms_heap := h\<rparr>) = (st\<lparr>ms_heap := h\<rparr>\<lparr>ms_heap := h'\<rparr>, r')"
      "\<forall>q. q \<noteq> p \<longrightarrow> read h' q = read (ms_heap (st\<lparr>ms_heap := h\<rparr>)) q"
    using assms(2) unfolding changesOnly_def by blast
  show "\<exists>h r. hbind f (\<lambda>u. g) st = (st\<lparr>ms_heap := h\<rparr>, r) \<and> (\<forall>q. q \<noteq> p \<longrightarrow> read h q = read (ms_heap st) q)"
    using f g by (cases r) (auto simp: hbind_def)
qed

lemma writeTyped_changes: "leafLaws env mo P read \<Longrightarrow> p \<in> P \<Longrightarrow> scalarVal tv \<Longrightarrow> changesOnly mo read p (writeTyped env (Some p) tv)"
  unfolding writeTyped_def leafLaws_def by (intro onTree_changes WriteTypedValue_leaf) auto

lemma deleteNode_changes:
  assumes "leafLaws env mo P read" "p \<in> P"
  shows "changesOnly mo read p (deleteNode env (Some p))"
proof -
  have "read (fst (yt_DeleteNode (se_lib env) (mo_Schema mo) (mo_Root mo) (Some p) h)) q = read h q" if "q \<noteq> p" for h q
    using assms that unfolding leafLaws_def leafChanges_def by (metis fst_conv fun_upd_other)
  then show ?thesis unfolding deleteNode_def by (rule onTree_changes)
qed

section \<open>The invariant of a transaction\<close>

text \<open>
  Relative to the heap \<open>h0\<close> at its start: a backup entry holds the old value of its leaf, and a leaf without an entry has
  its old value. \<open>touched\<close>: every entry is for a leaf of \<open>P\<close>, and no two are for the same one.
\<close>

definition paths :: "('h, 'v) mstate \<Rightarrow> gpath option list" where
  "paths st = map be_gpath (ms_setBackup st)"

definition tx_ok :: "'v MO \<Rightarrow> ('h \<Rightarrow> gpath \<Rightarrow> 'v option) \<Rightarrow> 'h \<Rightarrow> ('h, 'v) mstate \<Rightarrow> bool" where
  "tx_ok mo read h0 st =
     (ms_MO st = mo
      \<and> (\<forall>b\<in>set (ms_setBackup st). \<forall>p. be_gpath b = Some p \<longrightarrow> be_oldval b = read h0 p)
      \<and> (\<forall>q. Some q \<notin> set (paths st) \<longrightarrow> read (ms_heap st) q = read h0 q))"

definition touched :: "gpath set \<Rightarrow> ('h, 'v) mstate \<Rightarrow> bool" where
  "touched P st = (distinct (paths st) \<and> set (paths st) \<subseteq> Some ` P)"

text \<open>An operation keeps the invariant if in the end it has touched leaves only, each once, and it only adds entries.\<close>

definition keeps :: "'v MO \<Rightarrow> gpath set \<Rightarrow> ('h \<Rightarrow> gpath \<Rightarrow> 'v option) \<Rightarrow> 'h \<Rightarrow> ('h, 'v) mstate \<Rightarrow> ('h, 'v) mstate \<Rightarrow> bool" where
  "keeps mo P read h0 st st' = (prefix (paths st) (paths st') \<and> (touched P st' \<longrightarrow> tx_ok mo read h0 st \<longrightarrow> tx_ok mo read h0 st'))"

lemma touched_prefix: "prefix (paths st) (paths st') \<Longrightarrow> touched P st' \<Longrightarrow> touched P st"
  by (auto simp: touched_def prefix_def)

lemma keeps_refl [simp, intro]: "keeps mo P read h0 st st"
  by (simp add: keeps_def)

lemma keeps_trans: "keeps mo P read h0 st st' \<Longrightarrow> keeps mo P read h0 st' st'' \<Longrightarrow> keeps mo P read h0 st st''"
  using touched_prefix unfolding keeps_def by (metis prefix_order.order_trans)

lemma markExecuted_paths:
  assumes "ms_setBackup st = bs @ [b]"
  shows "fst (markExecuted st) = st\<lparr>ms_setBackup := bs @ [b\<lparr>be_executed := True\<rparr>]\<rparr>" "snd (markExecuted st) = Ok ()"
  using assms by (simp_all add: markExecuted_def)

text \<open>The end of an operation: the entry added last, marked or not.\<close>

lemma execute_frame:
  assumes "ms_setBackup st = bs @ [b]"
  shows "\<exists>log x r. execute env gpath oldval st = (st\<lparr>ms_cfg := log, ms_setBackup := bs @ [b\<lparr>be_executed := x\<rparr>]\<rparr>, r)"
proof -
  obtain log r where ex: "executeStateConfig env gpath oldval st = (st\<lparr>ms_cfg := log\<rparr>, r)" "no_panic r"
    using executeStateConfig_frame by blast
  show ?thesis
  proof (cases r)
    case (Inr u)
    then show ?thesis
      using ex assms by (intro exI [of _ log] exI [of _ True]) (simp add: execute_def markExecuted_def)
  next
    case (Inl e)
    have "st\<lparr>ms_cfg := log\<rparr> = st\<lparr>ms_cfg := log, ms_setBackup := bs @ [b\<lparr>be_executed := be_executed b\<rparr>]\<rparr>"
      using assms by (cases st) simp
    with Inl ex(1) show ?thesis
      by (intro exI [of _ log] exI [of _ "be_executed b"]) (simp add: execute_def split: exn.splits)
  qed
qed

lemma onTarget_keeps:
  assumes "\<And>p. gpath = Some p \<Longrightarrow> p \<in> P \<Longrightarrow> changesOnly mo read p (change (Some p))"
    and old: "\<And>p. gpath = Some p \<Longrightarrow> p \<in> P \<Longrightarrow> tx_ok mo read h0 st \<Longrightarrow> Some p \<notin> set (paths st) \<Longrightarrow> oldval = read h0 p"
    and only: "\<And>st. \<exists>h mo r. change gpath st = (st\<lparr>ms_heap := h, ms_MO := mo\<rparr>, r)"
  shows "keeps mo P read h0 st (fst (onTarget env optype change xpath oldval gpath st))"
proof (cases "readOnlyGuard gpath st = (st, Ok ())")
  case False
  then have "onTarget env optype change xpath oldval gpath st = (st, Failed (Tagged InvalidArgument TagInvalidPath))"
    by (simp add: onTarget_def hbind_def readOnlyGuard_def split: option.splits if_splits)
  then show ?thesis by simp
next
  case True
  let ?b = "\<lparr>be_optype = optype, be_xpath = xpath, be_gpath = gpath, be_oldval = oldval, be_executed = False\<rparr>"
  let ?bs = "ms_setBackup st"
  let ?st = "st\<lparr>ms_setBackup := ?bs @ [?b]\<rparr>"
  obtain h mo' r where ch: "change gpath ?st = (?st\<lparr>ms_heap := h, ms_MO := mo'\<rparr>, r)" using only by blast
  have run: "onTarget env optype change xpath oldval gpath st =
      (case r of Inl e \<Rightarrow> (?st\<lparr>ms_heap := h, ms_MO := mo'\<rparr>, Inl e) | Inr u \<Rightarrow> execute env gpath oldval (?st\<lparr>ms_heap := h, ms_MO := mo'\<rparr>))"
    using True ch by (simp add: onTarget_def hbind_def addBackupEntry_def)
  have "\<exists>log x. fst (onTarget env optype change xpath oldval gpath st) =
      ?st\<lparr>ms_heap := h, ms_MO := mo', ms_cfg := log, ms_setBackup := ?bs @ [?b\<lparr>be_executed := x\<rparr>]\<rparr>"
  proof (cases r)
    case (Inl e)
    show ?thesis by (rule exI [of _ "ms_cfg st"], rule exI [of _ False]) (use run Inl in \<open>cases st; simp\<close>)
  next
    case (Inr u)
    obtain log x ra where "execute env gpath oldval (?st\<lparr>ms_heap := h, ms_MO := mo'\<rparr>) =
        (?st\<lparr>ms_heap := h, ms_MO := mo', ms_cfg := log, ms_setBackup := ?bs @ [?b\<lparr>be_executed := x\<rparr>]\<rparr>, ra)"
      using execute_frame [of "?st\<lparr>ms_heap := h, ms_MO := mo'\<rparr>" ?bs ?b env gpath oldval] by auto
    with run Inr show ?thesis by (intro exI [of _ log] exI [of _ x]) simp
  qed
  then obtain log x where fin: "fst (onTarget env optype change xpath oldval gpath st) =
      ?st\<lparr>ms_heap := h, ms_MO := mo', ms_cfg := log, ms_setBackup := ?bs @ [?b\<lparr>be_executed := x\<rparr>]\<rparr>"
    by blast
  have "tx_ok mo read h0 (fst (onTarget env optype change xpath oldval gpath st))"
    if t: "touched P (fst (onTarget env optype change xpath oldval gpath st))" and tx: "tx_ok mo read h0 st"
  proof -
    from t fin obtain p where p: "gpath = Some p" "p \<in> P" "Some p \<notin> set (paths st)"
      by (auto simp: touched_def paths_def)
    have o: "oldval = read h0 p" using old [OF p(1,2) tx p(3)] .
    have "ms_MO ?st = mo" using tx by (simp add: tx_ok_def)
    with assms(1) [OF p(1,2)] obtain h2 r2 where h2: "change (Some p) ?st = (?st\<lparr>ms_heap := h2\<rparr>, r2)"
        "\<forall>q. q \<noteq> p \<longrightarrow> read h2 q = read (ms_heap ?st) q"
      unfolding changesOnly_def by blast
    from h2(1) ch p(1) have same: "?st\<lparr>ms_heap := h, ms_MO := mo'\<rparr> = ?st\<lparr>ms_heap := h2\<rparr>" by simp
    have c: "mo' = mo" "\<And>q. q \<noteq> p \<Longrightarrow> read h q = read (ms_heap st) q"
      using arg_cong [OF same, of ms_MO] arg_cong [OF same, of ms_heap] h2(2) tx by (simp_all add: tx_ok_def)
    show ?thesis unfolding fin using tx o c p by (auto simp: tx_ok_def paths_def)
  qed
  then show ?thesis by (simp add: keeps_def) (simp add: fin paths_def)
qed

lemma targetLoop_keeps:
  assumes change: "\<And>p. p \<in> P \<Longrightarrow> changesOnly mo read p (change (Some p))"
    and only: "\<And>g st. \<exists>h mo r. change g st = (st\<lparr>ms_heap := h, ms_MO := mo\<rparr>, r)"
    and old: "\<And>x ov p. (x, ov) \<in> set targets \<Longrightarrow> ToGNMIPath x = Ok p \<Longrightarrow> p \<in> P \<Longrightarrow> Some p \<notin> set start \<Longrightarrow> ov = read h0 p"
    and "prefix start (paths st)"
  shows "keeps mo P read h0 st (fst (targetLoop env optype change targets st))"
  using old \<open>prefix start (paths st)\<close>
proof (induction targets arbitrary: st)
  case (Cons t targets)
  obtain x ov where t: "t = (x, ov)" by (cases t)
  show ?case
  proof (cases "ToGNMIPath x")
    case (Inl e)
    then show ?thesis by (cases e) (simp_all add: t pathOf_def hbind_def hpanic_def herr_def)
  next
    case (Inr g)
    let ?r = "onTarget env optype change x ov (Some g) st"
    have k: "keeps mo P read h0 st (fst ?r)"
    proof (rule onTarget_keeps)
      show "ov = read h0 p" if "Some g = Some p" "p \<in> P" "Some p \<notin> set (paths st)" for p
        using Cons.prems(1) [of x ov p] t Inr that Cons.prems(2) by (auto simp: prefix_def)
    qed (use change only in auto)
    then have "prefix start (paths (fst ?r))"
      using Cons.prems(2) by (auto simp: keeps_def intro: prefix_order.order_trans)
    with Cons.IH [of "fst ?r"] Cons.prems(1) k
    have "keeps mo P read h0 st (fst (targetLoop env optype change targets (fst ?r)))"
      by (meson keeps_trans list.set_intros(2))
    with k show ?thesis
      by (cases ?r) (auto simp: t Inr pathOf_def hbind_def hret_def split: sum.splits)
  qed
qed (simp add: hret_def)

lemma onTree_only: "\<exists>h mo r. onTree c tag f st = (st\<lparr>ms_heap := h, ms_MO := mo\<rparr>, r)"
proof -
  obtain h r where "tagged c tag (f (ms_MO st)) (ms_heap st) = (h, r)" by fastforce
  then show ?thesis by (intro exI [of _ h] exI [of _ "ms_MO st"] exI [of _ r]) (simp add: onTree_def)
qed

lemma change_only:
  "\<exists>h mo r. deleteNode env g st = (st\<lparr>ms_heap := h, ms_MO := mo\<rparr>, r)"
  "\<exists>h mo r. writeTyped env g tv st = (st\<lparr>ms_heap := h, ms_MO := mo\<rparr>, r)"
  "\<exists>h mo r. newRoot env st = (st\<lparr>ms_heap := h, ms_MO := mo\<rparr>, r)"
  "\<exists>h mo r. hbind (deleteNode env g) (\<lambda>u. writeTyped env g tv) st = (st\<lparr>ms_heap := h, ms_MO := mo\<rparr>, r)"
proof -
  show d: "\<exists>h mo r. deleteNode env g st = (st\<lparr>ms_heap := h, ms_MO := mo\<rparr>, r)" for st
    unfolding deleteNode_def by (rule onTree_only)
  show w: "\<exists>h mo r. writeTyped env g tv st = (st\<lparr>ms_heap := h, ms_MO := mo\<rparr>, r)" for st
    unfolding writeTyped_def by (rule onTree_only)
  show "\<exists>h mo r. newRoot env st = (st\<lparr>ms_heap := h, ms_MO := mo\<rparr>, r)"
    by (auto simp: newRoot_def split: prod.splits)
  obtain h mo r where f: "deleteNode env g st = (st\<lparr>ms_heap := h, ms_MO := mo\<rparr>, r)" using d by blast
  show "\<exists>h mo r. hbind (deleteNode env g) (\<lambda>u. writeTyped env g tv) st = (st\<lparr>ms_heap := h, ms_MO := mo\<rparr>, r)"
  proof (cases r)
    case (Inl e)
    with f show ?thesis by (auto simp: hbind_def)
  next
    case (Inr u)
    obtain h' mo' r' where "writeTyped env g tv (st\<lparr>ms_heap := h, ms_MO := mo\<rparr>) = (st\<lparr>ms_heap := h, ms_MO := mo\<rparr>\<lparr>ms_heap := h', ms_MO := mo'\<rparr>, r')"
      using w by blast
    with f Inr show ?thesis by (auto simp: hbind_def)
  qed
qed

lemma Model_Get_old:
  assumes "leafLaws env mo P read" "tx_ok mo read h0 st"
    and "(x, ov) \<in> set (fst (Model_Get env path st))" "ToGNMIPath x = Ok p" "p \<in> P" "Some p \<notin> set (paths st)"
  shows "ov = read h0 p"
proof -
  have "ov = se_at env (ms_heap st) (mo_Root (ms_MO st)) x"
    using assms(3) by (auto simp: Model_Get_def split: prod.splits)
  also have "\<dots> = read (ms_heap st) p"
    using assms(1,2,4,5) by (simp add: leafLaws_def leafSearch_def tx_ok_def)
  also have "\<dots> = read h0 p" using assms(2,6) by (simp add: tx_ok_def)
  finally show ?thesis .
qed

lemma Model_Get_absent:
  assumes "leafLaws env mo P read" "tx_ok mo read h0 st" "\<not> snd (Model_Get env (Some p) st)" "p \<in> P" "Some p \<notin> set (paths st)"
  shows "None = read h0 p"
  using assms unfolding leafLaws_def leafSearch_def tx_ok_def Model_Get_def by (auto split: prod.splits)

lemma fullPath_run: "fullPath env pfx path st = (st, GNMIFullPath (se_clone env) pfx path)"
  by (simp add: fullPath_def lift_def)

text \<open>A loop over the nodes that a search has found.\<close>

lemma found_keeps:
  assumes laws: "leafLaws env mo P read"
    and change: "\<And>p. p \<in> P \<Longrightarrow> changesOnly mo read p (change (Some p))"
    and only: "\<And>g st. \<exists>h mo r. change g st = (st\<lparr>ms_heap := h, ms_MO := mo\<rparr>, r)"
  shows "keeps mo P read h0 st (fst (targetLoop env optype change (fst (Model_Get env path st)) st))"
    (is "keeps _ _ _ _ _ (fst (?run st))")
proof -
  have "keeps mo P read h0 st (fst (?run st))" if "tx_ok mo read h0 st"
    using that by (intro targetLoop_keeps [where start = "paths st"] change only Model_Get_old [OF laws]) auto
  moreover have "prefix (paths st) (paths (fst (?run st)))"
  proof -
    have "keeps mo {} read h0 st (fst (?run st))"
      by (intro targetLoop_keeps [where start = "paths st"] only) auto
    then show ?thesis by (simp add: keeps_def)
  qed
  ultimately show ?thesis by (auto simp: keeps_def)
qed

lemma absent_keeps:
  assumes laws: "leafLaws env mo P read" and absent: "\<not> snd (Model_Get env g st)"
    and change: "\<And>p. p \<in> P \<Longrightarrow> changesOnly mo read p (change (Some p))"
    and only: "\<And>g st. \<exists>h mo r. change g st = (st\<lparr>ms_heap := h, ms_MO := mo\<rparr>, r)"
  shows "keeps mo P read h0 st (fst (onTarget env optype change x None g st))"
proof (rule onTarget_keeps)
  show "None = read h0 p" if "g = Some p" "p \<in> P" "tx_ok mo read h0 st" "Some p \<notin> set (paths st)" for p
    using Model_Get_absent [OF laws that(3) _ that(2,4)] absent that(1) by simp
qed (use change only in auto)

lemma SetDelete_keeps:
  assumes laws: "leafLaws env mo P read"
  shows "keeps mo P read h0 st (fst (SetDelete env pfx path st))"
proof (cases "GNMIFullPath (se_clone env) pfx path :: (serr, gpath option) result")
  case (Inl e)
  then show ?thesis by (simp add: SetDelete_def hbind_def fullPath_run)
next
  case (Inr g)
  let ?change = "\<lambda>gpath. if GetElem gpath = [] then newRoot env else deleteNode env gpath"
  have ch: "changesOnly mo read p (?change (Some p))" if "p \<in> P" for p
    using deleteNode_changes [OF laws that] laws that by (simp add: leafLaws_def noKeys_def)
  have only: "\<exists>h mo r. ?change g st = (st\<lparr>ms_heap := h, ms_MO := mo\<rparr>, r)" for g st
    using change_only(1,3) by auto
  have "SetDelete env pfx path st = targetLoop env OpDelete ?change (fst (Model_Get env g st)) st"
    using Inr by (simp add: SetDelete_def hbind_def fullPath_run)
  with found_keeps [OF laws ch only] show ?thesis by (simp only:)
qed

lemma SetReplace_keeps:
  assumes laws: "leafLaws env mo P read" and tv: "scalarVal tv"
  shows "keeps mo P read h0 st (fst (SetReplace env pfx path tv st))"
proof (cases "GNMIFullPath (se_clone env) pfx path :: (serr, gpath option) result")
  case (Inl e)
  then show ?thesis by (simp add: SetReplace_def hbind_def fullPath_run)
next
  case (Inr g)
  let ?change = "\<lambda>gpath. hbind (deleteNode env gpath) (\<lambda>u. writeTyped env gpath tv)"
  have run: "SetReplace env pfx path tv st =
      (if \<not> snd (Model_Get env g st) then onTarget env OpReplace (\<lambda>gpath. writeTyped env gpath tv) (ToXPath g) None g st
       else targetLoop env OpReplace ?change (fst (Model_Get env g st)) st)"
    using Inr by (simp add: SetReplace_def hbind_def fullPath_run split: prod.splits)
  show ?thesis
  proof (cases "snd (Model_Get env g st)")
    case True
    have "keeps mo P read h0 st (fst (targetLoop env OpReplace ?change (fst (Model_Get env g st)) st))"
      by (intro found_keeps [OF laws] changesOnly_bind deleteNode_changes [OF laws] writeTyped_changes [OF laws _ tv] change_only(4))
    with True run show ?thesis by simp
  next
    case False
    then have "keeps mo P read h0 st (fst (onTarget env OpReplace (\<lambda>gpath. writeTyped env gpath tv) (ToXPath g) None g st))"
      by (intro absent_keeps [OF laws] writeTyped_changes [OF laws _ tv] change_only(2))
    with False run show ?thesis by simp
  qed
qed

lemma SetUpdate_keeps:
  assumes laws: "leafLaws env mo P read" and tv: "scalarVal tv"
  shows "keeps mo P read h0 st (fst (SetUpdate env pfx path tv st))"
proof (cases "GNMIFullPath (se_clone env) pfx path :: (serr, gpath option) result")
  case (Inl e)
  then show ?thesis by (simp add: SetUpdate_def hbind_def fullPath_run)
next
  case (Inr g)
  let ?change = "\<lambda>gpath. writeTyped env gpath tv"
  have run: "SetUpdate env pfx path tv st =
      (if \<not> snd (Model_Get env g st) then onTarget env OpUpdate ?change (ToXPath g) None g st
       else targetLoop env OpUpdate ?change (fst (Model_Get env g st)) st)"
    using Inr by (simp add: SetUpdate_def hbind_def fullPath_run split: prod.splits)
  have "keeps mo P read h0 st (fst (targetLoop env OpUpdate ?change (fst (Model_Get env g st)) st))"
    by (intro found_keeps [OF laws] writeTyped_changes [OF laws _ tv] change_only(2))
  moreover have "keeps mo P read h0 st (fst (onTarget env OpUpdate ?change (ToXPath g) None g st))" if "\<not> snd (Model_Get env g st)"
    using that by (intro absent_keeps [OF laws] writeTyped_changes [OF laws _ tv] change_only(2))
  ultimately show ?thesis using run by simp
qed

section \<open>Replays of the backup\<close>

lemma writeBack_leaf:
  assumes "leafLaws env mo P read" "be_gpath b = Some p" "p \<in> P" "ms_MO st = mo"
  shows "\<exists>h. onTree c tag (writeBack env b) st = (st\<lparr>ms_heap := h\<rparr>, Ok ()) \<and> read h = (read (ms_heap st))(p := be_oldval b)"
proof (cases "be_oldval b")
  case None
  then show ?thesis
    using DeleteValue_leaf [of "se_lib env" mo P read p "ms_heap st"] assms
    by (auto simp: onTree_def tagged_def writeBack_def leafLaws_def)
next
  case (Some v)
  then show ?thesis
    using WriteValue_leaf [of "se_lib env" mo P read p v "ms_heap st"] assms
    by (auto simp: onTree_def tagged_def writeBack_def leafLaws_def)
qed

text \<open>Entries of leaves with the values \<open>goal\<close>.\<close>

definition entriesFor :: "gpath set \<Rightarrow> (gpath \<Rightarrow> 'v option) \<Rightarrow> 'v backupEntry list \<Rightarrow> bool" where
  "entriesFor P goal bs = (\<forall>b\<in>set bs. \<exists>p\<in>P. be_gpath b = Some p \<and> be_oldval b = goal p)"

definition restored :: "(gpath \<Rightarrow> 'v option) \<Rightarrow> (gpath \<Rightarrow> 'v option) \<Rightarrow> gpath option set \<Rightarrow> (gpath \<Rightarrow> 'v option)" where
  "restored goal old ps = (\<lambda>q. if Some q \<in> ps then goal q else old q)"

lemma restored_upd: "restored goal (old(p := goal p)) ps = restored goal old (insert (Some p) ps)"
  by (auto simp: restored_def)

lemma replay_loop:
  assumes step: "\<And>b p st. b \<in> set bs \<Longrightarrow> be_gpath b = Some p \<Longrightarrow> p \<in> P \<Longrightarrow> ms_MO st = mo \<Longrightarrow>
      \<exists>h log. f b st = (st\<lparr>ms_heap := h, ms_cfg := log\<rparr>, Ok ()) \<and> read h = (read (ms_heap st))(p := be_oldval b)"
    and "entriesFor P goal bs" "ms_MO st = mo"
    and loop: "loop [] = hret ()" "\<And>b bs. loop (b # bs) = hbind (f b) (\<lambda>u. loop bs)"
  shows "\<exists>h log. loop bs st = (st\<lparr>ms_heap := h, ms_cfg := log\<rparr>, Ok ()) \<and> read h = restored goal (read (ms_heap st)) (be_gpath ` set bs)"
  using step \<open>entriesFor P goal bs\<close> \<open>ms_MO st = mo\<close>
proof (induction bs arbitrary: st)
  case (Cons b bs)
  from Cons.prems(2) obtain p where p: "p \<in> P" "be_gpath b = Some p" "be_oldval b = goal p"
    by (auto simp: entriesFor_def)
  from Cons.prems(1) [OF list.set_intros(1) p(2,1) Cons.prems(3)] obtain h log where
    f: "f b st = (st\<lparr>ms_heap := h, ms_cfg := log\<rparr>, Ok ())" "read h = (read (ms_heap st))(p := goal p)"
    unfolding p(3) by blast
  let ?st = "st\<lparr>ms_heap := h, ms_cfg := log\<rparr>"
  have "\<exists>h' log'. loop bs ?st = (?st\<lparr>ms_heap := h', ms_cfg := log'\<rparr>, Ok ())
      \<and> read h' = restored goal (read (ms_heap ?st)) (be_gpath ` set bs)"
    using Cons.prems by (intro Cons.IH) (auto simp: entriesFor_def)
  then obtain h' log' where l: "loop bs ?st = (?st\<lparr>ms_heap := h', ms_cfg := log'\<rparr>, Ok ())"
      "read h' = restored goal (read (ms_heap ?st)) (be_gpath ` set bs)" by blast
  then show ?case
    using f p(2) by (intro exI [of _ h'] exI [of _ log']) (simp add: loop hbind_def restored_upd)
next
  case Nil
  show ?case by (intro exI [of _ "ms_heap st"] exI [of _ "ms_cfg st"]) (simp add: loop hret_def restored_def)
qed

lemma rollbackEntry_leaf:
  assumes "leafLaws env mo P read" "be_gpath b = Some p" "p \<in> P" "ms_MO st = mo"
  shows "\<exists>h log. rollbackEntry env b st = (st\<lparr>ms_heap := h, ms_cfg := log\<rparr>, Ok ()) \<and> read h = (read (ms_heap st))(p := be_oldval b)"
proof -
  obtain h where wb: "onTree Internal TagOperationFail (writeBack env b) st = (st\<lparr>ms_heap := h\<rparr>, Ok ())"
      "read h = (read (ms_heap st))(p := be_oldval b)"
    using writeBack_leaf [OF assms] by blast
  let ?new = "FindValue (se_lib env) (ms_MO st) (be_gpath b) (ms_heap st)"
  obtain log r where ex: "executeStateConfig env (be_gpath b) ?new (st\<lparr>ms_heap := h\<rparr>) = (st\<lparr>ms_heap := h\<rparr>\<lparr>ms_cfg := log\<rparr>, r)" "no_panic r"
    using executeStateConfig_frame by blast
  show ?thesis
  proof (cases "be_executed b")
    case True
    with wb ex show ?thesis
      by (intro exI [of _ h] exI [of _ log])
        (auto simp: rollbackEntry_def Let_def ignore_def no_panic_def split: sum.splits exn.splits)
  next
    case False
    with wb show ?thesis
      by (intro exI [of _ h] exI [of _ "ms_cfg st"]) (simp add: rollbackEntry_def Let_def)
  qed
qed

lemma doneEntry_leaf:
  assumes "leafLaws env mo P read" "be_gpath b = Some p" "p \<in> P" "ms_MO st = mo"
  shows "\<exists>h log. ignore (onTree Internal TagOperationFail (writeBack env b)) st = (st\<lparr>ms_heap := h, ms_cfg := log\<rparr>, Ok ())
    \<and> read h = (read (ms_heap st))(p := be_oldval b)"
proof -
  obtain h where wb: "onTree Internal TagOperationFail (writeBack env b) st = (st\<lparr>ms_heap := h\<rparr>, Ok ())"
      "read h = (read (ms_heap st))(p := be_oldval b)"
    using writeBack_leaf [OF assms] by blast
  then show ?thesis by (intro exI [of _ h] exI [of _ "ms_cfg st"]) (simp add: ignore_def)
qed

lemma tx_entries: "tx_ok mo read h0 st \<Longrightarrow> touched P st \<Longrightarrow> entriesFor P (read h0) (ms_setBackup st)"
  unfolding tx_ok_def touched_def entriesFor_def paths_def by fastforce

lemma tx_restored: "tx_ok mo read h0 st \<Longrightarrow> restored (read h0) (read (ms_heap st)) (set (paths st)) = read h0"
  by (auto simp: tx_ok_def restored_def)

lemma SetRollback_restores:
  assumes "leafLaws env mo P read" "tx_ok mo read h0 st" "touched P st"
  shows "\<exists>h log. SetRollback env st = (st\<lparr>ms_heap := h, ms_cfg := log, ms_setBackup := []\<rparr>, Ok ()) \<and> read h = read h0"
proof -
  have mo: "ms_MO st = mo" using assms(2) by (simp add: tx_ok_def)
  have "\<exists>h log. rollbackLoop env (ms_setBackup st) st = (st\<lparr>ms_heap := h, ms_cfg := log\<rparr>, Ok ())
      \<and> read h = restored (read h0) (read (ms_heap st)) (be_gpath ` set (ms_setBackup st))"
    by (rule replay_loop [where f = "rollbackEntry env", OF rollbackEntry_leaf [OF assms(1)] tx_entries [OF assms(2,3)] mo]) auto
  then obtain h log where "rollbackLoop env (ms_setBackup st) st = (st\<lparr>ms_heap := h, ms_cfg := log\<rparr>, Ok ())" "read h = read h0"
    using tx_restored [OF assms(2)] by (auto simp: paths_def)
  then show ?thesis
    by (intro exI [of _ h] exI [of _ log]) (simp add: SetRollback_def hbind_def clearBackup_def)
qed

lemma SetDone_restores:
  assumes "leafLaws env mo P read" "tx_ok mo read h0 st" "touched P st" "se_config env \<noteq> None"
  shows "\<exists>h log. SetDone env st = (st\<lparr>ms_heap := h, ms_cfg := log, ms_setBackup := []\<rparr>, Ok ()) \<and> read h = read h0"
proof -
  have mo: "ms_MO st = mo" using assms(2) by (simp add: tx_ok_def)
  have "\<exists>h log. doneLoop env (ms_setBackup st) st = (st\<lparr>ms_heap := h, ms_cfg := log\<rparr>, Ok ())
      \<and> read h = restored (read h0) (read (ms_heap st)) (be_gpath ` set (ms_setBackup st))"
    by (rule replay_loop [where f = "\<lambda>b. ignore (onTree Internal TagOperationFail (writeBack env b))",
          OF doneEntry_leaf [OF assms(1)] tx_entries [OF assms(2,3)] mo]) auto
  then obtain h log where h: "doneLoop env (ms_setBackup st) st = (st\<lparr>ms_heap := h, ms_cfg := log\<rparr>, Ok ())" "read h = read h0"
    using tx_restored [OF assms(2)] by (auto simp: paths_def)
  show ?thesis
  proof (cases "ms_setBackup st = []")
    case True
    then show ?thesis
      using assms(2) by (intro exI [of _ "ms_heap st"] exI [of _ "ms_cfg st"]) (auto simp: SetDone_def tx_ok_def paths_def)
  next
    case False
    with h assms(4) show ?thesis
      by (intro exI [of _ h] exI [of _ log]) (auto simp: SetDone_def hbind_def clearBackup_def)
  qed
qed

section \<open>A device with two leaves\<close>

text \<open>
  The instance for the witnesses: the tree of a device with the leaves \<open>hostname\<close> and \<open>mtu\<close>, a store of references by
  path. A value \<open>bad\<close> is refused by \<open>SetNode\<close>.
\<close>

datatype exRef = RootRef | LeafRef string | ValRef string

type_synonym exStore = "gpath \<Rightarrow> exRef option"

definition leafPath :: "string \<Rightarrow> gpath" where
  "leafPath n = empty_gpath\<lparr>p_Elem := [mkElem n []]\<rparr>"

definition leafEntry :: "string \<Rightarrow> yentry" where
  "leafEntry n = YEntry n [] False LeafEntry []"

definition deviceEntry :: yentry where
  "deviceEntry = YEntry ''device'' [] False DirectoryEntry [(''hostname'', leafEntry ''hostname''), (''mtu'', leafEntry ''mtu'')]"

definition deviceMO :: "exRef MO" where
  "deviceMO = \<lparr>mo_Schema = deviceEntry, mo_Root = RootRef, mo_RootType = TStruct ''Device'' []\<rparr>"

definition deviceModel :: schemaModel where
  "deviceModel = \<lparr>SchemaTree = [(''Device'', deviceEntry)], rootType = TStruct ''Device'' [], supported = []\<rparr>"

definition deviceLib :: "(exStore, exRef) treeLib" where
  "deviceLib = \<lparr>
     yt_GetOrCreateNode = (\<lambda>schema v e h. (h, case map_get (en_Dir schema) (pe_Name e) of
        None \<Rightarrow> Failed ''no schema'' | Some s \<Rightarrow> Ok (LeafRef (pe_Name e), s))),
     yt_DeleteNode = (\<lambda>schema v p h. (case p of Some g \<Rightarrow> h(g := None) | None \<Rightarrow> h, Ok ())),
     yt_GetNode = (\<lambda>schema v p h. Ok (case p of Some g \<Rightarrow> (case h g of Some r \<Rightarrow> [r] | None \<Rightarrow> []) | None \<Rightarrow> [RootRef])),
     yt_SetNode = (\<lambda>schema v p tv h. case (p, tv) of
        (Some g, Some (OtherVal t)) \<Rightarrow> if t = ''bad'' then (h, Failed ''bad value'') else (h(g := Some (ValRef t)), Ok ())
      | _ \<Rightarrow> (h, Failed ''bad value'')),
     yt_StringToType = (\<lambda>t v. Ok (ValRef v)),
     yd_ValScalarNew = (\<lambda>t v. Ok (ValRef v)),
     yd_ValSliceNew = (\<lambda>t. Ok RootRef),
     yd_ValSliceAppend = (\<lambda>s v. Ok v),
     yd_ValChildSet = (\<lambda>v n w h. (h(leafPath n := w), Ok ())),
     yg_EncodeTypedValue = (\<lambda>v. case v of ValRef t \<Rightarrow> Ok (Some (OtherVal t)) | _ \<Rightarrow> Failed ''no value''),
     rf_Set = (\<lambda>v w h. Some h),
     rf_TypeOf = (\<lambda>v h. Some (TPtr (TScalar ''string''))),
     rf_isGoStruct = (\<lambda>v h. v = RootRef),
     rf_bool = (\<lambda>b. ValRef (show_bool b)),
     rf_string = (\<lambda>t. ValRef t),
     un_Unmarshal = (\<lambda>t v h. (h, Ok ())),
     js_Unmarshal = (\<lambda>t. Ok (JObject [(''hostname'', JString t), (''mtu'', JNumber ''1500'')])),
     js_Sprint = id,
     en_FindChild = (\<lambda>e n. map_get (en_Dir e) n),
     en_Type = (\<lambda>e. Some (YangType Ystring [])),
     rf_New = (\<lambda>t h. (h, RootRef)),
     yd_Parse = (\<lambda>t. None),
     yd_Convert = (\<lambda>t v h. (h, Ok ()))\<rparr>"

definition leafVal :: "exRef option \<Rightarrow> gval" where
  "leafVal r = VPtr (TScalar ''string'') (case r of Some (ValRef t) \<Rightarrow> Some (VScalar ''string'' t) | _ \<Rightarrow> None)"

fun deviceVal :: "exStore \<Rightarrow> exRef \<Rightarrow> gval" where
  "deviceVal h RootRef = VPtr (TStruct ''Device'' []) (Some (VStruct ''Device''
     [(''Hostname'', Some ''hostname'', leafVal (h (leafPath ''hostname''))), (''Mtu'', Some ''mtu'', leafVal (h (leafPath ''mtu'')))]))"
| "deviceVal h r = leafVal (Some r)"

definition deviceEnv :: "stateConfig option \<Rightarrow> (exStore, exRef) setEnv" where
  "deviceEnv sc = \<lparr>se_lib = deviceLib, se_vals = exVals, se_model = deviceModel, se_clone = id, se_snapshot = deviceVal,
     se_at = (\<lambda>h v x. case ToGNMIPath x of Inr p \<Rightarrow> h p | Inl e \<Rightarrow> None),
     se_isScalar = (\<lambda>v. True), se_enc = (\<lambda>v. case v of VPtr _ (Some (VScalar _ t)) \<Rightarrow> Some t | _ \<Rightarrow> None), se_config = sc\<rparr>"

definition leafPaths :: "gpath set" where
  "leafPaths = {leafPath ''hostname'', leafPath ''mtu''}"

lemmas device_defs = deviceLib_def deviceEntry_def leafEntry_def deviceMO_def deviceEnv_def deviceModel_def leafPath_def mkElem_def
  empty_gpath_def

lemma device_nodes: "leafNodes deviceLib deviceMO leafPaths (\<lambda>h. h)"
proof -
  have "\<exists>h1 parent target yt. GetOrCreateNode deviceLib deviceMO (Some p) h = (h1, Ok (parent, target))
        \<and> \<not> IsDir (tn_Schema target) \<and> en_Type deviceLib (tn_Schema target) = Some yt \<and> yt_Kind yt \<noteq> Yempty \<and> h1 = h
        \<and> (\<forall>v. \<exists>h2. yd_ValChildSet deviceLib (tn_Data parent) (en_Name (tn_Schema target)) (Some v) h1 = (h2, Ok ())
              \<and> h2 = h(p := Some v))" if "p \<in> leafPaths" for p h
    using that
    by (auto simp: leafPaths_def GetOrCreateNode_def device_defs heap_simps Let_def IsDir_def)
  then show ?thesis by (simp add: leafNodes_def)
qed

text \<open>Every leaf of the device is found, set or not, with the reference it holds.\<close>

lemma device_findAll:
  assumes "n = ''hostname'' \<or> n = ''mtu''"
  shows "findAllData exVals \<lparr>dp_Value = \<lparr>rv_val = deviceVal h RootRef, rv_RO = False\<rparr>, dp_Key = [[]]\<rparr> [mkElem n []]
    = [\<lparr>dp_Value = \<lparr>rv_val = leafVal (h (leafPath n)), rv_RO = False\<rparr>, dp_Key = [[], n]\<rparr>]"
  using assms
  by (auto simp: findAllData.simps(2) findChildren_def elemKey_def mkElem_def exVals_def leafVal_def appendCopy_def split: option.splits)

lemma device_find:
  assumes "n = ''hostname'' \<or> n = ''mtu''"
  shows "Find exVals deviceModel (Some (deviceVal h RootRef)) (Some (leafPath n)) [] = ([\<lparr>d_Value = Some (leafVal (h (leafPath n))), d_Path = ''/'' @ n\<rparr>], True)"
proof -
  have "pathInSchema deviceEntry [mkElem n []]"
    using assms by (auto simp: deviceEntry_def mkElem_def keysKnown_def leafEntry_def)
  moreover have "ToXPath (Some empty_gpath) = []" by code_simp
  ultimately show ?thesis
    using device_findAll [OF assms, of h]
    by (simp add: Find_def deviceModel_def leafPath_def [of n] CanInterface_def Interface_def leafVal_def foundPath_def)
qed

lemma device_path: "n = ''hostname'' \<or> n = ''mtu'' \<Longrightarrow> ToGNMIPath (''/'' @ n) = Ok (leafPath n)"
  by (elim disjE) (simp_all, code_simp+)

lemma device_laws: "leafLaws (deviceEnv sc) deviceMO leafPaths (\<lambda>h. h)"
proof -
  have "leafChanges deviceLib deviceMO leafPaths (\<lambda>h. h)"
    by (auto simp: leafChanges_def deviceLib_def split: typedValue.splits option.splits)
  moreover have "leafSearch (deviceEnv sc) deviceMO leafPaths (\<lambda>h. h)"
    using device_find by (auto simp: leafSearch_def deviceEnv_def leafPaths_def deviceMO_def)
  moreover have "noKeys deviceMO leafPaths"
    by (auto simp: noKeys_def leafPaths_def parentSchema_def device_defs)
  ultimately show ?thesis using device_nodes by (simp add: leafLaws_def deviceEnv_def)
qed

section \<open>Properties\<close>

text \<open>C8: A change that is passed on to the external system makes one call of \<open>UpdateStart\<close> first and one of \<open>UpdateEnd\<close>
  last, also after an error. In between it deletes the nodes of the old value that are gone and then replaces or creates
  the nodes that are there now, in order, up to the first call that fails; a success means that all were made.\<close>

theorem stateConfig_calls:
  assumes "se_config env = Some sc" "curList env gpath oldval st = Ok curlist" "newList env gpath st = Ok newlist"
  shows "\<exists>called r. prefix called (planned env curlist newlist)
    \<and> executeStateConfig env gpath oldval st = (st\<lparr>ms_cfg := ms_cfg st @ CfgStart # called @ [CfgEnd]\<rparr>, r)
    \<and> (r = Ok () \<longrightarrow> called = planned env curlist newlist) \<and> no_panic r"
  using executeStateConfig_log [OF assms] .

definition deviceState :: "(exStore, exRef) mstate" where
  "deviceState = \<lparr>ms_heap = (\<lambda>p. if p = leafPath ''hostname'' then Some (ValRef ''r0'') else None), ms_MO = deviceMO,
     ms_setBackup = [], ms_setSeq = 0, ms_cfg = []\<rparr>"

text \<open>A system that refuses to create.\<close>

definition noCreate :: stateConfig where
  "noCreate log ev = (case ev of CfgCreate _ _ \<Rightarrow> Some ''refused'' | _ \<Rightarrow> None)"

lemma device_cur: "curList (deviceEnv sc) g (Some (ValRef t)) st = Ok []"
  by (simp add: curList_def deviceEnv_def ListAll_def Find_def deviceModel_def leafVal_def)

lemma device_new:
  assumes "ms_MO st = deviceMO" "n = ''hostname'' \<or> n = ''mtu''"
  shows "newList (deviceEnv sc) (Some (leafPath n)) st = Ok [\<lparr>d_Value = Some (leafVal (ms_heap st (leafPath n))), d_Path = ''/'' @ n\<rparr>]"
  using device_find [OF assms(2), of "ms_heap st"] assms(1)
  by (simp add: newList_def deviceEnv_def ListAll_def deviceMO_def leafVal_def)

theorem stateConfig_calls_witness:
  "\<exists>called r. executeStateConfig (deviceEnv (Some noCreate)) (Some (leafPath ''hostname'')) (Some (ValRef ''old'')) deviceState
      = (deviceState\<lparr>ms_cfg := CfgStart # called @ [CfgEnd]\<rparr>, r) \<and> prefix called [CfgCreate ''/hostname'' ''r0'']"
proof -
  let ?env = "deviceEnv (Some noCreate)"
  have cfg: "se_config ?env = Some noCreate" by (simp add: deviceEnv_def)
  have new: "newList ?env (Some (leafPath ''hostname'')) deviceState
      = Ok [\<lparr>d_Value = Some (leafVal (Some (ValRef ''r0''))), d_Path = ''/hostname''\<rparr>]"
    using device_new [of deviceState "''hostname''" "Some noCreate"] by (simp add: deviceState_def)
  have "planned ?env [] [\<lparr>d_Value = Some (leafVal (Some (ValRef ''r0''))), d_Path = ''/hostname''\<rparr>] = [CfgCreate ''/hostname'' ''r0'']"
    by (simp add: planned_def nodeEvent_def GetValueString_def deviceEnv_def leafVal_def)
  moreover have "ms_cfg deviceState = []" by (simp add: deviceState_def)
  ultimately show ?thesis using stateConfig_calls [OF cfg device_cur new] by force
qed



lemma rollbackLoop_runs:
  assumes "leafLaws env (ms_MO st) P read" "be_gpath ` set bs \<subseteq> Some ` P"
  shows "\<exists>h log. rollbackLoop env bs st = (st\<lparr>ms_heap := h, ms_cfg := log\<rparr>, Ok ())"
  using assms
proof (induction bs arbitrary: st)
  case (Cons b bs)
  then obtain p where p: "be_gpath b = Some p" "p \<in> P" by auto
  from rollbackEntry_leaf [OF Cons.prems(1) p refl] obtain h log where
    b: "rollbackEntry env b st = (st\<lparr>ms_heap := h, ms_cfg := log\<rparr>, Ok ())" by blast
  from Cons.IH [of "st\<lparr>ms_heap := h, ms_cfg := log\<rparr>"] Cons.prems obtain h' log' where
    "rollbackLoop env bs (st\<lparr>ms_heap := h, ms_cfg := log\<rparr>) = (st\<lparr>ms_heap := h, ms_cfg := log\<rparr>\<lparr>ms_heap := h', ms_cfg := log'\<rparr>, Ok ())"
    by auto
  with b show ?case by (intro exI [of _ h'] exI [of _ log']) (simp add: hbind_def)
next
  case Nil
  show ?case by (intro exI [of _ "ms_heap st"] exI [of _ "ms_cfg st"]) (simp add: hret_def)
qed

lemma rollbackLoop_append: "rollbackLoop env (xs @ ys) = hbind (rollbackLoop env xs) (\<lambda>u. rollbackLoop env ys)"
  by (induction xs) (auto simp: hbind_assoc)

text \<open>The backup is replayed in the order in which it was made, so of two entries for one leaf the later wins: a leaf
  that one request changes twice does not get its original value back, but the one between the two changes.\<close>

lemma rollback_last_wins:
  assumes "leafLaws env (ms_MO st) P read" "ms_setBackup st = bs @ [b]" "be_gpath b = Some p"
    and "be_gpath ` set (ms_setBackup st) \<subseteq> Some ` P"
  shows "\<exists>h log. SetRollback env st = (st\<lparr>ms_heap := h, ms_cfg := log, ms_setBackup := []\<rparr>, Ok ()) \<and> read h p = be_oldval b"
proof -
  obtain h log where bs: "rollbackLoop env bs st = (st\<lparr>ms_heap := h, ms_cfg := log\<rparr>, Ok ())"
    using rollbackLoop_runs [OF assms(1), of bs] assms(2,4) by auto
  have "p \<in> P" using assms(2-4) by auto
  then obtain h' log' where
    "rollbackEntry env b (st\<lparr>ms_heap := h, ms_cfg := log\<rparr>) = (st\<lparr>ms_heap := h, ms_cfg := log\<rparr>\<lparr>ms_heap := h', ms_cfg := log'\<rparr>, Ok ())"
    "read h' = (read h)(p := be_oldval b)"
    using rollbackEntry_leaf [of env "ms_MO st" P read b p "st\<lparr>ms_heap := h, ms_cfg := log\<rparr>"] assms(1,3) by auto
  with bs assms(2) show ?thesis
    by (intro exI [of _ h'] exI [of _ log']) (simp add: SetRollback_def rollbackLoop_append hbind_def hret_def clearBackup_def)
qed

definition twiceState :: "(exStore, exRef) mstate" where
  "twiceState = deviceState\<lparr>ms_setBackup :=
     [\<lparr>be_optype = OpReplace, be_xpath = ''/hostname'', be_gpath = Some (leafPath ''hostname''), be_oldval = Some (ValRef ''r0''), be_executed = True\<rparr>,
      \<lparr>be_optype = OpUpdate, be_xpath = ''/hostname'', be_gpath = Some (leafPath ''hostname''), be_oldval = Some (ValRef ''r1''), be_executed = True\<rparr>]\<rparr>"

lemma rollback_last_wins_witness:
  "\<exists>h log. SetRollback (deviceEnv None) twiceState = (twiceState\<lparr>ms_heap := h, ms_cfg := log, ms_setBackup := []\<rparr>, Ok ())
    \<and> h (leafPath ''hostname'') = Some (ValRef ''r1'')"
proof -
  have laws: "leafLaws (deviceEnv None) (ms_MO twiceState) leafPaths (\<lambda>h. h)"
    using device_laws by (simp add: twiceState_def deviceState_def)
  let ?b1 = "\<lparr>be_optype = OpReplace, be_xpath = ''/hostname'', be_gpath = Some (leafPath ''hostname''), be_oldval = Some (ValRef ''r0''), be_executed = True\<rparr>"
  let ?b2 = "\<lparr>be_optype = OpUpdate, be_xpath = ''/hostname'', be_gpath = Some (leafPath ''hostname''), be_oldval = Some (ValRef ''r1''), be_executed = True\<rparr>"
  have "ms_setBackup twiceState = [?b1] @ [?b2]" by (simp add: twiceState_def)
  from rollback_last_wins [OF laws this] show ?thesis by (simp add: leafPaths_def twiceState_def)
qed

end
