(* ===== verification/Server.thy ===== *)
theory Server
  imports SetLaws Responses
begin

text \<open>
  The Set and Capabilities calls and the options of the server, of \<open>gnmi/server/server.go\<close>. The Get call is in
  \<open>Responses\<close>, the Subscribe call in \<open>SubSession\<close>.
\<close>

section \<open>Options\<close>

datatype 'ss serverOption =
    Startup Encoding string
  | DisableSetRPC
  | Callback "stateConfig option" "'ss option"
  | ServerAliases "(string, string) gomap"

fun hasStartup :: "'ss serverOption list \<Rightarrow> (Encoding \<times> string) option" where
  "hasStartup [] = None"
| "hasStartup (Startup encoding text # opts) = Some (encoding, text)"
| "hasStartup (_ # opts) = hasStartup opts"

fun hasDisableSetRPC :: "'ss serverOption list \<Rightarrow> bool" where
  "hasDisableSetRPC [] = False"
| "hasDisableSetRPC (DisableSetRPC # opts) = True"
| "hasDisableSetRPC (_ # opts) = hasDisableSetRPC opts"

fun hasSetCallback :: "'ss serverOption list \<Rightarrow> stateConfig option" where
  "hasSetCallback [] = None"
| "hasSetCallback (Callback sc ss # opts) = sc"
| "hasSetCallback (_ # opts) = hasSetCallback opts"

fun hasGetCallback :: "'ss serverOption list \<Rightarrow> 'ss option" where
  "hasGetCallback [] = None"
| "hasGetCallback (Callback sc ss # opts) = ss"
| "hasGetCallback (_ # opts) = hasGetCallback opts"

fun hasAliases :: "'ss serverOption list \<Rightarrow> (string, string) gomap" where
  "hasAliases [] = []"
| "hasAliases (ServerAliases a # opts) = a"
| "hasAliases (_ # opts) = hasAliases opts"

section \<open>The server\<close>

record ('h, 'v, 'ss) server =
  sv_env :: "('h, 'v) setEnv"
  sv_model :: "('h, 'v) mstate"
  sv_sync :: "'ss option"
  sv_aliases :: "(string, string) gomap"
  sv_reqSeq :: "64 word"
  sv_disabledSet :: bool

text \<open>
  \<open>schema\<close> is the generated \<open>Schema()\<close> function, which gives the modelled object or an error; \<open>env\<close> has the library and no
  interface to the external system yet.
\<close>

definition NewCustomServer ::
    "('h, 'v) setEnv \<Rightarrow> ((string, DataAndPath) gomap \<Rightarrow> (string, DataAndPath) gomap) \<Rightarrow> ('h \<Rightarrow> 'h \<times> (string + 'v MO)) \<Rightarrow> 'h
     \<Rightarrow> 'ss serverOption list \<Rightarrow> 'h \<times> (serr, ('h, 'v, 'ss) server) result" where
  "NewCustomServer env order schema h opts =
     (case schema h of
        (h', Inl e) \<Rightarrow> (h', Failed (Tagged Internal TagOperationFail))
      | (h', Inr mo) \<Rightarrow>
          (let env' = env\<lparr>se_config := hasSetCallback opts\<rparr>;
               m = \<lparr>ms_heap = h', ms_MO = mo, ms_setBackup = [], ms_setSeq = 0, ms_cfg = []\<rparr>;
               mk = (\<lambda>m'. \<lparr>sv_env = env', sv_model = m', sv_sync = hasGetCallback opts, sv_aliases = hasAliases opts,
                           sv_reqSeq = 0, sv_disabledSet = hasDisableSetRPC opts\<rparr>) in
           case hasStartup opts of
             None \<Rightarrow> (h', Ok (mk m))
           | Some (encoding, text) \<Rightarrow>
               (case Load env' order (Some text) encoding True m of
                  (m', Inl e) \<Rightarrow> (ms_heap m', Inl e)
                | (m', Inr u) \<Rightarrow> (ms_heap m', Ok (mk m')))))"

definition getReqSequence :: "('h, 'v, 'ss) server \<Rightarrow> ('h, 'v, 'ss) server \<times> 64 word" where
  "getReqSequence s = (s\<lparr>sv_reqSeq := sv_reqSeq s + 1\<rparr>, sv_reqSeq s + 1)"

section \<open>Capabilities\<close>

record capabilityResponse =
  cr_SupportedModels :: "modelData list"
  cr_SupportedEncodings :: "gEncoding list"
  cr_GNMIVersion :: string

text \<open>
  \<open>getGNMIServiceVersion\<close> unpacks the descriptor that the protocol compiler has generated and reads an option of it, whose
  dynamic type may be another than a string pointer. The functions of \<open>gzip\<close>, \<open>ioutil\<close> and \<open>proto\<close> are the fields of a
  record.
\<close>

datatype extension = StringExt "string option" | OtherExt

record 'd descriptorLib =
  gz_NewReader :: "string \<Rightarrow> string + string"
  io_ReadAll :: "string \<Rightarrow> string + string"
  pb_Unmarshal :: "string \<Rightarrow> string + 'd"
  pb_GetExtension :: "'d \<Rightarrow> string + extension"

definition getGNMIServiceVersion :: "'d descriptorLib \<Rightarrow> string \<Rightarrow> (string, string option) result" where
  "getGNMIServiceVersion lib gzB =
     (case gz_NewReader lib gzB of
        Inl err \<Rightarrow> Failed (''error in initializing gzip reader: '' @ err)
      | Inr r \<Rightarrow>
          (case io_ReadAll lib r of
             Inl err \<Rightarrow> Failed (''error in reading gzip data: '' @ err)
           | Inr b \<Rightarrow>
               (case pb_Unmarshal lib b of
                  Inl err \<Rightarrow> Failed (''error in unmarshaling proto: '' @ err)
                | Inr desc \<Rightarrow>
                    (case pb_GetExtension lib desc of
                       Inl err \<Rightarrow> Failed (''error in getting version from proto extension: '' @ err)
                     | Inr (StringExt ver) \<Rightarrow> Ok ver
                     | Inr OtherExt \<Rightarrow> Panics TypeAssertion))))"

definition capabilities :: "(string, string option) result \<Rightarrow> ('h, 'v, 'ss) server \<Rightarrow> (serr, capabilityResponse) result" where
  "capabilities version s =
     (case version of
        Inl (Err e) \<Rightarrow> Failed (Tagged Internal TagOperationFail)
      | Inl (Panic p) \<Rightarrow> Panics p
      | Inr None \<Rightarrow> Panics NilDereference
      | Inr (Some v) \<Rightarrow> Ok \<lparr>cr_SupportedModels = supported (se_model (sv_env s)), cr_SupportedEncodings = supportedEncodings,
                     cr_GNMIVersion = v\<rparr>)"

text \<open>The calls of the service: a request number, then the call.\<close>

definition Capabilities ::
    "'d descriptorLib \<Rightarrow> string \<Rightarrow> ('h, 'v, 'ss) server \<Rightarrow> ('h, 'v, 'ss) server \<times> (serr, capabilityResponse) result" where
  "Capabilities lib descriptor s =
     (case getReqSequence s of (s', seq) \<Rightarrow> (s', capabilities (getGNMIServiceVersion lib descriptor) s'))"

definition Get_rpc ::
    "'tv modelEnv \<Rightarrow> (nat \<Rightarrow> int) \<Rightarrow> (gpath option \<Rightarrow> gpath option list \<Rightarrow> gval option \<Rightarrow> (serr, gval option) result)
     \<Rightarrow> gval option \<Rightarrow> getRequest \<Rightarrow> ('h, 'v, 'ss) server \<Rightarrow> ('h, 'v, 'ss) server \<times> (serr, 'tv notification list) result" where
  "Get_rpc env clock sync root req s =
     (case getReqSequence s of (s', seq) \<Rightarrow> (s', get env clock sync root req))"

section \<open>Set\<close>

record setRequest =
  sr_Prefix :: "gpath option"
  sr_Delete :: "gpath option list"
  sr_Replace :: "(gpath option \<times> typedValue option) list"
  sr_Update :: "(gpath option \<times> typedValue option) list"

record setResponse =
  sp_Prefix :: "gpath option"
  sp_Response :: "updateResult list"

text \<open>
  One of the three loops of \<open>set\<close>: the variable \<open>err\<close> and the results so far. After an error the remaining operations are
  reported as aborted.
\<close>

fun setLoop ::
    "setOperation \<Rightarrow> ('x \<Rightarrow> gpath option) \<Rightarrow> ('x \<Rightarrow> ('h, 'v, unit) setM) \<Rightarrow> 'x list \<Rightarrow> serr option \<times> updateResult list
     \<Rightarrow> ('h, 'v, serr option \<times> updateResult list) setM" where
  "setLoop opr path f [] (err, result) st = (st, Ok (err, result))"
| "setLoop opr path f (x # xs) (err, result) st =
     (if err \<noteq> None then setLoop opr path f xs (err, result @ [buildUpdateResultAborted opr (path x)]) st
      else
        (case f x st of
           (st', Inl (Panic p)) \<Rightarrow> (st', Panics p)
         | (st', Inl (Err e)) \<Rightarrow> setLoop opr path f xs (Some e, result @ [buildUpdateResult opr (path x) (Some e)]) st'
         | (st', Inr u) \<Rightarrow> setLoop opr path f xs (None, result @ [buildUpdateResult opr (path x) None]) st'))"

definition set_deletes :: "('h, 'v) setEnv \<Rightarrow> setRequest \<Rightarrow> serr option \<times> updateResult list \<Rightarrow> ('h, 'v, serr option \<times> updateResult list) setM" where
  "set_deletes env req = setLoop OpDelete id (SetDelete env (sr_Prefix req)) (sr_Delete req)"

definition set_replaces :: "('h, 'v) setEnv \<Rightarrow> setRequest \<Rightarrow> serr option \<times> updateResult list \<Rightarrow> ('h, 'v, serr option \<times> updateResult list) setM" where
  "set_replaces env req = setLoop OpReplace fst (\<lambda>(path, val). SetReplace env (sr_Prefix req) path val) (sr_Replace req)"

definition set_updates :: "('h, 'v) setEnv \<Rightarrow> setRequest \<Rightarrow> serr option \<times> updateResult list \<Rightarrow> ('h, 'v, serr option \<times> updateResult list) setM" where
  "set_updates env req = setLoop OpUpdate fst (\<lambda>(path, val). SetUpdate env (sr_Prefix req) path val) (sr_Update req)"

definition set_operations :: "('h, 'v) setEnv \<Rightarrow> setRequest \<Rightarrow> ('h, 'v, serr option \<times> updateResult list) setM" where
  "set_operations env req =
     hbind (set_deletes env req (None, [])) (\<lambda>acc. hbind (set_replaces env req acc) (set_updates env req))"

text \<open>The response and the error are both returned.\<close>

definition set_call :: "('h, 'v) setEnv \<Rightarrow> setRequest \<Rightarrow> ('h, 'v, setResponse \<times> serr option) setM" where
  "set_call env req st =
     hbind (set_operations env req) (\<lambda>(err, result).
     hbind (if err \<noteq> None then SetRollback env else hret ()) (\<lambda>u.
     hbind (SetDone env) (\<lambda>u. hret (\<lparr>sp_Prefix = sr_Prefix req, sp_Response = result\<rparr>, err)))) (SetInit st)"

definition Set_rpc ::
    "setRequest \<Rightarrow> ('h, 'v, 'ss) server \<Rightarrow> ('h, 'v, 'ss) server \<times> (serr, setResponse option \<times> serr option) result" where
  "Set_rpc req s =
     (let s1 = fst (getReqSequence s) in
      if sv_disabledSet s then (s1, Ok (None, Some (Tagged Unimplemented TagNotSupport)))
      else
        (case set_call (sv_env s) req (sv_model s) of
           (m, Inl (Err e)) \<Rightarrow> (s1\<lparr>sv_model := m\<rparr>, Failed e)
         | (m, Inl (Panic p)) \<Rightarrow> (s1\<lparr>sv_model := m\<rparr>, Panics p)
         | (m, Inr (resp, err)) \<Rightarrow> (s1\<lparr>sv_model := m\<rparr>, Ok (Some resp, err))))"

text \<open>\<open>InternalUpdate\<close>: a function of the caller on the root.\<close>

definition InternalUpdate :: "('v \<Rightarrow> ('h, 'e, unit) actM) \<Rightarrow> ('h, 'v, 'ss) server \<Rightarrow> ('h, 'v, 'ss) server \<times> ('e, unit) result" where
  "InternalUpdate f s =
     (case f (mo_Root (ms_MO (sv_model s))) (ms_heap (sv_model s)) of
        (h, r) \<Rightarrow> (s\<lparr>sv_model := (sv_model s)\<lparr>ms_heap := h\<rparr>\<rparr>, r))"

section \<open>Facts\<close>

text \<open>The results of a list of operations: successes, then possibly one failure and aborted operations.\<close>

definition resultsOf :: "(setOperation \<times> gpath option) list \<Rightarrow> serr option \<Rightarrow> updateResult list \<Rightarrow> bool" where
  "resultsOf items err rs =
     (map (\<lambda>r. (ur_Op r, ur_Path r)) rs = items
      \<and> (case err of
           None \<Rightarrow> map ur_Message rs = replicate (length items) NoMessage
         | Some e \<Rightarrow> \<exists>k < length items. map ur_Message rs =
             replicate k NoMessage @ ErrorMessage e # replicate (length items - k - 1) AbortedMessage))"

lemma resultsOf_aborted:
  assumes "resultsOf items (Some e) rs"
  shows "resultsOf (items @ [(opr, p)]) (Some e) (rs @ [buildUpdateResultAborted opr p])"
proof -
  from assms obtain k where k: "k < length items"
      "map ur_Message rs = replicate k NoMessage @ ErrorMessage e # replicate (length items - k - 1) AbortedMessage"
    by (auto simp: resultsOf_def)
  have "map ur_Message (rs @ [buildUpdateResultAborted opr p]) =
      replicate k NoMessage @ ErrorMessage e # replicate (length (items @ [(opr, p)]) - k - 1) AbortedMessage"
    using k by (simp add: buildUpdateResultAborted_def Suc_diff_Suc replicate_append_same flip: replicate_Suc)
  with k assms show ?thesis by (auto simp: resultsOf_def buildUpdateResultAborted_def intro!: exI [of _ k])
qed

lemma resultsOf_result:
  assumes "resultsOf items None rs"
  shows "resultsOf (items @ [(opr, p)]) err (rs @ [buildUpdateResult opr p err])"
  using assms by (cases err) (auto simp: resultsOf_def buildUpdateResult_def newUpdateResultError_def replicate_append_same intro!: exI [of _ "length items"])

lemma setLoop_results:
  "resultsOf items err rs \<Longrightarrow> setLoop opr path f xs (err, rs) st = (st', Ok (err', rs')) \<Longrightarrow>
   resultsOf (items @ map (\<lambda>x. (opr, path x)) xs) err' rs'"
proof (induction xs arbitrary: items err rs st)
  case (Cons x xs)
  let ?it = "items @ [(opr, path x)]"
  have step: "resultsOf (?it @ map (\<lambda>x. (opr, path x)) xs) err' rs'"
    if "resultsOf ?it e r" "setLoop opr path f xs (e, r) s = (st', Ok (err', rs'))" for e r s
    using Cons.IH [OF that] .
  show ?case
  proof (cases err)
    case (Some e)
    with step [OF resultsOf_aborted [of items e rs opr "path x"]] Cons.prems show ?thesis by simp
  next
    case None
    note res = resultsOf_result [OF Cons.prems(1) [unfolded None], of opr "path x"]
    from None Cons.prems(2) show ?thesis
      by (cases "f x st") (auto split: sum.splits exn.splits dest: step [OF res])
  qed
qed simp

lemma setLoop_keeps:
  assumes "\<And>x st. x \<in> set xs \<Longrightarrow> keeps mo P read h0 st (fst (f x st))"
  shows "keeps mo P read h0 st (fst (setLoop opr path f xs acc st))"
  using assms
proof (induction opr path f xs acc st rule: setLoop.induct)
  case (2 opr path f x xs err result st)
  have k: "keeps mo P read h0 st (fst (f x st))" using 2(4) by simp
  show ?case
    using 2 k by (cases "f x st") (auto split: sum.splits exn.splits intro: keeps_trans)
qed simp

lemma hbind_split:
  "hbind m f st = (st', Ok y) \<longleftrightarrow> (\<exists>st1 x. m st = (st1, Ok x) \<and> f x st1 = (st', Ok y))"
  by (auto simp: hbind_def split: prod.splits sum.splits)

text \<open>The operations of a request in the order they are carried out.\<close>

definition requested :: "setRequest \<Rightarrow> (setOperation \<times> gpath option) list" where
  "requested req =
     map (Pair OpDelete) (sr_Delete req) @ map (\<lambda>r. (OpReplace, fst r)) (sr_Replace req) @ map (\<lambda>u. (OpUpdate, fst u)) (sr_Update req)"

lemma set_operations_results:
  assumes "set_operations env req st = (st', Ok (err, rs))"
  shows "resultsOf (requested req) err rs"
proof -
  from assms obtain st1 e1 rs1 st2 e2 rs2 where
    d: "set_deletes env req (None, []) st = (st1, Ok (e1, rs1))" and
    r: "set_replaces env req (e1, rs1) st1 = (st2, Ok (e2, rs2))" and
    u: "set_updates env req (e2, rs2) st2 = (st', Ok (err, rs))"
    by (fastforce simp: set_operations_def hbind_split)
  have "resultsOf [] None []" by (simp add: resultsOf_def)
  from setLoop_results [OF this d [unfolded set_deletes_def]]
  have 1: "resultsOf (map (Pair OpDelete) (sr_Delete req)) e1 rs1" by simp
  from setLoop_results [OF 1 r [unfolded set_replaces_def]]
  have 2: "resultsOf (map (Pair OpDelete) (sr_Delete req) @ map (\<lambda>r. (OpReplace, fst r)) (sr_Replace req)) e2 rs2" .
  from setLoop_results [OF 2 u [unfolded set_updates_def]] show ?thesis by (simp add: requested_def)
qed

text \<open>The values of a request are no JSON documents.\<close>

definition scalarRequest :: "setRequest \<Rightarrow> bool" where
  "scalarRequest req = list_all (\<lambda>r. scalarVal (snd r)) (sr_Replace req @ sr_Update req)"

lemma set_operations_keeps:
  assumes laws: "leafLaws env mo P read" and sc: "scalarRequest req"
  shows "keeps mo P read h0 st (fst (set_operations env req st))"
proof -
  have d: "keeps mo P read h0 st (fst (set_deletes env req acc st))" for acc st
    unfolding set_deletes_def by (rule setLoop_keeps) (rule SetDelete_keeps [OF laws])
  have tv: "scalarVal v" if "(p, v) \<in> set (sr_Replace req) \<union> set (sr_Update req)" for p v
    using sc that by (force simp: scalarRequest_def list_all_iff)
  have r: "keeps mo P read h0 st (fst (set_replaces env req acc st))" for acc st
    unfolding set_replaces_def by (intro setLoop_keeps) (auto intro!: SetReplace_keeps [OF laws] intro: tv)
  have u: "keeps mo P read h0 st (fst (set_updates env req acc st))" for acc st
    unfolding set_updates_def by (intro setLoop_keeps) (auto intro!: SetUpdate_keeps [OF laws] intro: tv)
  have bind: "keeps mo P read h0 st (fst (hbind m f st))"
    if "\<And>st. keeps mo P read h0 st (fst (m st))" "\<And>x st. keeps mo P read h0 st (fst (f x st))" for m f st
    using that(1) [of st] that(2) by (cases "m st") (auto simp: hbind_def split: sum.splits intro: keeps_trans)
  show ?thesis unfolding set_operations_def by (intro bind d r u)
qed

lemma tx_ok_SetInit: "ms_MO st = mo \<Longrightarrow> tx_ok mo read (ms_heap st) (SetInit st)"
  by (simp add: tx_ok_def SetInit_def paths_def)

lemma set_call_restores:
  assumes laws: "leafLaws env (ms_MO st) P read" and "scalarRequest req"
    and ops: "set_operations env req (SetInit st) = (st1, Ok (err, rs))" and t: "touched P st1"
    and undo: "err \<noteq> None \<or> se_config env \<noteq> None"
  shows "\<exists>st'. set_call env req st = (st', Ok (\<lparr>sp_Prefix = sr_Prefix req, sp_Response = rs\<rparr>, err)) \<and> ms_MO st' = ms_MO st
    \<and> read (ms_heap st') = read (ms_heap st)"
proof -
  have tx: "tx_ok (ms_MO st) read (ms_heap st) st1"
    using set_operations_keeps [OF laws assms(2), of "ms_heap st" "SetInit st"] tx_ok_SetInit [of st] t ops
    by (simp add: keeps_def)
  have mo: "ms_MO st1 = ms_MO st" using tx by (simp add: tx_ok_def)
  show ?thesis
  proof (cases err)
    case (Some e)
    obtain h log where rb: "SetRollback env st1 = (st1\<lparr>ms_heap := h, ms_cfg := log, ms_setBackup := []\<rparr>, Ok ())" "read h = read (ms_heap st)"
      using SetRollback_restores [OF laws tx t] by blast
    have "set_call env req st = (st1\<lparr>ms_heap := h, ms_cfg := log, ms_setBackup := []\<rparr>, Ok (\<lparr>sp_Prefix = sr_Prefix req, sp_Response = rs\<rparr>, err))"
      using ops rb(1) Some by (simp add: set_call_def hbind_def SetDone_def hret_def)
    with rb mo show ?thesis by auto
  next
    case None
    with undo have "se_config env \<noteq> None" by simp
    from SetDone_restores [OF laws tx t this] obtain h log where
      dn: "SetDone env st1 = (st1\<lparr>ms_heap := h, ms_cfg := log, ms_setBackup := []\<rparr>, Ok ())" "read h = read (ms_heap st)" by blast
    have "set_call env req st = (st1\<lparr>ms_heap := h, ms_cfg := log, ms_setBackup := []\<rparr>, Ok (\<lparr>sp_Prefix = sr_Prefix req, sp_Response = rs\<rparr>, err))"
      using ops dn(1) None by (simp add: set_call_def hbind_def hret_def)
    with dn mo show ?thesis by auto
  qed
qed

section \<open>Properties\<close>

text \<open>C7: A Set call answers every operation of the request once, deletes before replaces before updates. All succeed, or a
  number of them succeed, the next fails with the error of the call, and the rest is reported as aborted.\<close>

theorem set_results:
  assumes "set_call env req st = (st', Ok (resp, err))"
  shows "resultsOf (requested req) err (sp_Response resp) \<and> sp_Prefix resp = sr_Prefix req"
proof -
  from assms obtain st1 rs where "set_operations env req (SetInit st) = (st1, Ok (err, rs))"
      "resp = \<lparr>sp_Prefix = sr_Prefix req, sp_Response = rs\<rparr>"
    by (auto simp: set_call_def hbind_split hret_def)
  with set_operations_results show ?thesis by auto
qed


lemma device_update:
  assumes "n = ''hostname'' \<or> n = ''mtu''" "ms_MO st = deviceMO"
  shows "SetUpdate (deviceEnv None) None (Some (leafPath n)) (Some (OtherVal t)) st =
    (if t = ''bad''
     then (st\<lparr>ms_setBackup := ms_setBackup st @ [\<lparr>be_optype = OpUpdate, be_xpath = ''/'' @ n, be_gpath = Some (leafPath n),
             be_oldval = ms_heap st (leafPath n), be_executed = False\<rparr>]\<rparr>, Failed (Tagged InvalidArgument TagBadData))
     else (st\<lparr>ms_heap := (ms_heap st)(leafPath n := Some (ValRef t)),
             ms_setBackup := ms_setBackup st @ [\<lparr>be_optype = OpUpdate, be_xpath = ''/'' @ n, be_gpath = Some (leafPath n),
             be_oldval = ms_heap st (leafPath n), be_executed = True\<rparr>]\<rparr>, Ok ()))"
proof -
  let ?env = "deviceEnv None :: (exStore, exRef) setEnv"
  have full: "fullPath ?env None (Some (leafPath n)) st = (st, Ok (Some (leafPath n)))"
    by (simp add: fullPath_run GNMIFullPath_def)
  have get: "Model_Get ?env (Some (leafPath n)) st = ([(''/'' @ n, ms_heap st (leafPath n))], True)"
    using device_find [OF assms(1), of "ms_heap st"] device_path [OF assms(1)] assms(2)
    by (simp add: Model_Get_def deviceEnv_def deviceMO_def)
  have ro: "readOnlyGuard (Some (leafPath n)) st = (st, Ok ())"
    using assms by (auto simp: readOnlyGuard_def FindSchemaByRelativeGNMIPath_def device_defs)
  have node: "\<exists>parent target. GetOrCreateNode deviceLib deviceMO (Some (leafPath n)) h = (h, Ok (parent, target)) \<and> \<not> IsDir (tn_Schema target)" for h
    using assms(1) by (auto simp: GetOrCreateNode_def device_defs heap_simps Let_def IsDir_def)
  have wt: "WriteTypedValue deviceLib id deviceMO (Some (leafPath n)) (Some (OtherVal t)) h =
      (if t = ''bad'' then (h, Failed ''bad value'') else (h(leafPath n := Some (ValRef t)), Ok ()))" for h
    using node [of h] by (auto simp: WriteTypedValue_def hbind_def) (simp_all add: deviceLib_def)
  have wr: "writeTyped ?env (Some (leafPath n)) (Some (OtherVal t)) s =
      (if t = ''bad'' then (s, Failed (Tagged InvalidArgument TagBadData)) else (s\<lparr>ms_heap := (ms_heap s)(leafPath n := Some (ValRef t))\<rparr>, Ok ()))"
    if "ms_MO s = deviceMO" for s
    using that by (simp add: writeTyped_def onTree_def tagged_def wt [unfolded deviceEnv_def] deviceEnv_def)
  show ?thesis
    using assms(2)
    by (simp add: SetUpdate_def hbind_def full get device_path [OF assms(1), simplified] pathOf_def hret_def onTarget_def ro
        addBackupEntry_def wr execute_def executeStateConfig_def markExecuted_def)
       (simp add: deviceEnv_def)
qed

definition failingRequest :: setRequest where
  "failingRequest = \<lparr>sr_Prefix = None, sr_Delete = [], sr_Replace = [],
     sr_Update = [(Some (leafPath ''hostname''), Some (OtherVal ''r1'')), (Some (leafPath ''mtu''), Some (OtherVal ''bad'')),
       (Some (leafPath ''hostname''), Some (OtherVal ''r2''))]\<rparr>"

abbreviation (input) "badValue \<equiv> Tagged InvalidArgument TagBadData"

lemma failing_operations:
  "\<exists>st1. set_operations (deviceEnv None) failingRequest (SetInit deviceState) =
     (st1, Ok (Some badValue,
        [buildUpdateResult OpUpdate (Some (leafPath ''hostname'')) None, buildUpdateResult OpUpdate (Some (leafPath ''mtu'')) (Some badValue),
         buildUpdateResultAborted OpUpdate (Some (leafPath ''hostname''))]))
     \<and> paths st1 = [Some (leafPath ''hostname''), Some (leafPath ''mtu'')]"
  by (simp add: set_operations_def set_deletes_def set_replaces_def set_updates_def hbind_def failingRequest_def
      device_update SetInit_def deviceState_def paths_def)

lemma failing_touched:
  assumes "paths st1 = [Some (leafPath ''hostname''), Some (leafPath ''mtu'')]"
  shows "touched leafPaths st1"
  unfolding touched_def assms by (simp add: leafPaths_def) (simp add: leafPath_def mkElem_def empty_gpath_def)


theorem set_results_witness:
  "\<exists>st' resp. set_call (deviceEnv None) failingRequest deviceState = (st', Ok (resp, Some badValue))
    \<and> map (\<lambda>r. (ur_Op r, ur_Path r)) (sp_Response resp) =
        [(OpUpdate, Some (leafPath ''hostname'')), (OpUpdate, Some (leafPath ''mtu'')), (OpUpdate, Some (leafPath ''hostname''))]"
proof -
  have laws: "leafLaws (deviceEnv None) (ms_MO deviceState) leafPaths (\<lambda>h. h)"
    using device_laws by (simp add: deviceState_def)
  have sc: "scalarRequest failingRequest" by (simp add: scalarRequest_def failingRequest_def scalarVal_def)
  obtain st1 rs where ops: "set_operations (deviceEnv None) failingRequest (SetInit deviceState) = (st1, Ok (Some badValue, rs))"
      "paths st1 = [Some (leafPath ''hostname''), Some (leafPath ''mtu'')]"
    using failing_operations by blast
  obtain st' where run: "set_call (deviceEnv None) failingRequest deviceState
      = (st', Ok (\<lparr>sp_Prefix = sr_Prefix failingRequest, sp_Response = rs\<rparr>, Some badValue))"
    using set_call_restores [OF laws sc ops(1) failing_touched [OF ops(2)]] by auto
  with set_results [OF run] show ?thesis
    by (intro exI [of _ st'] exI [of _ "\<lparr>sp_Prefix = sr_Prefix failingRequest, sp_Response = rs\<rparr>"]) (simp add: resultsOf_def requested_def, simp add: failingRequest_def)
qed

section \<open>Loading internal JSON into the device\<close>

theorem internal_json_writes_witness:
  "UnmarshalInternalJSON deviceLib id deviceMO (Some empty_gpath) ''r9'' =
   writeStrings deviceLib deviceMO empty_gpath [([mkElem ''hostname'' []], ''r9''), ([mkElem ''mtu'' []], ''1500'')]"
proof (rule internal_json_writes)
  show "js_Unmarshal deviceLib ''r9'' = Ok (JObject [(''hostname'', JString ''r9''), (''mtu'', JNumber ''1500'')])"
    by (simp add: deviceLib_def)
  show "clone_copies id" by (simp add: clone_copies_def)
  show "FindSchemaByRelativeGNMIPath (Some (mo_Schema deviceMO)) (Some empty_gpath) = Some deviceEntry"
    by (simp add: FindSchemaByRelativeGNMIPath_def deviceMO_def empty_gpath_def)
  show "list_all2 (leafFits (en_FindChild deviceLib) deviceEntry)
      (jsonLeaves [] (JObject [(''hostname'', JString ''r9''), (''mtu'', JNumber ''1500'')]))
      [([mkElem ''hostname'' []], ''r9''), ([mkElem ''mtu'' []], ''1500'')]"
    by (simp add: leafFits_def internalKeys_def blankFree_def no_dots_def deviceLib_def deviceEntry_def leafEntry_def mkElem_def IsList_def)
qed

end
