(* ===== verification/Login.thy ===== *)
theory Login
  imports Session
begin

text \<open>
  User authentication: \<open>utilities/server/login/login.go\<close>, with the C functions in it, and the interceptors of
  \<open>interceptor.go\<close> that every call of the gNMI server passes.
\<close>

section \<open>The C functions\<close>

text \<open>
  The user database of the C library. \<open>getpwnam\<close> gives the password field of a user; \<open>getspnam\<close> the entry of the shadow
  file, whose password may be a null pointer; \<open>crypt\<close> may return a null pointer too.
\<close>

record userDB =
  getpwnam :: "string \<Rightarrow> string option"
  getspnam :: "string \<Rightarrow> string option option"
  crypt :: "string \<Rightarrow> string \<Rightarrow> string option"

text \<open>What C reads of a Go string passed by \<open>C.CString\<close>: the bytes before the first NUL.\<close>

definition cstr :: "string \<Rightarrow> string" where
  "cstr s = takeWhile (\<lambda>c. c \<noteq> CHR 0x00) s"

definition firstIs :: "char \<Rightarrow> string \<Rightarrow> bool" where
  "firstIs c s = (case s of [] \<Rightarrow> False | x # _ \<Rightarrow> x = c)"

text \<open>The end of \<open>authenticate\<close>; \<open>strcmp\<close> of a null pointer ends the process.\<close>

definition comparePassword :: "userDB \<Rightarrow> string \<Rightarrow> string option \<Rightarrow> ('e, int) result" where
  "comparePassword db passwd pw =
     (case pw of
        None \<Rightarrow> Ok (- 2)
      | Some p \<Rightarrow>
          if firstIs CHR ''!'' p \<or> firstIs CHR ''*'' p then Ok (- 2)
          else (case crypt db passwd p of
                  None \<Rightarrow> Panics NilDereference
                | Some epasswd \<Rightarrow> if epasswd \<noteq> p then Ok (- 3) else Ok 0))"

definition authenticate :: "userDB \<Rightarrow> string \<Rightarrow> string \<Rightarrow> ('e, int) result" where
  "authenticate db user passwd =
     (case getpwnam db user of
        None \<Rightarrow> Ok (- 1)
      | Some pw \<Rightarrow>
          if pw = [] then Ok (- 2)
          else if firstIs CHR ''x'' pw then
            (case getspnam db user of None \<Rightarrow> Ok (- 4) | Some sp \<Rightarrow> comparePassword db passwd sp)
          else comparePassword db passwd (Some pw))"

definition check_username :: "userDB \<Rightarrow> string \<Rightarrow> int" where
  "check_username db user = (if getpwnam db user = None then - 1 else 0)"

section \<open>Authentication\<close>

text \<open>\<open>cheatcode\<close> is the value of the flag of that name; its default is the empty string.\<close>

definition defaultCheatcode :: string where "defaultCheatcode = []"

definition AuthenticateUser :: "userDB \<Rightarrow> string \<Rightarrow> string \<Rightarrow> string \<Rightarrow> (string, unit) result" where
  "AuthenticateUser db cheatcode username password =
     (if password = cheatcode then
        (if check_username db (cstr username) \<noteq> 0 then Failed ''no user on system'' else Ok ())
      else
        (case authenticate db (cstr username) (cstr password) of
           Inl e \<Rightarrow> Inl e
         | Inr ret \<Rightarrow>
             if ret = 0 then Ok ()
             else if ret = - 1 then Failed ''no user on system''
             else if ret = - 2 then Failed ''not accessable account''
             else if ret = - 3 then Failed ''invalid password''
             else if ret = - 4 then Failed ''no permission to access /etc/shadow''
             else Failed ''user authentication failed''))"

section \<open>Interceptors\<close>

text \<open>
  Both interceptors check in the same way before they call the handler. A handler is a function of the state of the
  server, which returns a response or an error.
\<close>

datatype loginError = NoMetadata | NoUsername | NoPassword | Refused string

definition login :: "userDB \<Rightarrow> string \<Rightarrow> rpcContext \<Rightarrow> (loginError, unit) result" where
  "login db cheatcode ctx =
     (case GetMetadata ctx of
        Inl (Panic p) \<Rightarrow> Panics p
      | Inl (Err e) \<Rightarrow> Failed e
      | Inr (meta, ok) \<Rightarrow>
          if \<not> ok then Failed NoMetadata
          else
            (case map_get meta ''username'' of
               None \<Rightarrow> Failed NoUsername
             | Some username \<Rightarrow>
                 (case map_get meta ''password'' of
                    None \<Rightarrow> Failed NoPassword
                  | Some password \<Rightarrow>
                      (case AuthenticateUser db cheatcode username password of
                         Inl (Panic p) \<Rightarrow> Panics p
                       | Inl (Err e) \<Rightarrow> Failed (Refused e)
                       | Inr u \<Rightarrow> Ok ()))))"

definition UnaryInterceptor ::
    "userDB \<Rightarrow> string \<Rightarrow> rpcContext \<Rightarrow> 'req \<Rightarrow> (rpcContext \<Rightarrow> 'req \<Rightarrow> 's \<Rightarrow> 's \<times> 'r) \<Rightarrow> 's \<Rightarrow> 's \<times> (loginError, 'r) result" where
  "UnaryInterceptor db cheatcode ctx req handler s =
     (case login db cheatcode ctx of
        Inl e \<Rightarrow> (s, Inl e)
      | Inr u \<Rightarrow> (case handler ctx req s of (s', r) \<Rightarrow> (s', Ok r)))"

text \<open>The wrapped stream passes every message on.\<close>

definition StreamInterceptor ::
    "userDB \<Rightarrow> string \<Rightarrow> ('stream \<Rightarrow> rpcContext) \<Rightarrow> 'stream \<Rightarrow> ('stream \<Rightarrow> 's \<Rightarrow> 's \<times> 'r) \<Rightarrow> 's \<Rightarrow> 's \<times> (loginError, 'r) result" where
  "StreamInterceptor db cheatcode contextOf ss handler s =
     (case login db cheatcode (contextOf ss) of
        Inl e \<Rightarrow> (s, Inl e)
      | Inr u \<Rightarrow> (case handler ss s of (s', r) \<Rightarrow> (s', Ok r)))"

section \<open>Who is let in\<close>

text \<open>The stored password of a user, from the shadow file where the user database refers to it.\<close>

definition stored :: "userDB \<Rightarrow> string \<Rightarrow> string option" where
  "stored db user =
     (case getpwnam db user of
        None \<Rightarrow> None
      | Some pw \<Rightarrow>
          if pw = [] then None
          else if firstIs CHR ''x'' pw then (case getspnam db user of None \<Rightarrow> None | Some sp \<Rightarrow> sp)
          else Some pw)"

definition credentialsOk :: "userDB \<Rightarrow> string \<Rightarrow> string \<Rightarrow> string \<Rightarrow> bool" where
  "credentialsOk db cheatcode username password =
     (if password = cheatcode then getpwnam db (cstr username) \<noteq> None
      else \<exists>p. stored db (cstr username) = Some p \<and> \<not> firstIs CHR ''!'' p \<and> \<not> firstIs CHR ''*'' p
        \<and> crypt db (cstr password) p = Some p)"

lemma comparePassword_0: "comparePassword db w pw = Ok 0 \<longleftrightarrow>
    (\<exists>p. pw = Some p \<and> \<not> firstIs CHR ''!'' p \<and> \<not> firstIs CHR ''*'' p \<and> crypt db w p = Some p)"
  by (auto simp: comparePassword_def split: option.splits)

lemma authenticate_0: "authenticate db user w = Ok 0 \<longleftrightarrow>
    (\<exists>p. stored db user = Some p \<and> \<not> firstIs CHR ''!'' p \<and> \<not> firstIs CHR ''*'' p \<and> crypt db w p = Some p)"
  by (auto simp: authenticate_def stored_def comparePassword_0 split: option.splits)

lemma AuthenticateUser_Ok: "AuthenticateUser db cheatcode u w = Ok () \<longleftrightarrow> credentialsOk db cheatcode u w"
proof (cases "w = cheatcode")
  case True
  then show ?thesis by (simp add: AuthenticateUser_def credentialsOk_def check_username_def)
next
  case False
  then have "AuthenticateUser db cheatcode u w = Ok () \<longleftrightarrow> authenticate db (cstr u) (cstr w) = (Ok 0 :: (string, int) result)"
    by (auto simp: AuthenticateUser_def split: sum.splits)
  with False show ?thesis by (simp add: authenticate_0 credentialsOk_def)
qed

definition admitted :: "userDB \<Rightarrow> string \<Rightarrow> rpcContext \<Rightarrow> bool" where
  "admitted db cheatcode ctx =
     (case GetMetadata ctx :: (loginError, _) result of
        Inr (meta, True) \<Rightarrow>
          (case (map_get meta ''username'', map_get meta ''password'') of
             (Some u, Some w) \<Rightarrow> credentialsOk db cheatcode u w
           | _ \<Rightarrow> False)
      | _ \<Rightarrow> False)"

lemma login_Ok: "login db cheatcode ctx = Ok () \<longleftrightarrow> admitted db cheatcode ctx"
  by (auto simp: login_def admitted_def AuthenticateUser_Ok [symmetric] split: sum.splits exn.splits option.splits bool.splits)

text \<open>With the default of the flag, an empty password logs in as any user of the system.\<close>

lemma empty_password_accepted:
  assumes "getpwnam db (cstr u) \<noteq> None"
  shows "AuthenticateUser db defaultCheatcode u [] = Ok ()"
  using assms by (simp add: AuthenticateUser_Ok credentialsOk_def defaultCheatcode_def)

text \<open>An account whose password in the shadow file is empty, or that \<open>crypt\<close> cannot use, ends the process.\<close>

lemma unusable_password_crashes:
  assumes "w \<noteq> cheatcode" "getpwnam db (cstr u) = Some (CHR ''x'' # r)" "getspnam db (cstr u) = Some (Some p)"
    and "crypt db (cstr w) p = None" "\<not> firstIs CHR ''!'' p" "\<not> firstIs CHR ''*'' p"
  shows "AuthenticateUser db cheatcode u w = Panics NilDereference"
  using assms by (simp add: AuthenticateUser_def authenticate_def comparePassword_def firstIs_def)

section \<open>Properties\<close>

text \<open>C13: The handler of a call runs exactly if the metadata of the call has a user name and a password, and the password
  either is the cheat code and the user exists, or encrypts to the stored password of the user, which is neither
  locked nor missing. Otherwise the call ends with an error and the state of the server is unchanged. This holds for
  unary calls and for streams.\<close>

theorem login_required:
  "UnaryInterceptor db cheatcode ctx req handler s =
     (if admitted db cheatcode ctx then (fst (handler ctx req s), Ok (snd (handler ctx req s)))
      else (s, Inl (projl (login db cheatcode ctx))))
   \<and> StreamInterceptor db cheatcode contextOf ss streamHandler s =
     (if admitted db cheatcode (contextOf ss) then (fst (streamHandler ss s), Ok (snd (streamHandler ss s)))
      else (s, Inl (projl (login db cheatcode (contextOf ss)))))"
proof -
  have "login db cheatcode ctx = (if admitted db cheatcode ctx then Ok () else Inl (projl (login db cheatcode ctx)))" for ctx
    using login_Ok [of db cheatcode ctx] by (cases "login db cheatcode ctx") auto
  from this [of ctx] this [of "contextOf ss"] show ?thesis
    by (auto simp: UnaryInterceptor_def StreamInterceptor_def split_beta split: sum.splits if_splits)
qed

end
