(* ===== verification/TypeUpdate.thy ===== *)
theory TypeUpdate
  imports TreeWrite
begin

text \<open>
  The types of the schema: \<open>typeFind\<close>, \<open>updateType\<close> and \<open>UpdateType\<close> of \<open>gnmi/model/utilities.go\<close>, which annotate every
  entry of the schema with the Go type of its data.
\<close>

section \<open>Finding a type\<close>

text \<open>
  \<open>typeFind\<close>: \<open>None\<close> is the nil type, and no name is the nil pointer. A map and a slice stand for their elements, which are
  searched with the same name.
\<close>

fun typeFind_at :: "gotype \<Rightarrow> string \<Rightarrow> gotype option" where
  "typeFind_at pt [] = Some pt"
| "typeFind_at TInterface key = None"
| "typeFind_at (TPtr t) key = typeFind_at t key"
| "typeFind_at (TStruct n fs) key = fieldByTag key fs"
| "typeFind_at (TMap t) key = typeFind_at t key"
| "typeFind_at (TSlice t) key = typeFind_at t key"
| "typeFind_at (TScalar n) key = None"

definition typeFind :: "gotype option \<Rightarrow> string option \<Rightarrow> gotype option" where
  "typeFind pt key =
     (case pt of
        None \<Rightarrow> None
      | Some t \<Rightarrow> (case key of None \<Rightarrow> Some t | Some k \<Rightarrow> typeFind_at t k))"

section \<open>Annotating the schema\<close>

text \<open>
  An annotation of an entry is the binding of its place below the root, the keys of \<open>Dir\<close> on the way to it, to a type. The
  walk writes an entry before its children and stops at the first child without a type; what is written stays. \<open>at\<close> is the
  place of the entry and \<open>self\<close> the entry seen from below, for the text of the error.
\<close>

function (sequential) updateType ::
    "yentry \<Rightarrow> gotype \<Rightarrow> string list \<Rightarrow> sentry \<Rightarrow> (string list \<times> gotype) list \<times> string option"
  and updateTypes ::
    "(string \<times> yentry) list \<Rightarrow> gotype \<Rightarrow> string list \<Rightarrow> sentry \<Rightarrow> (string list \<times> gotype) list \<times> string option" where
  "updateType (YEntry nm k r kd dir) curType at self =
     (case updateTypes dir curType at self of (anns, err) \<Rightarrow> ((at, curType) # anns, err))"
| "updateTypes [] curType at self = ([], None)"
| "updateTypes ((name, schema) # dir) curType at self =
     (case typeFind (Some curType) (Some name) of
        None \<Rightarrow> ([], Some (''type update to schema tree failed for '' @ SchemaToXPath (Some (SEntry (en_Name schema) (Some self)))))
      | Some t \<Rightarrow>
          (case updateType schema t (at @ [name]) (SEntry (en_Name schema) (Some self)) of
             (anns, Some err) \<Rightarrow> (anns, Some err)
           | (anns, None) \<Rightarrow>
               (case updateTypes dir curType at self of (anns', err) \<Rightarrow> (anns @ anns', err))))"
  by pat_completeness auto
termination
  by (relation "measure (\<lambda>x. case x of Inl (e, _) \<Rightarrow> size e | Inr (dir, _) \<Rightarrow> size_list (size_prod (\<lambda>_. 0) size) dir)") auto

text \<open>\<open>MO.UpdateType\<close> starts at the schema of the root, which must be there; a nil schema is written to.\<close>

definition UpdateType :: "schemaModel \<Rightarrow> (string, (string list \<times> gotype) list \<times> string option) result" where
  "UpdateType m =
     (case FindSchemaByType m (rootType m) of
        None \<Rightarrow> Panics NilDereference
      | Some entry \<Rightarrow> Ok (updateType entry (rootType m) [] (SEntry (en_Name entry) None)))"

section \<open>Types along a path\<close>

text \<open>The reference: the type of a place is found name by name.\<close>

fun typeAt :: "gotype \<Rightarrow> string list \<Rightarrow> gotype option" where
  "typeAt t [] = Some t"
| "typeAt t (n # ns) = (case typeFind_at t n of None \<Rightarrow> None | Some t' \<Rightarrow> typeAt t' ns)"

text \<open>The places of the entries of a schema.\<close>

inductive place :: "yentry \<Rightarrow> string list \<Rightarrow> bool" where
  root: "place e []"
| child: "(n, c) \<in> set (en_Dir e) \<Longrightarrow> place c ns \<Longrightarrow> place e (n # ns)"

inductive_cases place_ConsE: "place e (n # ns)"

inductive_simps place_simps [simp]: "place e []" "place (YEntry nm k r kd dir) (n # ns)"

lemma findSchema_place: "findSchema e es = Some c \<Longrightarrow> place e (map pe_Name es)"
  by (induction e es rule: findSchema.induct) (auto split: option.splits intro: place.intros dest: map_of_SomeD)

abbreviation annotated :: "(string list \<times> gotype) list \<times> string option \<Rightarrow> (string list \<times> gotype) set" where
  "annotated r \<equiv> set (fst r)"

lemma updateType_sound:
  "(p, t') \<in> annotated (updateType e t at self) \<Longrightarrow> \<exists>ns. p = at @ ns \<and> place e ns \<and> typeAt t ns = Some t'"
  "(p, t') \<in> annotated (updateTypes dir t at self) \<Longrightarrow>
     \<exists>n c ns. p = at @ n # ns \<and> (n, c) \<in> set dir \<and> place c ns \<and> typeAt t (n # ns) = Some t'"
proof (induction e t at self and dir t at self arbitrary: p t' and p t' rule: updateType_updateTypes.induct)
  case (1 nm k r kd dir curType at self)
  then show ?case by (fastforce split: prod.splits)
next
  case (3 name schema dir curType at self)
  show ?case
  proof (cases "typeFind (Some curType) (Some name)")
    case None
    with 3(3) show ?thesis by simp
  next
    case (Some t)
    then have ty: "typeFind_at curType name = Some t" by (simp add: typeFind_def)
    from 3(3) Some consider (here) "(p, t') \<in> annotated (updateType schema t (at @ [name]) (SEntry (en_Name schema) (Some self)))"
      | (later) "snd (updateType schema t (at @ [name]) (SEntry (en_Name schema) (Some self))) = None"
          "(p, t') \<in> annotated (updateTypes dir curType at self)"
      by (auto split: prod.splits option.splits)
    then show ?thesis
    proof cases
      case here
      from 3(1) [OF Some here] obtain ns where "p = (at @ [name]) @ ns" "place schema ns" "typeAt t ns = Some t'" by blast
      with ty show ?thesis by (intro exI [of _ name] exI [of _ schema] exI [of _ ns]) simp
    next
      case later
      from 3(2) [OF Some prod.collapse later(1) later(2)] show ?thesis by auto
    qed
  qed
qed simp

lemma updateType_complete:
  "snd (updateType e t at self) = None \<Longrightarrow> place e ns \<Longrightarrow> at @ ns \<in> fst ` annotated (updateType e t at self)"
  "snd (updateTypes dir t at self) = None \<Longrightarrow> (n, c) \<in> set dir \<Longrightarrow> place c ns \<Longrightarrow>
     at @ n # ns \<in> fst ` annotated (updateTypes dir t at self)"
proof (induction e t at self and dir t at self arbitrary: ns and n c ns rule: updateType_updateTypes.induct)
  case (1 nm k r kd dir curType at self)
  then show ?case by (cases ns) (auto split: prod.splits)
next
  case (3 name schema dir curType at self)
  let ?r = "\<lambda>t. updateType schema t (at @ [name]) (SEntry (en_Name schema) (Some self))"
  from 3(3) obtain t where ty: "typeFind (Some curType) (Some name) = Some t" by (auto split: option.splits)
  from 3(3) ty have ok: "snd (?r t) = None" "snd (updateTypes dir curType at self) = None"
    by (auto split: prod.splits option.splits)
  have anns: "annotated (updateTypes ((name, schema) # dir) curType at self) = annotated (?r t) \<union> annotated (updateTypes dir curType at self)"
    using ty ok by (auto split: prod.splits)
  from 3(4) consider "n = name" "c = schema" | "(n, c) \<in> set dir" by auto
  then show ?case
  proof cases
    case 1
    with 3(1) [OF ty ok(1), of ns] 3(5) show ?thesis unfolding anns by (auto simp: image_Un)
  next
    case 2
    with 3(2) [OF ty prod.collapse ok(1) ok(2) _ 3(5)] show ?thesis unfolding anns by (auto simp: image_Un)
  qed
qed simp

lemma updateType_error:
  "snd (updateType e t at self) = Some err \<Longrightarrow> \<exists>ns. place e ns \<and> typeAt t ns = None"
  "snd (updateTypes dir t at self) = Some err \<Longrightarrow> \<exists>n c ns. (n, c) \<in> set dir \<and> place c ns \<and> typeAt t (n # ns) = None"
proof (induction e t at self and dir t at self arbitrary: err and err rule: updateType_updateTypes.induct)
  case (1 nm k r kd dir curType at self)
  then have "\<exists>n c ns. (n, c) \<in> set dir \<and> place c ns \<and> typeAt curType (n # ns) = None" by (auto split: prod.splits)
  then obtain n c ns where "(n, c) \<in> set dir" "place c ns" "typeAt curType (n # ns) = None" by blast
  then show ?case by (intro exI [of _ "n # ns"]) auto
next
  case (3 name schema dir curType at self)
  let ?r = "\<lambda>t. updateType schema t (at @ [name]) (SEntry (en_Name schema) (Some self))"
  show ?case
  proof (cases "typeFind (Some curType) (Some name)")
    case None
    then have "typeAt curType [name] = None" by (simp add: typeFind_def)
    then show ?thesis by (intro exI [of _ name] exI [of _ schema] exI [of _ "[]"]) simp
  next
    case (Some t)
    then have ty: "typeFind_at curType name = Some t" by (simp add: typeFind_def)
    show ?thesis
    proof (cases "snd (?r t)")
      case None
      with 3(3) Some have "snd (updateTypes dir curType at self) = Some err" by (auto split: prod.splits)
      from 3(2) [OF Some prod.collapse None this] show ?thesis by auto
    next
      case (Some e')
      from 3(1) [OF \<open>typeFind (Some curType) (Some name) = Some t\<close> this] obtain ns where "place schema ns" "typeAt t ns = None" by blast
      with ty show ?thesis by (intro exI [of _ name] exI [of _ schema] exI [of _ ns]) simp
    qed
  qed
qed simp

lemma updateType_untyped:
  assumes "snd (updateType e t [] self) = None" "place e ns"
  shows "typeAt t ns \<noteq> None"
proof -
  from updateType_complete(1) [OF assms] obtain t' where "(ns, t') \<in> annotated (updateType e t [] self)" by auto
  from updateType_sound(1) [OF this] show ?thesis by auto
qed

section \<open>Properties\<close>

text \<open>C23: \<open>UpdateType\<close> fails exactly if some entry of the schema has no Go type along its place; whether it fails or not,
  every annotation that it writes is the type of its place. If it succeeds, each entry that a path leads to is
  annotated with the type found name by name from the type of the root.\<close>

theorem UpdateType_types:
  assumes "FindSchemaByType m (rootType m) = Some entry"
  shows "\<exists>anns err. UpdateType m = Ok (anns, err)
    \<and> (err = None \<longleftrightarrow> (\<forall>ns. place entry ns \<longrightarrow> typeAt (rootType m) ns \<noteq> None))
    \<and> (\<forall>(ns, t) \<in> set anns. place entry ns \<and> typeAt (rootType m) ns = Some t)
    \<and> (err = None \<longrightarrow> (\<forall>elems. findSchema entry elems \<noteq> None \<longrightarrow>
         map_get anns (map pe_Name elems) = typeAt (rootType m) (map pe_Name elems)))"
proof -
  let ?r = "updateType entry (rootType m) [] (SEntry (en_Name entry) None)"
  have sound: "place entry ns \<and> typeAt (rootType m) ns = Some t" if "(ns, t) \<in> annotated ?r" for ns t
    using updateType_sound(1) [OF that] by auto
  have get: "map_get (fst ?r) ns = typeAt (rootType m) ns" if "snd ?r = None" "place entry ns" for ns
  proof -
    from updateType_complete(1) [OF that] obtain t where "map_get (fst ?r) ns = Some t"
      by (metis append_Nil map_of_eq_None_iff not_None_eq)
    then show ?thesis using sound map_of_SomeD by metis
  qed
  have err: "snd ?r = None \<longleftrightarrow> (\<forall>ns. place entry ns \<longrightarrow> typeAt (rootType m) ns \<noteq> None)"
    using updateType_error(1) [of entry "rootType m" "[]" "SEntry (en_Name entry) None"] updateType_untyped [of entry "rootType m"]
    by (metis not_None_eq)
  have "UpdateType m = Ok (fst ?r, snd ?r)" using assms by (simp add: UpdateType_def)
  with sound get err show ?thesis
    by (intro exI [of _ "fst ?r"] exI [of _ "snd ?r"]) (auto dest: findSchema_place)
qed

text \<open>A list of interfaces: the type of an entry's field is found through the map and the pointer.\<close>

definition exTyped :: schemaModel where
  "exTyped = \<lparr>SchemaTree = [(''Device'', YEntry ''device'' [] False DirectoryEntry
       [(''interface'', YEntry ''interface'' ''name'' False ListEntry [(''name'', YEntry ''name'' [] False LeafEntry [])])])],
     rootType = TStruct ''Device'' [(''Interface'', Some ''interface'',
       TMap (TPtr (TStruct ''Interface'' [(''Name'', Some ''name'', TPtr (TScalar ''string''))])))],
     supported = []\<rparr>"

theorem UpdateType_types_witness:
  "\<exists>anns. UpdateType exTyped = Ok (anns, None) \<and> map_get anns [''interface'', ''name''] = Some (TPtr (TScalar ''string''))"
proof -
  have entry: "FindSchemaByType exTyped (rootType exTyped) = Some (snd (hd (SchemaTree exTyped)))"
    by (simp add: FindSchemaByType_def exTyped_def)
  have ok: "snd (projr (UpdateType exTyped)) = None" by code_simp
  have typed: "typeAt (rootType exTyped) [''interface'', ''name''] = Some (TPtr (TScalar ''string''))"
    "findSchema (snd (hd (SchemaTree exTyped))) [mkElem ''interface'' [], mkElem ''name'' []] \<noteq> None"
    by (code_simp, code_simp)
  from UpdateType_types [OF entry] ok obtain anns where anns: "UpdateType exTyped = Ok (anns, None)"
    "\<forall>elems. findSchema (snd (hd (SchemaTree exTyped))) elems \<noteq> None \<longrightarrow>
       map_get anns (map pe_Name elems) = typeAt (rootType exTyped) (map pe_Name elems)"
    by auto
  from anns(2) typed(2) have "map_get anns (map pe_Name [mkElem ''interface'' [], mkElem ''name'' []])
      = typeAt (rootType exTyped) (map pe_Name [mkElem ''interface'' [], mkElem ''name'' []])"
    by blast
  with anns(1) typed(1) show ?thesis by (simp add: mkElem_def)
qed

end
