(* ===== verification/ModelUpdate.thy ===== *)
theory ModelUpdate
  imports SetLaws StateSync
begin

text \<open>
  Updates of the model by the external system: \<open>UpdateStart\<close>, \<open>UpdateCreate\<close>, \<open>UpdateReplace\<close>, \<open>UpdateDelete\<close> and
  \<open>UpdateEnd\<close> of \<open>gnmi/model/model.go\<close>. A change that took effect is reported through the interface
  \<open>ChangeNotification\<close>, which the telemetry control block of the server implements.
\<close>

section \<open>The interface\<close>

text \<open>\<open>ChangeNotification\<close>: 'n is the state of its implementation, 'v the type of the changed root.\<close>

record ('n, 'v) changeNotification =
  cn_Started :: "'v \<Rightarrow> 'n \<Rightarrow> 'n"
  cn_Created :: "string \<Rightarrow> 'n \<Rightarrow> (serr, 'n) result"
  cn_Replaced :: "string \<Rightarrow> 'n \<Rightarrow> (serr, 'n) result"
  cn_Deleted :: "string \<Rightarrow> 'n \<Rightarrow> (serr, 'n) result"
  cn_Completed :: "'v \<Rightarrow> 'n \<Rightarrow> 'n completion"

record ('h, 'v, 'p, 't, 'n) updEnv =
  ue_lib :: "('h, 'v) treeLib"
  ue_ptrs :: "'p schemaPtrs"
  ue_tops :: "('t, bool) trieOps"
  ue_cn :: "('n, 'v) changeNotification option"

text \<open>The state of the model: the tree, the tree of changes between \<open>UpdateStart\<close> and \<open>UpdateEnd\<close>, the sync paths, the lock.\<close>

record ('h, 'v, 'p, 't, 's, 'n) updModel =
  um_heap :: 'h
  um_MO :: "'v MO"
  um_updatedroot :: "'v MO option"
  um_sync :: "('p, 't, 's) stateSyncs option"
  um_notified :: 'n
  um_locked :: bool

type_synonym ('h, 'v, 'p, 't, 's, 'n) updM = "(('h, 'v, 'p, 't, 's, 'n) updModel, serr, unit) actM"

section \<open>The operations\<close>

definition notify :: "('c \<Rightarrow> 'n \<Rightarrow> (serr, 'n) result) \<Rightarrow> 'c option \<Rightarrow> ('h, 'v, 'p, 't, 's, 'n) updM" where
  "notify call cn m =
     (case cn of
        None \<Rightarrow> (m, Ok ())
      | Some c \<Rightarrow> (case call c (um_notified m) of Inl e \<Rightarrow> (m, Inl e) | Inr n \<Rightarrow> (m\<lparr>um_notified := n\<rparr>, Ok ())))"

text \<open>
  The write to the tree and, if it succeeds and changes are recorded, the write to the tree of changes, whose
  error is ignored, and the report.
\<close>

definition writeUpdate ::
    "('h, 'v, 'p, 't, 'n) updEnv \<Rightarrow> (('n, 'v) changeNotification \<Rightarrow> 'n \<Rightarrow> (serr, 'n) result) \<Rightarrow> gpath \<Rightarrow> string
     \<Rightarrow> ('h, 'v, 'p, 't, 's, 'n) updM" where
  "writeUpdate env call g v m =
     (case WriteStringValue (ue_lib env) (um_MO m) (Some g) v (um_heap m) of
        (h, Inl (Panic p)) \<Rightarrow> (m\<lparr>um_heap := h\<rparr>, Panics p)
      | (h, Inl (Err e)) \<Rightarrow> (m\<lparr>um_heap := h\<rparr>, Ok ())
      | (h, Inr u) \<Rightarrow>
          (case um_updatedroot m of
             None \<Rightarrow> (m\<lparr>um_heap := h\<rparr>, Ok ())
           | Some ur \<Rightarrow>
               (case WriteStringValue (ue_lib env) ur (Some g) v h of
                  (h', Inl (Panic p)) \<Rightarrow> (m\<lparr>um_heap := h'\<rparr>, Panics p)
                | (h', _) \<Rightarrow> notify call (ue_cn env) (m\<lparr>um_heap := h'\<rparr>))))"

definition UpdateCreate :: "('h, 'v, 'p, 't, 'n) updEnv \<Rightarrow> string \<Rightarrow> string \<Rightarrow> ('h, 'v, 'p, 't, 's, 'n) updM" where
  "UpdateCreate env path v m =
     (case sc_find (ue_ptrs env) path of
        None \<Rightarrow> (m, Ok ())
      | Some entry \<Rightarrow>
          (case addStateSyncPath (ue_tops env) (Some entry) path (um_sync m) of
             Inl e \<Rightarrow> (m, Inl e)
           | Inr sy \<Rightarrow>
               (case ToGNMIPath path of
                  Inl (Panic p) \<Rightarrow> (m\<lparr>um_sync := sy\<rparr>, Panics p)
                | Inl (Err e) \<Rightarrow> (m\<lparr>um_sync := sy\<rparr>, Ok ())
                | Inr g \<Rightarrow> writeUpdate env (\<lambda>c. cn_Created c path) g v (m\<lparr>um_sync := sy\<rparr>))))"

definition UpdateReplace :: "('h, 'v, 'p, 't, 'n) updEnv \<Rightarrow> string \<Rightarrow> string \<Rightarrow> ('h, 'v, 'p, 't, 's, 'n) updM" where
  "UpdateReplace env path v m =
     (case sc_find (ue_ptrs env) path of
        None \<Rightarrow> (m, Ok ())
      | Some entry \<Rightarrow>
          (case ToGNMIPath path of
             Inl (Panic p) \<Rightarrow> (m, Panics p)
           | Inl (Err e) \<Rightarrow> (m, Ok ())
           | Inr g \<Rightarrow> writeUpdate env (\<lambda>c. cn_Replaced c path) g v m))"

definition UpdateDelete :: "('h, 'v, 'p, 't, 'n) updEnv \<Rightarrow> string \<Rightarrow> ('h, 'v, 'p, 't, 's, 'n) updM" where
  "UpdateDelete env path m =
     (case sc_find (ue_ptrs env) path of
        None \<Rightarrow> (m, Ok ())
      | Some entry \<Rightarrow>
          (case deleteStateSyncPath (ue_tops env) (Some entry) path (um_sync m) of
             Inl e \<Rightarrow> (m, Inl e)
           | Inr sy \<Rightarrow>
               (case ToGNMIPath path of
                  Inl (Panic p) \<Rightarrow> (m\<lparr>um_sync := sy\<rparr>, Panics p)
                | Inl (Err e) \<Rightarrow> (m\<lparr>um_sync := sy\<rparr>, Ok ())
                | Inr g \<Rightarrow>
                    (case DeleteValue (ue_lib env) (um_MO m) (Some g) (um_heap m) of
                       (h, Inl (Panic p)) \<Rightarrow> (m\<lparr>um_sync := sy, um_heap := h\<rparr>, Panics p)
                     | (h, Inl (Err e)) \<Rightarrow> (m\<lparr>um_sync := sy, um_heap := h\<rparr>, Ok ())
                     | (h, Inr u) \<Rightarrow> notify (\<lambda>c. cn_Deleted c path) (ue_cn env) (m\<lparr>um_sync := sy, um_heap := h\<rparr>)))))"

text \<open>\<open>UpdateStart\<close> waits while the lock is held; \<open>None\<close> is a call that waits.\<close>

definition UpdateStart ::
    "('h, 'v, 'p, 't, 'n) updEnv \<Rightarrow> ('h, 'v, 'p, 't, 's, 'n) updModel \<Rightarrow> ('h, 'v, 'p, 't, 's, 'n) updModel option" where
  "UpdateStart env m =
     (if um_locked m then None
      else
        (case NewEmptyRoot (ue_lib env) (um_MO m) (um_heap m) of
           (h, ur) \<Rightarrow>
             Some (m\<lparr>um_locked := True, um_heap := h, um_updatedroot := Some ur,
                 um_notified := (case ue_cn env of None \<Rightarrow> um_notified m | Some c \<Rightarrow> cn_Started c (mo_Root ur) (um_notified m))\<rparr>)))"

text \<open>\<open>UpdateEnd\<close>: the lock is released once the report is complete, which may block.\<close>

definition release :: "('h, 'v, 'p, 't, 's, 'n) updModel \<Rightarrow> ('h, 'v, 'p, 't, 's, 'n) updModel" where
  "release m = m\<lparr>um_updatedroot := None, um_locked := False\<rparr>"

definition UpdateEnd ::
    "('h, 'v, 'p, 't, 'n) updEnv \<Rightarrow> ('h, 'v, 'p, 't, 's, 'n) updModel \<Rightarrow> ('h, 'v, 'p, 't, 's, 'n) updModel completion" where
  "UpdateEnd env m =
     (case ue_cn env of
        None \<Rightarrow> Completed (release m)
      | Some c \<Rightarrow>
          (case um_updatedroot m of
             None \<Rightarrow> SendPanics NilDereference
           | Some ur \<Rightarrow>
               (case cn_Completed c (mo_Root ur) (um_notified m) of
                  Completed n \<Rightarrow> Completed (release (m\<lparr>um_notified := n\<rparr>))
                | BlockedSending n i \<Rightarrow> BlockedSending (m\<lparr>um_notified := n\<rparr>) i
                | SendPanics p \<Rightarrow> SendPanics p)))"

section \<open>Rounds of updates\<close>

datatype stateUpdate = UCreate string string | UReplace string string | UDelete string

fun applyUpdate :: "('h, 'v, 'p, 't, 'n) updEnv \<Rightarrow> stateUpdate \<Rightarrow> ('h, 'v, 'p, 't, 's, 'n) updM" where
  "applyUpdate env (UCreate p v) = UpdateCreate env p v"
| "applyUpdate env (UReplace p v) = UpdateReplace env p v"
| "applyUpdate env (UDelete p) = UpdateDelete env p"

fun applyUpdates :: "('h, 'v, 'p, 't, 'n) updEnv \<Rightarrow> stateUpdate list \<Rightarrow> ('h, 'v, 'p, 't, 's, 'n) updM" where
  "applyUpdates env [] = hret ()"
| "applyUpdates env (u # us) = hbind (applyUpdate env u) (\<lambda>_. applyUpdates env us)"

text \<open>The changes that take effect: the path is known and parses, and the tree accepts the change.\<close>

definition accepted :: "'h \<times> (string, unit) result \<Rightarrow> bool" where
  "accepted r = (snd r = Ok ())"

definition knownPath :: "('h, 'v, 'p, 't, 'n) updEnv \<Rightarrow> string \<Rightarrow> gpath option" where
  "knownPath env path =
     (if sc_find (ue_ptrs env) path = None then None else (case ToGNMIPath path of Inl _ \<Rightarrow> None | Inr g \<Rightarrow> Some g))"

definition written :: "('h, 'v, 'p, 't, 'n) updEnv \<Rightarrow> gpath \<Rightarrow> string \<Rightarrow> ('h, 'v, 'p, 't, 's, 'n) updModel \<Rightarrow> teleChange \<Rightarrow> teleChange list" where
  "written env g v m c = (if accepted (WriteStringValue (ue_lib env) (um_MO m) (Some g) v (um_heap m)) then [c] else [])"

lemma written_sync [simp]: "written env g v (m\<lparr>um_sync := sy\<rparr>) c = written env g v m c"
  by (simp add: written_def)

fun effect :: "('h, 'v, 'p, 't, 'n) updEnv \<Rightarrow> stateUpdate \<Rightarrow> ('h, 'v, 'p, 't, 's, 'n) updModel \<Rightarrow> teleChange list" where
  "effect env (UCreate p v) m =
     (case knownPath env p of None \<Rightarrow> [] | Some g \<Rightarrow> written env g v m (Created p))"
| "effect env (UReplace p v) m =
     (case knownPath env p of None \<Rightarrow> [] | Some g \<Rightarrow> written env g v m (Replaced p))"
| "effect env (UDelete p) m =
     (case knownPath env p of
        None \<Rightarrow> []
      | Some g \<Rightarrow> if accepted (DeleteValue (ue_lib env) (um_MO m) (Some g) (um_heap m)) then [Deleted p] else [])"

fun effects :: "('h, 'v, 'p, 't, 'n) updEnv \<Rightarrow> stateUpdate list \<Rightarrow> ('h, 'v, 'p, 't, 's, 'n) updModel \<Rightarrow> teleChange list" where
  "effects env [] m = []"
| "effects env (u # us) m = effect env u m @ effects env us (fst (applyUpdate env u m))"

section \<open>What an implementation of the interface promises\<close>

text \<open>
  \<open>collects n0 cs n\<close>: \<open>n\<close> is what the state \<open>n0\<close>, at the start of a round, has become by the changes \<open>cs\<close>. Reports are
  accepted and add to the collection.
\<close>

locale change_log =
  fixes cn :: "('n, 'v) changeNotification"
    and collects :: "'n \<Rightarrow> teleChange list \<Rightarrow> 'n \<Rightarrow> bool"
  assumes started: "collects (cn_Started cn r n) [] (cn_Started cn r n)"
    and created: "collects n0 cs n \<Longrightarrow> \<exists>n'. cn_Created cn p n = Ok n' \<and> collects n0 (cs @ [Created p]) n'"
    and replaced: "collects n0 cs n \<Longrightarrow> \<exists>n'. cn_Replaced cn p n = Ok n' \<and> collects n0 (cs @ [Replaced p]) n'"
    and deleted: "collects n0 cs n \<Longrightarrow> \<exists>n'. cn_Deleted cn p n = Ok n' \<and> collects n0 (cs @ [Deleted p]) n'"
begin

lemma notify_collects:
  assumes "collects n0 cs (um_notified m)"
    and "\<And>n. collects n0 cs n \<Longrightarrow> \<exists>n'. call cn n = Ok n' \<and> collects n0 (cs @ [c]) n'"
  shows "\<exists>n'. notify call (Some cn) m = (m\<lparr>um_notified := n'\<rparr>, Ok ()) \<and> collects n0 (cs @ [c]) n'"
  using assms(2) [OF assms(1)] by (auto simp: notify_def)

lemma writeUpdate_collects:
  assumes "ue_cn env = Some cn" "um_updatedroot m \<noteq> None" "collects n0 cs (um_notified m)"
    and call: "\<And>n. collects n0 cs n \<Longrightarrow> \<exists>n'. call cn n = Ok n' \<and> collects n0 (cs @ [c]) n'"
    and "writeUpdate env call g v m = (m', Ok ())"
  shows "um_updatedroot m' = um_updatedroot m \<and> collects n0 (cs @ written env g v m c) (um_notified m')"
proof -
  obtain h r where w: "WriteStringValue (ue_lib env) (um_MO m) (Some g) v (um_heap m) = (h, r)" by fastforce
  obtain ur where ur: "um_updatedroot m = Some ur" using assms(2) by blast
  show ?thesis
  proof (cases r)
    case (Inl e)
    with w assms(3,5) show ?thesis by (cases e) (auto simp: writeUpdate_def written_def accepted_def)
  next
    case (Inr u)
    obtain h' r' where w': "WriteStringValue (ue_lib env) ur (Some g) v h = (h', r')" by fastforce
    have c: "collects n0 cs (um_notified (m\<lparr>um_heap := h'\<rparr>))" using assms(3) by simp
    from notify_collects [where call = call and c = c, OF c] call obtain n' where
      n: "notify call (Some cn) (m\<lparr>um_heap := h'\<rparr>) = (m\<lparr>um_heap := h', um_notified := n'\<rparr>, Ok ())" "collects n0 (cs @ [c]) n'"
      by auto
    have "m' = m\<lparr>um_heap := h', um_notified := n'\<rparr>"
      using assms(1,5) w w' ur Inr n(1) by (auto simp: writeUpdate_def split: sum.splits exn.splits)
    with n(2) w Inr show ?thesis by (simp add: written_def accepted_def)
  qed
qed

lemma applyUpdate_collects:
  assumes "ue_cn env = Some cn" "um_updatedroot m \<noteq> None" "collects n0 cs (um_notified m)" "applyUpdate env u m = (m', Ok ())"
  shows "um_updatedroot m' = um_updatedroot m \<and> collects n0 (cs @ effect env u m) (um_notified m')"
proof (cases u)
  case (UCreate p v)
  then show ?thesis
    using assms writeUpdate_collects [OF assms(1), of "m\<lparr>um_sync := sy\<rparr>" n0 cs "\<lambda>c. cn_Created c p" "Created p" g v m' for sy g, OF _ _ created]
    by (auto simp: UpdateCreate_def knownPath_def split: option.splits sum.splits exn.splits)
next
  case (UReplace p v)
  then show ?thesis
    using assms writeUpdate_collects [OF assms(1), of m n0 cs "\<lambda>c. cn_Replaced c p" "Replaced p" g v m' for g, OF _ _ replaced]
    by (auto simp: UpdateReplace_def knownPath_def split: option.splits sum.splits exn.splits)
next
  case (UDelete p)
  from deleted [OF assms(3), of p] obtain n' where n: "cn_Deleted cn p (um_notified m) = Ok n'" "collects n0 (cs @ [Deleted p]) n'" by blast
  have "notify (\<lambda>c. cn_Deleted c p) (Some cn) (m\<lparr>um_sync := sy, um_heap := h\<rparr>) = (m\<lparr>um_sync := sy, um_heap := h, um_notified := n'\<rparr>, Ok ())" for sy h
    using n(1) by (simp add: notify_def)
  with UDelete assms n(2) show ?thesis
    by (auto simp: UpdateDelete_def knownPath_def accepted_def split: option.splits sum.splits exn.splits prod.splits)
qed

lemma applyUpdates_collects:
  assumes "ue_cn env = Some cn"
  shows "um_updatedroot m \<noteq> None \<Longrightarrow> collects n0 cs (um_notified m) \<Longrightarrow> applyUpdates env us m = (m', Ok ()) \<Longrightarrow>
    um_updatedroot m' = um_updatedroot m \<and> collects n0 (cs @ effects env us m) (um_notified m')"
proof (induction us arbitrary: m cs)
  case (Cons u us)
  from Cons.prems(3) obtain m1 where m1: "applyUpdate env u m = (m1, Ok ())" "applyUpdates env us m1 = (m', Ok ())"
    by (auto simp: hbind_def split: prod.splits sum.splits)
  from applyUpdate_collects [OF assms Cons.prems(1,2) m1(1)] Cons.IH [of m1 "cs @ effect env u m"] m1 Cons.prems(1)
  show ?case by simp
qed (simp add: hret_def)

lemma round_collects:
  assumes "ue_cn env = Some cn" "UpdateStart env m = Some m1" "applyUpdates env us m1 = (m2, Ok ())"
  shows "collects (um_notified m1) (effects env us m1) (um_notified m2)"
proof -
  have "collects (um_notified m1) [] (um_notified m1)" "um_updatedroot m1 \<noteq> None"
    using assms(1,2) started by (auto simp: UpdateStart_def split: prod.splits if_splits)
  from applyUpdates_collects [OF assms(1) this(2,1) assms(3)] show ?thesis by simp
qed

end

section \<open>The telemetry control block as the implementation\<close>

text \<open>The server passes itself as \<open>ChangeNotification\<close>; the state is the control block with the event queues.\<close>

type_synonym ('t, 'v) teleState = "('t, 'v) teleCtrl \<times> (TeleID, 'v teleEvent chan) gomap"

definition onCtrl :: "(('t, 'v) teleCtrl \<Rightarrow> (serr, ('t, 'v) teleCtrl) result) \<Rightarrow> ('t, 'v) teleState \<Rightarrow> (serr, ('t, 'v) teleState) result" where
  "onCtrl f n = (case f (fst n) of Inl e \<Rightarrow> Inl e | Inr tcb \<Rightarrow> Ok (tcb, snd n))"

definition teleNotifier :: "('t, subscribers) trieOps \<Rightarrow> (('t, 'v) teleState, 'v) changeNotification" where
  "teleNotifier ops = \<lparr>cn_Started = (\<lambda>r n. (ChangeStarted (fst n), snd n)),
     cn_Created = (\<lambda>p. onCtrl (ChangeCreated ops p)),
     cn_Replaced = (\<lambda>p. onCtrl (ChangeReplaced ops p)),
     cn_Deleted = (\<lambda>p. onCtrl (ChangeDeleted ops p)),
     cn_Completed = (\<lambda>r n. ChangeCompleted r (snd n) (fst n))\<rparr>"

definition teleCollects :: "('t, subscribers) trieOps \<Rightarrow> ('t, 'v) teleState \<Rightarrow> teleChange list \<Rightarrow> ('t, 'v) teleState \<Rightarrow> bool" where
  "teleCollects ops n0 cs n = (applyChanges ops cs (fst n0) = Ok (fst n) \<and> snd n = snd n0)"

lemma applyChanges_snoc:
  "applyChanges ops cs tcb = Ok tcb' \<Longrightarrow> applyChanges ops (cs @ [c]) tcb = applyChange ops c tcb'"
  by (induction cs arbitrary: tcb) (auto split: sum.splits)

lemma teleCollects_step:
  assumes "teleCollects ops n0 cs n"
  shows "\<exists>n'. onCtrl (applyChange ops c) n = Ok n' \<and> teleCollects ops n0 (cs @ [c]) n'"
proof -
  obtain tcb' where "applyChange ops c (fst n) = Ok tcb'" using applyChange_paths [of ops c "fst n"] by blast
  with assms show ?thesis
    by (intro exI [of _ "(tcb', snd n)"]) (auto simp: teleCollects_def onCtrl_def applyChanges_snoc)
qed

lemma teleNotifier_steps:
  assumes "teleCollects ops n0 cs n"
  shows "\<exists>n'. cn_Created (teleNotifier ops) p n = Ok n' \<and> teleCollects ops n0 (cs @ [Created p]) n'"
    "\<exists>n'. cn_Replaced (teleNotifier ops) p n = Ok n' \<and> teleCollects ops n0 (cs @ [Replaced p]) n'"
    "\<exists>n'. cn_Deleted (teleNotifier ops) p n = Ok n' \<and> teleCollects ops n0 (cs @ [Deleted p]) n'"
  using teleCollects_step [OF assms, of "Created p"] teleCollects_step [OF assms, of "Replaced p"]
    teleCollects_step [OF assms, of "Deleted p"]
  by (simp_all add: teleNotifier_def onCtrl_def)

lemma teleCollects_start: "teleCollects ops n [] n"
  by (simp add: teleCollects_def)

interpretation tele: change_log "teleNotifier ops" "teleCollects ops"
  by unfold_locales (rule teleCollects_start, erule teleNotifier_steps, erule teleNotifier_steps, erule teleNotifier_steps)

section \<open>Properties\<close>

text \<open>C11: A round of updates of the model, from \<open>UpdateStart\<close> to \<open>UpdateEnd\<close>, refines a round of changes of the telemetry
  control block: the changes are those updates, in order, whose path is known to the schema and parses and which the
  tree accepts. If no event queue is full or closed, \<open>UpdateEnd\<close> completes, gives every subscription that these changes
  concern one event with their paths and the tree of changes, and releases the lock.\<close>

theorem update_round:
  assumes "ue_cn env = Some (teleNotifier ops)" "UpdateStart env m = Some m1" "applyUpdates env us m1 = (m2, Ok ())"
    and "um_notified m = (tcb, qs)"
    and "\<forall>i q. map_get qs i = Some q \<longrightarrow> \<not> ch_closed q \<and> length (ch_buf q) < ch_cap q"
  shows "\<exists>m3 tcb' qs' ur. UpdateEnd env m2 = Completed m3 \<and> \<not> um_locked m3 \<and> um_updatedroot m3 = None
    \<and> um_updatedroot m1 = Some ur \<and> um_notified m3 = (tcb', qs') \<and> lookup tcb' = lookup tcb \<and> ready tcb' = []
    \<and> (\<forall>i q. map_get qs i = Some q \<longrightarrow> map_get qs' i = Some
         (if updatesFor ops (lookup tcb) i (effects env us m1) = [] \<and> deletesFor ops (lookup tcb) i (effects env us m1) = [] then q
          else q\<lparr>ch_buf := ch_buf q @ [\<lparr>ev_sub = i, ev_updatedroot = Some (mo_Root ur),
                   ev_updatedPath = updatesFor ops (lookup tcb) i (effects env us m1),
                   ev_deletedPath = deletesFor ops (lookup tcb) i (effects env us m1)\<rparr>]\<rparr>))"
proof -
  from assms(1,2,4) obtain ur where m1: "um_updatedroot m1 = Some ur" "um_notified m1 = (ChangeStarted tcb, qs)"
    by (auto simp: UpdateStart_def teleNotifier_def split: prod.splits if_splits)
  have c: "teleCollects ops (um_notified m1) (effects env us m1) (um_notified m2)"
    by (rule tele.round_collects [OF assms(1-3)])
  have ur: "um_updatedroot m2 = Some ur"
    using tele.applyUpdates_collects [OF assms(1), of m1 "um_notified m1" "[]" us m2] m1(1) assms(3)
    by (simp add: teleCollects_def)
  from c m1(2) obtain tcb1 where tcb1: "um_notified m2 = (tcb1, qs)" "applyChanges ops (effects env us m1) (ChangeStarted tcb) = Ok tcb1"
    by (cases "um_notified m2") (auto simp: teleCollects_def)
  from round_delivers [OF assms(5), of ops "effects env us m1" tcb "mo_Root ur"] tcb1(2) obtain tcb' qs' where
    d: "ChangeCompleted (mo_Root ur) qs tcb1 = Completed (tcb', qs')" "ready tcb' = []" "lookup tcb' = lookup tcb"
      "\<forall>i q. map_get qs i = Some q \<longrightarrow> map_get qs' i = Some
         (if updatesFor ops (lookup tcb) i (effects env us m1) = [] \<and> deletesFor ops (lookup tcb) i (effects env us m1) = [] then q
          else q\<lparr>ch_buf := ch_buf q @ [\<lparr>ev_sub = i, ev_updatedroot = Some (mo_Root ur),
                   ev_updatedPath = updatesFor ops (lookup tcb) i (effects env us m1),
                   ev_deletedPath = deletesFor ops (lookup tcb) i (effects env us m1)\<rparr>]\<rparr>)" by auto
  have "UpdateEnd env m2 = Completed (release (m2\<lparr>um_notified := (tcb', qs')\<rparr>))"
    using assms(1) ur tcb1(1) d(1) by (simp add: UpdateEnd_def teleNotifier_def)
  with d m1(1) show ?thesis
    by (intro exI [of _ "release (m2\<lparr>um_notified := (tcb', qs')\<rparr>)"] exI [of _ tcb'] exI [of _ qs'] exI [of _ ur])
      (simp add: release_def)
qed

text \<open>A report that blocks keeps the lock of the model, so no other call on the model proceeds.\<close>

lemma UpdateEnd_blocked:
  assumes "UpdateEnd env m = BlockedSending m' i" "um_locked m"
  shows "um_locked m' \<and> UpdateStart env m' = None"
  using assms by (auto simp: UpdateEnd_def UpdateStart_def split: option.splits completion.splits)

definition updPtrs :: "nat schemaPtrs" where
  "updPtrs = \<lparr>sc_find = (\<lambda>x. if x = ''/hostname'' then Some 1 else None), sc_parents = (\<lambda>p. []), sc_below = (\<lambda>p. [])\<rparr>"

type_synonym exTele = "((string, subscribers) gomap, exRef) teleState"

definition updEnvEx :: "(exStore, exRef, nat, (string, bool) gomap, exTele) updEnv" where
  "updEnvEx = \<lparr>ue_lib = deviceLib, ue_ptrs = updPtrs, ue_tops = listTrie, ue_cn = Some (teleNotifier listTrie)\<rparr>"

definition updModelEx :: "(exStore, exRef, nat, (string, bool) gomap, (string, nat) gomap, exTele) updModel" where
  "updModelEx = \<lparr>um_heap = Map.empty, um_MO = deviceMO, um_updatedroot = None, um_sync = None,
     um_notified = (\<lparr>lookup = [(''/hostname'', [(7, 7)])], ready = []\<rparr>, [(7, exQueue 64)]), um_locked = False\<rparr>"

definition updsEx :: "stateUpdate list" where
  "updsEx = [UCreate ''/hostname'' ''r5'', UReplace ''/nowhere'' ''x'', UDelete ''/hostname'']"

lemma device_writeString:
  "WriteStringValue deviceLib deviceMO (Some (leafPath ''hostname'')) ''r5'' h = (h(leafPath ''hostname'' := Some (ValRef ''r5'')), Ok ())"
  by (simp add: WriteStringValue_def WriteStringValueAt_def device_defs asPathOf_def IsDir_def IsLeafList_def writeLeaf_def convert_def
      heap_simps Let_def)

lemma device_delete: "DeleteValue deviceLib deviceMO (Some (leafPath ''hostname'')) h = (h(leafPath ''hostname'' := None), Ok ())"
  by (simp add: DeleteValue_def parentSchema_def device_defs)

lemma hostname_path: "ToGNMIPath ''/hostname'' = Ok (leafPath ''hostname'')"
  using device_path [of "''hostname''"] by simp

lemma upd_start:
  "UpdateStart updEnvEx updModelEx = Some (updModelEx\<lparr>um_locked := True, um_updatedroot := Some deviceMO\<rparr>)"
  by (simp add: UpdateStart_def updEnvEx_def updModelEx_def NewEmptyRoot_def deviceLib_def deviceMO_def teleNotifier_def ChangeStarted_def)

lemma upd_notify:
  "\<exists>n. notify (\<lambda>c. cn_Created c ''/hostname'') (Some (teleNotifier listTrie)) m = (m\<lparr>um_notified := n\<rparr>, Ok ())"
  "\<exists>n. notify (\<lambda>c. cn_Deleted c ''/hostname'') (Some (teleNotifier listTrie)) m = (m\<lparr>um_notified := n\<rparr>, Ok ())"
proof -
  obtain t where "change listTrie CHR ''C'' ''/hostname'' (fst (um_notified m)) = Ok t" using change_total by blast
  then show "\<exists>n. notify (\<lambda>c. cn_Created c ''/hostname'') (Some (teleNotifier listTrie)) m = (m\<lparr>um_notified := n\<rparr>, Ok ())"
    by (intro exI [of _ "(t, snd (um_notified m))"]) (simp add: notify_def teleNotifier_def onCtrl_def ChangeCreated_def)
  obtain t where "change listTrie CHR ''D'' ''/hostname'' (fst (um_notified m)) = Ok t" using change_total by blast
  then show "\<exists>n. notify (\<lambda>c. cn_Deleted c ''/hostname'') (Some (teleNotifier listTrie)) m = (m\<lparr>um_notified := n\<rparr>, Ok ())"
    by (intro exI [of _ "(t, snd (um_notified m))"]) (simp add: notify_def teleNotifier_def onCtrl_def ChangeDeleted_def)
qed

lemma upd_create:
  assumes "um_MO m = deviceMO" "um_updatedroot m = Some deviceMO" "um_sync m = None"
  shows "\<exists>h n. UpdateCreate updEnvEx ''/hostname'' ''r5'' m = (m\<lparr>um_sync := None, um_heap := h, um_notified := n\<rparr>, Ok ())"
proof -
  let ?h = "(um_heap m)(leafPath ''hostname'' := Some (ValRef ''r5''))"
  obtain n where "notify (\<lambda>c. cn_Created c ''/hostname'') (Some (teleNotifier listTrie)) (m\<lparr>um_sync := None, um_heap := ?h\<rparr>)
      = (m\<lparr>um_sync := None, um_heap := ?h, um_notified := n\<rparr>, Ok ())"
    using upd_notify(1) [of "m\<lparr>um_sync := None, um_heap := ?h\<rparr>"] by metis
  then have "UpdateCreate updEnvEx ''/hostname'' ''r5'' m = (m\<lparr>um_sync := None, um_heap := ?h, um_notified := n\<rparr>, Ok ())"
    using assms
    by (simp add: UpdateCreate_def updEnvEx_def updPtrs_def addStateSyncPath_def changeFirstTree_def hostname_path writeUpdate_def
        device_writeString)
  then show ?thesis by blast
qed

lemma upd_delete:
  assumes "um_MO m = deviceMO" "um_sync m = None"
  shows "\<exists>h n. UpdateDelete updEnvEx ''/hostname'' m = (m\<lparr>um_sync := None, um_heap := h, um_notified := n\<rparr>, Ok ())"
proof -
  let ?h = "(um_heap m)(leafPath ''hostname'' := None)"
  obtain n where "notify (\<lambda>c. cn_Deleted c ''/hostname'') (Some (teleNotifier listTrie)) (m\<lparr>um_sync := None, um_heap := ?h\<rparr>)
      = (m\<lparr>um_sync := None, um_heap := ?h, um_notified := n\<rparr>, Ok ())"
    using upd_notify(2) [of "m\<lparr>um_sync := None, um_heap := ?h\<rparr>"] by metis
  then have "UpdateDelete updEnvEx ''/hostname'' m = (m\<lparr>um_sync := None, um_heap := ?h, um_notified := n\<rparr>, Ok ())"
    using assms
    by (simp add: UpdateDelete_def updEnvEx_def updPtrs_def deleteStateSyncPath_def changeFirstTree_def hostname_path device_delete)
  then show ?thesis by blast
qed

lemma upd_run:
  assumes "um_MO m = deviceMO" "um_updatedroot m = Some deviceMO" "um_sync m = None"
  shows "\<exists>m2. applyUpdates updEnvEx updsEx m = (m2, Ok ()) \<and> effects updEnvEx updsEx m = [Created ''/hostname'', Deleted ''/hostname'']"
proof -
  obtain h n where 1: "UpdateCreate updEnvEx ''/hostname'' ''r5'' m = (m\<lparr>um_sync := None, um_heap := h, um_notified := n\<rparr>, Ok ())"
    using upd_create [OF assms] by blast
  let ?m = "m\<lparr>um_sync := None, um_heap := h, um_notified := n\<rparr>"
  have 2: "UpdateReplace updEnvEx ''/nowhere'' ''x'' ?m = (?m, Ok ())"
    by (simp add: UpdateReplace_def updEnvEx_def updPtrs_def)
  have "um_MO ?m = deviceMO" "um_sync ?m = None" using assms by simp_all
  from upd_delete [OF this] obtain h' n' where
    3: "UpdateDelete updEnvEx ''/hostname'' ?m = (?m\<lparr>um_sync := None, um_heap := h', um_notified := n'\<rparr>, Ok ())" by blast
  have "effects updEnvEx updsEx m = [Created ''/hostname'', Deleted ''/hostname'']"
    using 1 2 assms(1)
    by (simp add: updsEx_def knownPath_def hostname_path written_def accepted_def)
      (simp add: updEnvEx_def updPtrs_def device_writeString device_delete)
  moreover have "applyUpdates updEnvEx updsEx m = (?m\<lparr>um_sync := None, um_heap := h', um_notified := n'\<rparr>, Ok ())"
    using 1 2 3 by (simp add: updsEx_def hbind_def hret_def)
  ultimately show ?thesis by blast
qed

theorem update_round_witness:
  "\<exists>m1 m2 m3 tcb' qs'. UpdateStart updEnvEx updModelEx = Some m1 \<and> applyUpdates updEnvEx updsEx m1 = (m2, Ok ())
    \<and> UpdateEnd updEnvEx m2 = Completed m3 \<and> um_notified m3 = (tcb', qs')
    \<and> map_get qs' 7 = Some \<lparr>ch_cap = 64, ch_buf = [\<lparr>ev_sub = 7, ev_updatedroot = Some RootRef,
         ev_updatedPath = [''/hostname''], ev_deletedPath = [''/hostname'']\<rparr>], ch_closed = False\<rparr>"
proof -
  let ?m1 = "updModelEx\<lparr>um_locked := True, um_updatedroot := Some deviceMO\<rparr>"
  let ?tcb = "\<lparr>lookup = [(''/hostname'', [(7, 7)])], ready = []\<rparr> :: ((string, subscribers) gomap, exRef) teleCtrl"
  let ?qs = "[(7, exQueue 64)] :: (TeleID, exRef teleEvent chan) gomap"
  have cn: "ue_cn updEnvEx = Some (teleNotifier listTrie)" by (simp add: updEnvEx_def)
  have n: "um_notified updModelEx = (?tcb, ?qs)" by (simp add: updModelEx_def)
  have room: "\<forall>i q. map_get ?qs i = Some q \<longrightarrow> \<not> ch_closed q \<and> length (ch_buf q) < ch_cap q"
    by (auto simp: exQueue_def split: if_splits)
  obtain m2 where m2: "applyUpdates updEnvEx updsEx ?m1 = (m2, Ok ())"
      and ef: "effects updEnvEx updsEx ?m1 = [Created ''/hostname'', Deleted ''/hostname'']"
    using upd_run [of ?m1] by (auto simp: updModelEx_def)
  have search: "searchPaths ''/hostname'' = [''/hostname'']" by code_simp
  have subs: "subscribersOf listTrie [(''/hostname'', [(7, 7)])] ''/hostname'' = [7]"
    by (simp add: subscribersOf_def listTrie_def HasPrefix_def)
  have paths: "updatesFor listTrie (lookup ?tcb) 7 (effects updEnvEx updsEx ?m1) = [''/hostname'']"
      "deletesFor listTrie (lookup ?tcb) 7 (effects updEnvEx updsEx ?m1) = [''/hostname'']"
    by (simp_all add: ef concerned_def search subs)
  have root: "um_updatedroot ?m1 = Some deviceMO" "mo_Root deviceMO = RootRef" by (simp_all add: deviceMO_def)
  have q: "map_get ?qs 7 = Some (exQueue 64)" by simp
  from update_round [OF cn upd_start m2 n room] obtain m3 tcb' qs' where
    r: "UpdateEnd updEnvEx m2 = Completed m3" "um_notified m3 = (tcb', qs')"
      "\<forall>i q. map_get ?qs i = Some q \<longrightarrow> map_get qs' i = Some
         (if updatesFor listTrie (lookup ?tcb) i (effects updEnvEx updsEx ?m1) = []
            \<and> deletesFor listTrie (lookup ?tcb) i (effects updEnvEx updsEx ?m1) = [] then q
          else q\<lparr>ch_buf := ch_buf q @ [\<lparr>ev_sub = i, ev_updatedroot = Some RootRef,
                   ev_updatedPath = updatesFor listTrie (lookup ?tcb) i (effects updEnvEx updsEx ?m1),
                   ev_deletedPath = deletesFor listTrie (lookup ?tcb) i (effects updEnvEx updsEx ?m1)\<rparr>]\<rparr>)"
    using root by auto
  have "map_get qs' 7 = Some \<lparr>ch_cap = 64, ch_buf = [\<lparr>ev_sub = 7, ev_updatedroot = Some RootRef,
         ev_updatedPath = [''/hostname''], ev_deletedPath = [''/hostname'']\<rparr>], ch_closed = False\<rparr>"
    using r(3) [rule_format, OF q] unfolding paths by (simp add: exQueue_def)
  with upd_start m2 r(1,2) show ?thesis by blast
qed

end
