(* ===== verification/ModelObject.thy ===== *)
theory ModelObject
  imports TypeUpdate ModelUpdate
begin

text \<open>
  Making a model: \<open>NewMO\<close>, the accessors, the names of encodings and the exports of \<open>gnmi/model/mo.go\<close>, and \<open>NewCustomModel\<close>
  and \<open>SupportedModels\<close> of \<open>gnmi/model/model.go\<close>.
\<close>

section \<open>The modelled object\<close>

text \<open>A \<open>ytypes.Schema\<close>, which an \<open>MO\<close> is: the root, the struct type that the pointer to it points to, and the schema by type name.\<close>

record 'v ytypesSchema =
  ys_Root :: 'v
  ys_RootType :: gotype
  ys_SchemaTree :: "(string, yentry) gomap"

text \<open>\<open>schema\<close> is the generated function \<open>Schema\<close>. Its result is the object; the types are not updated.\<close>

definition NewMO :: "string + 'v ytypesSchema \<Rightarrow> (string, 'v ytypesSchema) result" where
  "NewMO schema = (case schema of Inl err \<Rightarrow> Failed err | Inr s \<Rightarrow> Ok s)"

definition GetRootType :: "'v ytypesSchema \<Rightarrow> gotype" where
  "GetRootType mo = ys_RootType mo"

definition GetRoot :: "'v ytypesSchema \<Rightarrow> 'v" where
  "GetRoot mo = ys_Root mo"

definition RootSchema :: "'v ytypesSchema \<Rightarrow> yentry option" where
  "RootSchema mo = map_get (ys_SchemaTree mo) (typeName (GetRootType mo))"

definition GetSchema :: "'v ytypesSchema \<Rightarrow> yentry option" where
  "GetSchema mo = RootSchema mo"

definition GetName :: "'v ytypesSchema \<Rightarrow> string" where
  "GetName mo = (case GetSchema mo of None \<Rightarrow> ''unknown'' | Some rootSchema \<Rightarrow> en_Name rootSchema)"

text \<open>The views of the other theories: the schema for searches, and the object for writes, if the root has a schema.\<close>

definition asSchemaModel :: "modelData list \<Rightarrow> 'v ytypesSchema \<Rightarrow> schemaModel" where
  "asSchemaModel modelData mo = \<lparr>SchemaTree = ys_SchemaTree mo, rootType = ys_RootType mo, supported = modelData\<rparr>"

definition asMO :: "'v ytypesSchema \<Rightarrow> 'v MO option" where
  "asMO mo = map_option (\<lambda>entry. \<lparr>mo_Schema = entry, mo_Root = ys_Root mo, mo_RootType = ys_RootType mo\<rparr>) (GetSchema mo)"

lemma asMO_schema:
  assumes "asMO mo = Some o'" "ys_RootType mo = TStruct n fs"
  shows "FindSchemaByType (asSchemaModel mds mo) (rootType (asSchemaModel mds mo)) = Some (mo_Schema o')"
    and "GetName mo = en_Name (mo_Schema o')"
  using assms
  by (auto simp: asMO_def asSchemaModel_def FindSchemaByType_def GetSchema_def RootSchema_def GetRootType_def GetName_def)

section \<open>Schema of a value, schema from an entry\<close>

text \<open>\<open>FindSchema\<close> of a value; a nil value has no type.\<close>

definition FindSchema :: "schemaModel \<Rightarrow> gval option \<Rightarrow> yentry option" where
  "FindSchema m v = (case v of None \<Rightarrow> None | Some w \<Rightarrow> map_get (SchemaTree m) (valTypeName w))"

text \<open>The function \<open>FindSchemaByGNMIPath\<close> of \<open>utilities.go\<close>: \<open>Dir\<close> of a nil entry is read if there is an element.\<close>

definition FindSchemaFrom :: "yentry option \<Rightarrow> gpath option \<Rightarrow> ('e, yentry option) result" where
  "FindSchemaFrom baseSchema path =
     (case baseSchema of
        None \<Rightarrow> if GetElem path = [] then Ok None else Panics NilDereference
      | Some entry \<Rightarrow> Ok (findSchema entry (GetElem path)))"

lemma FindSchemaFrom_root:
  assumes "FindSchemaByType m (rootType m) = Some entry"
  shows "FindSchemaFrom (Some entry) path = Ok (FindSchemaByGNMIPath m path)"
  using assms by (auto simp: FindSchemaFrom_def FindSchemaByGNMIPath_def FindSchemaByRelativeGNMIPath_def GetElem_def split: option.split)

text \<open>\<open>DataAndPath.String\<close>: \<open>isScalar\<close> tells of the dynamic type of the value, nil included; \<open>enc\<close> as for \<open>GetValueString\<close>.\<close>

definition DataAndPath_String :: "(gval option \<Rightarrow> bool) \<Rightarrow> (gval \<Rightarrow> string option) \<Rightarrow> DataAndPath \<Rightarrow> string" where
  "DataAndPath_String isScalar enc dap =
     (if isScalar (d_Value dap) then
        d_Path dap @ ''='' @ (case d_Value dap of None \<Rightarrow> [] | Some v \<Rightarrow> (case enc v of None \<Rightarrow> [] | Some s \<Rightarrow> s))
      else d_Path dap)"

lemma DataAndPath_String_value:
  assumes "isScalar (d_Value dap)"
  shows "DataAndPath_String isScalar enc dap = d_Path dap @ ''='' @ GetValueString (isScalar \<circ> Some) enc dap"
  using assms by (cases "d_Value dap") (simp_all add: DataAndPath_String_def GetValueString_def)

section \<open>Encodings\<close>

text \<open>\<open>Encoding\<close> is an \<open>int32\<close>; the two tables have the constants of the package. Other numbers have no name.\<close>

definition encoding_name :: "(32 word, string) gomap" where
  "encoding_name = [(0, ''JSON''), (4, ''JSON_IETF''), (5, ''YAML'')]"

definition encoding_value :: "(string, 32 word) gomap" where
  "encoding_value = [(''JSON'', 0), (''JSON_IETF'', 4), (''YAML'', 5)]"

definition Encoding_String :: "32 word \<Rightarrow> string" where
  "Encoding_String x = (case map_get encoding_name x of None \<Rightarrow> [] | Some n \<Rightarrow> n)"

fun encodingNumber :: "Encoding \<Rightarrow> 32 word" where
  "encodingNumber Encoding_JSON = 0"
| "encodingNumber Encoding_JSON_IETF = 4"
| "encodingNumber Encoding_YAML = 5"

lemma encoding_tables: "map_get encoding_value n = Some x \<longleftrightarrow> map_get encoding_name x = Some n"
  by (auto simp: encoding_value_def encoding_name_def split: if_splits)

lemma encoding_named: "map_get encoding_value (Encoding_String (encodingNumber e)) = Some (encodingNumber e)"
  by (cases e) (simp_all add: Encoding_String_def encoding_value_def encoding_name_def)

section \<open>Export\<close>

text \<open>The functions of \<open>ygot\<close> that build a JSON object from a tree, and \<open>json.MarshalIndent\<close>.\<close>

record ('h, 'v, 'j) exportLib =
  ex_IETFJSON :: "'h \<Rightarrow> 'v \<Rightarrow> string + 'j"
  ex_InternalJSON :: "'h \<Rightarrow> 'v \<Rightarrow> string + 'j"
  ex_MarshalIndent :: "'j \<Rightarrow> string + string"

definition Export :: "('h, 'v, 'j) exportLib \<Rightarrow> bool \<Rightarrow> 'h \<Rightarrow> 'v ytypesSchema \<Rightarrow> (serr, 'j) result" where
  "Export lib rfc7951json h mo =
     (case (if rfc7951json then ex_IETFJSON lib h (GetRoot mo) else ex_InternalJSON lib h (GetRoot mo)) of
        Inl err \<Rightarrow> Failed (Tagged Internal TagBadData)
      | Inr jm \<Rightarrow> Ok jm)"

definition ExportToJSON :: "('h, 'v, 'j) exportLib \<Rightarrow> bool \<Rightarrow> 'h \<Rightarrow> 'v ytypesSchema \<Rightarrow> (serr, string) result" where
  "ExportToJSON lib rfc7951json h mo =
     (case (if rfc7951json then ex_IETFJSON lib h (GetRoot mo) else ex_InternalJSON lib h (GetRoot mo)) of
        Inl err \<Rightarrow> Failed (Tagged Internal TagBadData)
      | Inr jm \<Rightarrow>
          (case ex_MarshalIndent lib jm of
             Inl err \<Rightarrow> Failed (Tagged Internal TagBadData)
           | Inr b \<Rightarrow> Ok b))"

lemma ExportToJSON_Export:
  "ExportToJSON lib rfc h mo = Ok b \<longleftrightarrow> (\<exists>jm. Export lib rfc h mo = Ok jm \<and> ex_MarshalIndent lib jm = Inr b)"
  by (auto simp: ExportToJSON_def Export_def split: sum.splits)

section \<open>The model\<close>

text \<open>
  A fresh model: the object, the supported models, the interfaces and the sync paths. A missing \<open>StateConfig\<close> or \<open>StateSync\<close>
  is only reported; \<open>'ss\<close> has \<open>UpdateSyncPath\<close>, which \<open>initStateSync\<close> asks.
\<close>

record ('v, 'p, 't, 's, 'cn, 'sc, 'ss) newModel =
  nm_MO :: "'v ytypesSchema"
  nm_modelData :: "modelData list"
  nm_StateConfig :: "'sc option"
  nm_StateSync :: "'ss option"
  nm_ChangeNotification :: "'cn option"
  nm_sync :: "('p, 't, 's) stateSyncs option"

definition NewCustomModel ::
    "'p schemaPtrs \<Rightarrow> ('t, bool) trieOps \<Rightarrow> ('s, nat) trieOps \<Rightarrow> ('ss \<Rightarrow> string list) \<Rightarrow> string + 'v ytypesSchema \<Rightarrow> modelData list
     \<Rightarrow> 'cn option \<Rightarrow> 'sc option \<Rightarrow> 'ss option \<Rightarrow> (serr, ('v, 'p, 't, 's, 'cn, 'sc, 'ss) newModel) result" where
  "NewCustomModel ptrs tops sops UpdateSyncPath schema modelData cn sc ss =
     (case NewMO schema of
        Inl (Err err) \<Rightarrow> Failed (Tagged Internal TagOperationFail)
      | Inl (Panic p) \<Rightarrow> Panics p
      | Inr mo \<Rightarrow>
          Ok \<lparr>nm_MO = mo, nm_modelData = modelData, nm_StateConfig = sc, nm_StateSync = ss, nm_ChangeNotification = cn,
              nm_sync = initStateSync ptrs tops sops (map_option UpdateSyncPath ss)\<rparr>)"

text \<open>\<open>NewModel\<close> is the instance for the generated package \<open>gostruct\<close>, whose function and list are the arguments.\<close>

definition NewModel ::
    "'p schemaPtrs \<Rightarrow> ('t, bool) trieOps \<Rightarrow> ('s, nat) trieOps \<Rightarrow> ('ss \<Rightarrow> string list) \<Rightarrow> (string + 'v ytypesSchema) \<times> modelData list
     \<Rightarrow> 'cn option \<Rightarrow> 'sc option \<Rightarrow> 'ss option \<Rightarrow> (serr, ('v, 'p, 't, 's, 'cn, 'sc, 'ss) newModel) result" where
  "NewModel ptrs tops sops UpdateSyncPath gostruct cn sc ss =
     NewCustomModel ptrs tops sops UpdateSyncPath (fst gostruct) (snd gostruct) cn sc ss"

definition SupportedModels :: "modelData list \<Rightarrow> string list" where
  "SupportedModels modelData = sort (map (\<lambda>m. md_Name m @ '' '' @ md_Version m) modelData)"

text \<open>A model without the interface for syncs has no table of sync paths, and a model with it has one for each path with a schema.\<close>

lemma NewCustomModel_sync:
  assumes "NewCustomModel ptrs tops sops usp schema mds cn sc ss = Ok m"
  shows "nm_sync m = None \<longleftrightarrow> ss = None" and "nm_MO m = projr schema"
  using assms by (auto simp: NewCustomModel_def NewMO_def initStateSync_def split: sum.splits exn.splits option.splits)

end
