(* ===== verification/Daemon.thy ===== *)
theory Daemon
  imports Server Login ModelObject
begin

text \<open>
  The command \<open>gnmid\<close>, \<open>gnmid/main.go\<close>, and the credentials of both sides, \<open>utilities/server/credentials\<close> and
  \<open>utilities/client/credentials\<close>. A call of \<open>glog.Exit\<close> ends the process and is the failure with its text.
\<close>

section \<open>Certificates\<close>

record ('c, 'p) tlsLib =
  tl_LoadX509KeyPair :: "string \<Rightarrow> string \<Rightarrow> string + 'c"
  tl_ReadFile :: "string \<Rightarrow> string + string"
  tl_AppendCertsFromPEM :: "string \<Rightarrow> 'p option"

text \<open>The body that both packages have, with their texts.\<close>

definition loadFiles ::
    "('c, 'p) tlsLib \<Rightarrow> string \<Rightarrow> string \<Rightarrow> string \<Rightarrow> string \<Rightarrow> string \<Rightarrow> (string, 'c list \<times> 'p) result" where
  "loadFiles lib unset noPair cafile certfile keyfile =
     (if cafile = [] \<or> certfile = [] \<or> keyfile = [] then Failed unset
      else
        (case tl_LoadX509KeyPair lib certfile keyfile of
           Inl err \<Rightarrow> Failed (noPair @ err)
         | Inr certificate \<Rightarrow>
             (case tl_ReadFile lib cafile of
                Inl err \<Rightarrow> Failed (''could not read CA certificate: '' @ err)
              | Inr caFile \<Rightarrow>
                  (case tl_AppendCertsFromPEM lib caFile of
                     None \<Rightarrow> Failed ''failed to append CA certificate''
                   | Some certPool \<Rightarrow> Ok ([certificate], certPool)))))"

section \<open>Credentials of the server\<close>

record serverFlags =
  sf_caCert :: string
  sf_serverCert :: string
  sf_serverKey :: string
  sf_skipVerify :: bool
  sf_notls :: bool

datatype clientAuthType = VerifyClientCertIfGiven | RequireAndVerifyClient

record ('c, 'p) serverTLS =
  st_ClientAuth :: clientAuthType
  st_Certificates :: "'c list"
  st_ClientCAs :: 'p

datatype ('c, 'p) grpcOption = Creds "('c, 'p) serverTLS" | WithUnaryInterceptor | WithStreamInterceptor

definition Server_LoadCertificates :: "('c, 'p) tlsLib \<Rightarrow> string \<Rightarrow> string \<Rightarrow> string \<Rightarrow> (string, 'c list \<times> 'p) result" where
  "Server_LoadCertificates lib =
     loadFiles lib ''ca-cert, sever-cert and server-key must be configured for TLS connection'' ''could not load key pair: ''"

definition ServerCredentials ::
    "('c, 'p) tlsLib \<Rightarrow> serverFlags \<Rightarrow> string \<Rightarrow> string \<Rightarrow> string \<Rightarrow> bool \<Rightarrow> bool \<Rightarrow> (string, ('c, 'p) grpcOption list) result" where
  "ServerCredentials lib flags cafile certfile keyfile skipVerifyTLS noTLS =
     (if sf_notls flags \<or> noTLS then Ok []
      else
        (case Server_LoadCertificates lib
             (if cafile = [] then sf_caCert flags else cafile)
             (if certfile = [] then sf_serverCert flags else certfile)
             (if keyfile = [] then sf_serverKey flags else keyfile) of
           Inl e \<Rightarrow> Inl e
         | Inr (certificates, certPool) \<Rightarrow>
             Ok [Creds \<lparr>st_ClientAuth = (if sf_skipVerify flags \<or> skipVerifyTLS then VerifyClientCertIfGiven else RequireAndVerifyClient),
                        st_Certificates = certificates, st_ClientCAs = certPool\<rparr>]))"

section \<open>Credentials of the client\<close>

record userCredentials =
  uc_username :: string
  uc_password :: string

record clientFlags =
  cf_ca :: string
  cf_cert :: string
  cf_key :: string
  cf_insecure :: bool
  cf_notls :: bool
  cf_authorizedUser :: userCredentials

definition GetRequestMetadata :: "userCredentials \<Rightarrow> (string, string) gomap" where
  "GetRequestMetadata a = [(''username'', uc_username a), (''password'', uc_password a)]"

definition RequireTransportSecurity :: "userCredentials \<Rightarrow> bool" where
  "RequireTransportSecurity a = True"

record ('c, 'p) clientConfig =
  cc_InsecureSkipVerify :: bool
  cc_ServerName :: string
  cc_Certificates :: "'c list"
  cc_RootCAs :: "'p option"

datatype ('c, 'p) dialOption =
    WithInsecure
  | WithTransportCredentials "('c, 'p) clientConfig"
  | WithPerRPCCredentials userCredentials

definition Client_LoadCertificates :: "('c, 'p) tlsLib \<Rightarrow> clientFlags \<Rightarrow> (string, 'c list \<times> 'p) result" where
  "Client_LoadCertificates lib flags =
     loadFiles lib ''-ca -cert and -key must be set with file locations'' ''could not load client key pair: ''
       (cf_ca flags) (cf_cert flags) (cf_key flags)"

definition transportOption :: "('c, 'p) tlsLib \<Rightarrow> clientFlags \<Rightarrow> string \<Rightarrow> (string, ('c, 'p) dialOption) result" where
  "transportOption lib flags server =
     (if cf_notls flags then Ok WithInsecure
      else if cf_insecure flags then
        Ok (WithTransportCredentials \<lparr>cc_InsecureSkipVerify = True, cc_ServerName = [], cc_Certificates = [], cc_RootCAs = None\<rparr>)
      else
        (case Client_LoadCertificates lib flags of
           Inl e \<Rightarrow> Inl e
         | Inr (certificates, certPool) \<Rightarrow>
             Ok (WithTransportCredentials \<lparr>cc_InsecureSkipVerify = False, cc_ServerName = server,
               cc_Certificates = certificates, cc_RootCAs = Some certPool\<rparr>)))"

definition ClientCredentials :: "('c, 'p) tlsLib \<Rightarrow> clientFlags \<Rightarrow> string \<Rightarrow> (string, ('c, 'p) dialOption list) result" where
  "ClientCredentials lib flags server =
     (case transportOption lib flags server of
        Inl e \<Rightarrow> Inl e
      | Inr opt \<Rightarrow>
          if uc_username (cf_authorizedUser flags) \<noteq> [] then Ok [opt, WithPerRPCCredentials (cf_authorizedUser flags)]
          else Ok [opt])"

section \<open>The datablock\<close>

text \<open>
  The callbacks of the server write to \<open>ydb\<close>, whose answer to a call may depend on the calls before it. The start and the end
  of an update are not passed on.
\<close>

datatype ydbCall = WriteTo string string | DeleteFrom string | SyncTo "string list"

fun ydbCallOf :: "cfgEvent \<Rightarrow> ydbCall option" where
  "ydbCallOf (CfgCreate path v) = Some (WriteTo path v)"
| "ydbCallOf (CfgReplace path v) = Some (WriteTo path v)"
| "ydbCallOf (CfgDelete path) = Some (DeleteFrom path)"
| "ydbCallOf CfgStart = None"
| "ydbCallOf CfgEnd = None"

definition datablock :: "(ydbCall list \<Rightarrow> ydbCall \<Rightarrow> string option) \<Rightarrow> stateConfig" where
  "datablock ydb log ev = (case ydbCallOf ev of None \<Rightarrow> None | Some c \<Rightarrow> ydb (List.map_filter ydbCallOf log) c)"

definition UpdateSync :: "(ydbCall list \<Rightarrow> ydbCall \<Rightarrow> string option) \<Rightarrow> ydbCall list \<Rightarrow> string list \<Rightarrow> string option" where
  "UpdateSync ydb log path = ydb log (SyncTo path)"

text \<open>\<open>newDatablock\<close>: \<open>created\<close> and \<open>connected\<close> are the answers of \<open>ydb.New\<close> and \<open>Connect\<close>.\<close>

definition newDatablock :: "bool \<Rightarrow> string option \<Rightarrow> (string, unit) result" where
  "newDatablock created connected =
     (if \<not> created then Failed ''datablock creation failed''
      else (case connected of Some err \<Rightarrow> Failed (''failed to listen: '' @ err) | None \<Rightarrow> Ok ()))"

section \<open>The server of the command\<close>

record daemonFlags =
  df_bindAddr :: string
  df_startup :: string
  df_startupYAML :: string
  df_help :: bool
  df_syncPaths :: "string list"

definition UpdateSyncPath :: "daemonFlags \<Rightarrow> string list" where
  "UpdateSyncPath flags = df_syncPaths flags"

text \<open>One of the two start-up files, if its flag is set.\<close>

definition startupOption :: "(string \<Rightarrow> string + string) \<Rightarrow> Encoding \<Rightarrow> string \<Rightarrow> (string, 'ss serverOption list) result" where
  "startupOption ReadFile encoding file =
     (if file = [] then Ok []
      else (case ReadFile file of Inl err \<Rightarrow> Failed err | Inr startbyte \<Rightarrow> Ok [Startup encoding startbyte]))"

definition serverOptions ::
    "(string \<Rightarrow> string + string) \<Rightarrow> daemonFlags \<Rightarrow> stateConfig \<Rightarrow> (string, string list serverOption list) result" where
  "serverOptions ReadFile flags db =
     (case startupOption ReadFile Encoding_JSON_IETF (df_startup flags) of
        Inl e \<Rightarrow> Inl e
      | Inr json \<Rightarrow>
          (case startupOption ReadFile Encoding_YAML (df_startupYAML flags) of
             Inl e \<Rightarrow> Inl e
           | Inr yaml \<Rightarrow> Ok (json @ yaml @ [Callback (Some db) (Some (UpdateSyncPath flags))])))"

text \<open>
  The server with its datablock: \<open>ds_Target\<close> is whether \<open>SetTarget\<close> has made the model the target of what arrives at the
  datablock. Every error closes the datablock before it is returned, except that a failure of \<open>newDatablock\<close> ends the
  process; the \<open>bool\<close> beside the result is whether the datablock is open.
\<close>

datatype daemonError = DatablockExit string | FileError string | ServerError serr

record ('h, 'v) daemonServer =
  ds_Server :: "('h, 'v, string list) server"
  ds_Target :: bool

definition NewServer ::
    "('h, 'v) setEnv \<Rightarrow> ((string, DataAndPath) gomap \<Rightarrow> (string, DataAndPath) gomap) \<Rightarrow> ('h \<Rightarrow> 'h \<times> (string + 'v MO))
     \<Rightarrow> (string \<Rightarrow> string + string) \<Rightarrow> daemonFlags \<Rightarrow> bool \<Rightarrow> string option \<Rightarrow> (ydbCall list \<Rightarrow> ydbCall \<Rightarrow> string option) \<Rightarrow> 'h
     \<Rightarrow> 'h \<times> bool \<times> (daemonError, ('h, 'v) daemonServer) result" where
  "NewServer env order schema ReadFile flags created connected ydb h =
     (case newDatablock created connected of
        Inl (Err e) \<Rightarrow> (h, False, Failed (DatablockExit e))
      | Inl (Panic p) \<Rightarrow> (h, False, Panics p)
      | Inr u \<Rightarrow>
          (case serverOptions ReadFile flags (datablock ydb) of
             Inl (Err err) \<Rightarrow> (h, False, Failed (FileError err))
           | Inl (Panic p) \<Rightarrow> (h, True, Panics p)
           | Inr opts \<Rightarrow>
               (case NewCustomServer env order schema h opts of
                  (h', Inl (Err e)) \<Rightarrow> (h', False, Failed (ServerError e))
                | (h', Inl (Panic p)) \<Rightarrow> (h', True, Panics p)
                | (h', Inr s) \<Rightarrow> (h', True, Ok \<lparr>ds_Server = s, ds_Target = True\<rparr>))))"

text \<open>The options that \<open>main\<close> gives the gRPC server: the credentials, then both interceptors.\<close>

definition grpcOptions :: "('c, 'p) tlsLib \<Rightarrow> serverFlags \<Rightarrow> (string, ('c, 'p) grpcOption list) result" where
  "grpcOptions lib flags =
     (case ServerCredentials lib flags [] [] [] False False of
        Inl e \<Rightarrow> Inl e
      | Inr opts \<Rightarrow> Ok (opts @ [WithUnaryInterceptor, WithStreamInterceptor]))"

text \<open>
  \<open>main\<close> up to \<open>Serve\<close>: the server, its options and the listening socket. \<open>Exit\<close> runs no deferred call, so the datablock stays
  open when it is reached after \<open>NewServer\<close>; the \<open>bool\<close> again says so.
\<close>

datatype 'a daemonEnd = Usage | Exited string bool | ExitedWith serr bool | Crashed panic | Serving 'a

definition daemon_main ::
    "('c, 'p) tlsLib \<Rightarrow> serverFlags \<Rightarrow> ('h, 'v) setEnv \<Rightarrow> ((string, DataAndPath) gomap \<Rightarrow> (string, DataAndPath) gomap)
     \<Rightarrow> ('h \<Rightarrow> 'h \<times> (string + 'v MO)) \<Rightarrow> daemonFlags \<Rightarrow> bool \<Rightarrow> string option \<Rightarrow> (ydbCall list \<Rightarrow> ydbCall \<Rightarrow> string option)
     \<Rightarrow> (string \<Rightarrow> string option \<times> 's netState) \<Rightarrow> 'h \<Rightarrow> (('h, 'v) daemonServer \<times> ('c, 'p) grpcOption list \<times> 's netState) daemonEnd" where
  "daemon_main lib sflags env order schema flags created connected ydb net h =
     (if df_help flags then Usage
      else
        (case NewServer env order schema (tl_ReadFile lib) flags created connected ydb h of
           (h', opened, Inl (Err (DatablockExit e))) \<Rightarrow> Exited e opened
         | (h', opened, Inl (Err (FileError e))) \<Rightarrow> Exited e opened
         | (h', opened, Inl (Err (ServerError e))) \<Rightarrow> ExitedWith e opened
         | (h', opened, Inl (Panic p)) \<Rightarrow> Crashed p
         | (h', opened, Inr s) \<Rightarrow>
             (case grpcOptions lib sflags of
                Inl (Err e) \<Rightarrow> Exited e opened
              | Inl (Panic p) \<Rightarrow> Crashed p
              | Inr opts \<Rightarrow>
                  (case net (df_bindAddr flags) of
                     (addr, ns) \<Rightarrow>
                       (case Listen addr ns of
                          Inl (Err e) \<Rightarrow> ExitedWith e opened
                        | Inl (Panic p) \<Rightarrow> Crashed p
                        | Inr ns' \<Rightarrow> Serving (s, opts, ns'))))))"

section \<open>Facts\<close>

text \<open>With both files given, the second one has to be readable, but is never loaded: the first option wins.\<close>

lemma startup_json_first:
  assumes "serverOptions ReadFile flags db = Ok opts" "df_startup flags \<noteq> []"
  shows "\<exists>text. ReadFile (df_startup flags) = Inr text \<and> hasStartup opts = Some (Encoding_JSON_IETF, text)"
    and "df_startupYAML flags \<noteq> [] \<Longrightarrow> \<exists>yaml. ReadFile (df_startupYAML flags) = Inr yaml"
    and "hasSetCallback opts = Some db"
  using assms by (auto simp: serverOptions_def startupOption_def split: sum.splits if_splits)

text \<open>The server that is served writes to \<open>ydb\<close>, and every call to it passes an interceptor.\<close>

lemma daemon_serves:
  assumes "daemon_main lib sflags env order schema flags created connected ydb net h = Serving (s, opts, ns)"
  shows "WithUnaryInterceptor \<in> set opts" "WithStreamInterceptor \<in> set opts" "created" "connected = None" "ds_Target s"
  using assms
  by (auto simp: daemon_main_def NewServer_def grpcOptions_def newDatablock_def split: if_splits sum.splits exn.splits prod.splits daemonError.splits option.splits)

lemma trimColons_username: "trimColons ''username'' = ''username''" "trimColons ''password'' = ''password''"
  by (simp_all add: trimColons_def)

lemma copyHeaders_get:
  assumes "\<And>k' v. (k', v) \<in> set hs \<Longrightarrow> v \<noteq> [] \<and> (trimColons k' = k \<longrightarrow> k' = k)" "map_ok hs" "trimColons k = k"
  shows "\<exists>m'. copyHeaders hs m = (Ok m' :: ('e, (string, string) gomap) result) \<and> map_get m' k = (case map_get hs k of Some v \<Rightarrow> Some (hd v) | None \<Rightarrow> map_get m k)"
  using assms
proof (induction hs arbitrary: m)
  case (Cons h hs)
  obtain k' v where h: "h = (k', v)" by fastforce
  from Cons.prems(1) [of k' v] h obtain x xs where v: "v = x # xs" "trimColons k' = k \<longrightarrow> k' = k"
    by (cases v) auto
  have "map_ok hs" "k' \<notin> fst ` set hs" using Cons.prems(2) h by (auto simp: map_ok_def)
  with Cons.IH [of "map_put (trimColons k') x m"] Cons.prems(1,3) obtain m' where
    "copyHeaders hs (map_put (trimColons k') x m) = (Ok m' :: ('e, (string, string) gomap) result)"
    "map_get m' k = (case map_get hs k of Some v \<Rightarrow> Some (hd v) | None \<Rightarrow> map_get (map_put (trimColons k') x m) k)"
    by auto
  moreover have "map_get hs k' = None" using \<open>k' \<notin> fst ` set hs\<close> by (simp add: map_of_eq_None_iff)
  ultimately show ?case using h v Cons.prems(3) by (auto simp: gomap_simps split: option.splits)
qed simp

text \<open>The metadata that the server sees for the keys of the login: the headers, and nothing from the peer.\<close>

definition headerAs :: "(string, string list) gomap \<Rightarrow> string \<Rightarrow> bool" where
  "headerAs hs k = (\<forall>(k', v) \<in> set hs. v \<noteq> [] \<and> (trimColons k' = k \<longrightarrow> k' = k))"

lemma addr_parts:
  assumes "CHR '':'' \<in> set a"
  shows "\<exists>host port. addrHost a = (Ok host :: ('e, string) result) \<and> addrPort a = (Ok port :: ('e, string) result)"
proof -
  from assms obtain i where "LastIndexByte a CHR '':'' = Some i" using LastIndexByte_None [of a] by fastforce
  moreover from LastIndexByte_bound [OF this] have "i < length a" .
  ultimately show ?thesis by (simp add: addrHost_def addrPort_def slice_def)
qed

lemma GetMetadata_login:
  assumes "map_ok hs" "headerAs hs ''username''" "headerAs hs ''password''" "CHR '':'' \<in> set (peer_Addr p)"
  shows "\<exists>meta. GetMetadata \<lparr>cx_headers = Some hs, cx_peer = Some p\<rparr> = (Ok (meta, True) :: ('e, (string, string) gomap \<times> bool) result)
    \<and> map_get meta ''username'' = map_option hd (map_get hs ''username'')
    \<and> map_get meta ''password'' = map_option hd (map_get hs ''password'')"
proof -
  from assms(2) have "\<exists>m'. copyHeaders hs [] = (Ok m' :: ('e, (string, string) gomap) result) \<and> map_get m' ''username'' = (case map_get hs ''username'' of Some v \<Rightarrow> Some (hd v) | None \<Rightarrow> map_get [] ''username'')"
    by (intro copyHeaders_get) (auto simp: headerAs_def assms(1) trimColons_username)
  moreover from assms(3) have "\<exists>m'. copyHeaders hs [] = (Ok m' :: ('e, (string, string) gomap) result) \<and> map_get m' ''password'' = (case map_get hs ''password'' of Some v \<Rightarrow> Some (hd v) | None \<Rightarrow> map_get [] ''password'')"
    by (intro copyHeaders_get) (auto simp: headerAs_def assms(1) trimColons_username)
  moreover from addr_parts [OF assms(4)] obtain host port where "addrHost (peer_Addr p) = (Ok host :: ('e, string) result)" "addrPort (peer_Addr p) = (Ok port :: ('e, string) result)"
    by blast
  ultimately show ?thesis by (auto simp: GetMetadata_def Let_def gomap_simps split: option.splits)
qed

section \<open>Logging in with the credentials of the client\<close>

text \<open>The user of a list of dial options, and what its metadata has for a key.\<close>

fun perRPCUser :: "('c, 'p) dialOption list \<Rightarrow> userCredentials option" where
  "perRPCUser [] = None"
| "perRPCUser (WithPerRPCCredentials u # opts) = Some u"
| "perRPCUser (_ # opts) = perRPCUser opts"

definition headerText :: "string \<Rightarrow> bool" where
  "headerText s = list_all (\<lambda>c. CHR ''!'' \<le> c \<and> c \<le> CHR ''~'') s"

text \<open>
  What gRPC documents of a client: it refuses credentials that need transport security on a connection without it; and
  otherwise a call carries, among its headers, the metadata of the credentials as they are, if they are printable
  characters. The other headers have other names; \<open>None\<close> is a call that is not made.
\<close>

definition grpcSends :: "(('c, 'p) dialOption list \<Rightarrow> (string, string list) gomap option) \<Rightarrow> bool" where
  "grpcSends send =
     ((\<forall>opts u. WithInsecure \<in> set opts \<and> WithPerRPCCredentials u \<in> set opts \<and> RequireTransportSecurity u \<longrightarrow> send opts = None)
      \<and> (\<forall>opts hs. send opts = Some hs
           \<longrightarrow> (case perRPCUser opts of None \<Rightarrow> True | Some u \<Rightarrow> headerText (uc_username u) \<and> headerText (uc_password u))
           \<longrightarrow> map_ok hs \<and> (\<forall>k \<in> {''username'', ''password''}. headerAs hs k
             \<and> map_get hs k = map_option (\<lambda>v. [v]) (Option.bind (perRPCUser opts) (\<lambda>u. map_get (GetRequestMetadata u) k)))))"

lemma perRPCUser_ClientCredentials:
  assumes "ClientCredentials lib flags server = Ok opts"
  shows "perRPCUser opts = (if uc_username (cf_authorizedUser flags) \<noteq> [] then Some (cf_authorizedUser flags) else None)"
    and "cf_notls flags \<Longrightarrow> WithInsecure \<in> set opts"
    and "uc_username (cf_authorizedUser flags) \<noteq> [] \<Longrightarrow> WithPerRPCCredentials (cf_authorizedUser flags) \<in> set opts"
proof -
  from assms obtain opt where opt: "transportOption lib flags server = Ok opt"
      "opts = (if uc_username (cf_authorizedUser flags) \<noteq> [] then [opt, WithPerRPCCredentials (cf_authorizedUser flags)] else [opt])"
    by (auto simp: ClientCredentials_def split: sum.splits if_splits)
  have "perRPCUser (opt # r) = perRPCUser r" for r
    using opt(1) by (auto simp: transportOption_def split: if_splits sum.splits)
  with opt(2) show "perRPCUser opts = (if uc_username (cf_authorizedUser flags) \<noteq> [] then Some (cf_authorizedUser flags) else None)"
    by simp
  show "WithInsecure \<in> set opts" if "cf_notls flags" using opt that by (auto simp: transportOption_def)
  show "WithPerRPCCredentials (cf_authorizedUser flags) \<in> set opts" if "uc_username (cf_authorizedUser flags) \<noteq> []"
    using opt(2) that by simp
qed

section \<open>Properties\<close>

text \<open>C14: A call of a client that dials with the options of the credentials package is let in by the interceptors of
  \<open>gnmid\<close> exactly if a user name is set and the user has the password, or the password is the cheat code and the
  user exists. A client without TLS is never let in: with a user name its calls are not made, since the
  credentials need transport security, and without one they carry none.\<close>

theorem client_login:
  assumes grpc: "grpcSends send" and opts: "ClientCredentials lib flags server = Ok opts" and "send opts = Some hs"
    and "headerText (uc_username (cf_authorizedUser flags))" "headerText (uc_password (cf_authorizedUser flags))"
    and addr: "CHR '':'' \<in> set (peer_Addr p)"
  shows "UnaryInterceptor db cheatcode \<lparr>cx_headers = Some hs, cx_peer = Some p\<rparr> req handler s =
       (let ctx = \<lparr>cx_headers = Some hs, cx_peer = Some p\<rparr>; user = cf_authorizedUser flags in
        if uc_username user \<noteq> [] \<and> credentialsOk db cheatcode (uc_username user) (uc_password user)
        then (fst (handler ctx req s), Ok (snd (handler ctx req s)))
        else (s, Inl (projl (login db cheatcode ctx))))
     \<and> (cf_notls flags \<longrightarrow> login db cheatcode \<lparr>cx_headers = Some hs, cx_peer = Some p\<rparr> = Failed NoUsername)"
proof -
  let ?user = "cf_authorizedUser flags" and ?ctx = "\<lparr>cx_headers = Some hs, cx_peer = Some p\<rparr>"
  note user = perRPCUser_ClientCredentials [OF opts]
  have hs: "map_ok hs" "headerAs hs ''username''" "headerAs hs ''password''"
    and get: "k \<in> {''username'', ''password''} \<Longrightarrow>
      map_get hs k = map_option (\<lambda>v. [v]) (Option.bind (perRPCUser opts) (\<lambda>u. map_get (GetRequestMetadata u) k))" for k
    using grpc assms(3-5) user(1) unfolding grpcSends_def by (auto split: if_splits)
  from GetMetadata_login [OF hs addr] obtain meta where meta: "GetMetadata ?ctx = (Ok (meta, True) :: (loginError, _) result)"
    "map_get meta ''username'' = map_option hd (map_get hs ''username'')"
    "map_get meta ''password'' = map_option hd (map_get hs ''password'')" by blast
  have gets: "map_get meta ''username'' = (if uc_username ?user \<noteq> [] then Some (uc_username ?user) else None)"
    "map_get meta ''password'' = (if uc_username ?user \<noteq> [] then Some (uc_password ?user) else None)"
    using get [of "''username''"] get [of "''password''"] meta(2,3) user(1) by (auto simp: GetRequestMetadata_def)
  have adm: "admitted db cheatcode ?ctx \<longleftrightarrow> uc_username ?user \<noteq> [] \<and> credentialsOk db cheatcode (uc_username ?user) (uc_password ?user)"
    using meta(1) gets by (simp add: admitted_def)
  have "login db cheatcode ?ctx = Ok () \<longleftrightarrow> admitted db cheatcode ?ctx" by (rule login_Ok)
  then have u: "UnaryInterceptor db cheatcode ?ctx req handler s =
      (if admitted db cheatcode ?ctx then (fst (handler ?ctx req s), Ok (snd (handler ?ctx req s)))
       else (s, Inl (projl (login db cheatcode ?ctx))))"
    by (auto simp: UnaryInterceptor_def split_beta split: sum.splits)
  have "login db cheatcode ?ctx = Failed NoUsername" if "cf_notls flags"
  proof -
    have "uc_username ?user = []"
    proof (rule ccontr)
      assume "uc_username ?user \<noteq> []"
      then have "WithPerRPCCredentials ?user \<in> set opts" "RequireTransportSecurity ?user"
        using user(3) by (simp_all add: RequireTransportSecurity_def)
      with user(2) [OF that] grpc assms(3) show False unfolding grpcSends_def by force
    qed
    then show ?thesis using meta(1) gets by (simp add: login_def)
  qed
  with u adm show ?thesis by (simp add: Let_def)
qed

text \<open>A client of gRPC that sends the metadata and the authority.\<close>

definition exSend :: "(string, unit) dialOption list \<Rightarrow> (string, string list) gomap option" where
  "exSend opts =
     (case perRPCUser opts of
        None \<Rightarrow> Some [('':authority'', [''target''])]
      | Some u \<Rightarrow> if WithInsecure \<in> set opts then None
          else Some (('':authority'', [''target'']) # map (\<lambda>(k, v). (k, [v])) (GetRequestMetadata u)))"

lemma perRPCUser_in: "WithPerRPCCredentials u \<in> set opts \<Longrightarrow> perRPCUser opts \<noteq> None"
  by (induction opts rule: perRPCUser.induct) auto

lemma ex_grpcSends: "grpcSends exSend"
proof -
  have h: "headerAs (('':authority'', [''target'']) # map (\<lambda>(k, v). (k, [v])) (GetRequestMetadata u)) k"
    and "headerAs [('':authority'', [''target''])] k" if "k \<in> {''username'', ''password''}" for u k
    using that by (auto simp: headerAs_def trimColons_def GetRequestMetadata_def)
  then show ?thesis
    by (auto simp: grpcSends_def exSend_def map_ok_def GetRequestMetadata_def dest: perRPCUser_in split: option.splits if_splits)
qed

definition exClientFlags :: clientFlags where
  "exClientFlags = \<lparr>cf_ca = [], cf_cert = [], cf_key = [], cf_insecure = True, cf_notls = False,
     cf_authorizedUser = \<lparr>uc_username = ''bob'', uc_password = []\<rparr>\<rparr>"

definition exUserDB :: userDB where
  "exUserDB = \<lparr>getpwnam = (\<lambda>u. if u = ''bob'' then Some ''x'' else None), getspnam = (\<lambda>u. Some (Some ''hash'')),
     crypt = (\<lambda>w s. Some ''other'')\<rparr>"

definition exTls :: "(string, unit) tlsLib" where
  "exTls = \<lparr>tl_LoadX509KeyPair = (\<lambda>c k. Inr (c @ k)), tl_ReadFile = Inr, tl_AppendCertsFromPEM = (\<lambda>t. Some ())\<rparr>"

text \<open>A user name without a password is let in with the default of the cheat code.\<close>

theorem client_login_witness:
  "\<exists>hs. exSend (projr (ClientCredentials exTls exClientFlags ''target'')) = Some hs
    \<and> UnaryInterceptor exUserDB defaultCheatcode
        \<lparr>cx_headers = Some hs, cx_peer = Some \<lparr>peer_Network = ''tcp'', peer_Addr = ''10.0.0.1:5000''\<rparr>\<rparr> () (\<lambda>ctx req s. (s + 1, True)) (0::nat)
      = (1, Ok True)"
proof -
  have opts: "ClientCredentials exTls exClientFlags ''target'' = (Ok
      [WithTransportCredentials \<lparr>cc_InsecureSkipVerify = True, cc_ServerName = [], cc_Certificates = [], cc_RootCAs = None\<rparr>,
       WithPerRPCCredentials \<lparr>uc_username = ''bob'', uc_password = []\<rparr>] :: (string, (string, unit) dialOption list) result)"
    by (simp add: ClientCredentials_def transportOption_def exClientFlags_def)
  then obtain hs where hs: "exSend (projr (ClientCredentials exTls exClientFlags ''target'')) = Some hs"
    by (simp add: exSend_def)
  have ok: "credentialsOk exUserDB defaultCheatcode ''bob'' []"
    by (simp add: credentialsOk_def defaultCheatcode_def exUserDB_def cstr_def)
  have user: "cf_authorizedUser exClientFlags = \<lparr>uc_username = ''bob'', uc_password = []\<rparr>" by (simp add: exClientFlags_def)
  have plain: "headerText ''bob''" "headerText []" by (code_simp, code_simp)
  from client_login [OF ex_grpcSends opts, of hs "\<lparr>peer_Network = ''tcp'', peer_Addr = ''10.0.0.1:5000''\<rparr>" exUserDB defaultCheatcode "()"
      "\<lambda>ctx req s. (s + 1, True)" "0::nat"] hs ok
  show ?thesis by (simp add: user plain opts Let_def)
qed

end
