(* ===== verification/Entity.thy ===== *)
theory Entity
  imports CertServer
begin

unbundle bit_operations_syntax

text \<open>
  Certificates and keys of one party, \<open>utilities/entity/entity.go\<close>. The calls to \<open>crypto/x509\<close> are the fields of a record;
  \<open>x509Laws\<close> says what the source relies on. Random numbers and the clock are drawn anew for each call.
\<close>

section \<open>Keys and certificates\<close>

text \<open>A key is named by a string; the public key of a private key has the same name.\<close>

datatype privKey = RSAPrivateKey string | OtherPrivateKey string

datatype pubKey = RSAPublicKey string | OtherPublicKey string

datatype extKeyUsage = ExtKeyUsageClientAuth | ExtKeyUsageServerAuth

definition KeyUsageDigitalSignature :: int where "KeyUsageDigitalSignature = 1"
definition KeyUsageKeyEncipherment :: int where "KeyUsageKeyEncipherment = 4"
definition KeyUsageCertSign :: int where "KeyUsageCertSign = 32"
definition KeyUsageCRLSign :: int where "KeyUsageCRLSign = 64"
definition SHA256WithRSA :: int where "SHA256WithRSA = 4"

lemmas x509_constants = KeyUsageDigitalSignature_def KeyUsageKeyEncipherment_def KeyUsageCertSign_def KeyUsageCRLSign_def SHA256WithRSA_def

text \<open>The fields of \<open>x509.Certificate\<close> that the source sets or reads, as a template or as a parsed certificate.\<close>

record x509 =
  x_Subject :: pkixName
  x_Issuer :: pkixName
  x_SubjectKeyId :: string
  x_AuthorityKeyId :: string
  x_SerialNumber :: "nat option"
  x_BasicConstraintsValid :: bool
  x_IsCA :: bool
  x_MaxPathLen :: int
  x_MaxPathLenZero :: bool
  x_KeyUsage :: int
  x_ExtKeyUsage :: "extKeyUsage list"
  x_NotBefore :: int
  x_NotAfter :: int
  x_SignatureAlgorithm :: int
  x_PublicKeyAlgorithm :: int
  x_PublicKey :: "pubKey option"
  x_Signature :: string
  x_Version :: int
  x_DNSNames :: "string list"
  x_EmailAddresses :: "string list"
  x_IPAddresses :: "string list"
  x_Extensions :: "string list"
  x_ExtraExtensions :: "string list"

record csrInfo =
  q_Subject :: pkixName
  q_PublicKey :: "pubKey option"
  q_PublicKeyAlgorithm :: int
  q_SignatureAlgorithm :: int
  q_Signature :: string
  q_Version :: int
  q_DNSNames :: "string list"
  q_EmailAddresses :: "string list"
  q_IPAddresses :: "string list"
  q_Extensions :: "string list"
  q_ExtraExtensions :: "string list"

record 'd x509lib =
  CreateCertificate :: "x509 \<Rightarrow> x509 \<Rightarrow> pubKey option \<Rightarrow> privKey option \<Rightarrow> 'd option"
  ParseCertificate :: "'d \<Rightarrow> x509 option"
  CheckSignatureFrom :: "x509 \<Rightarrow> x509 \<Rightarrow> bool"
  CreateCertificateRequest :: "csrInfo \<Rightarrow> privKey option \<Rightarrow> 'd option"
  ParseCertificateRequest :: "'d \<Rightarrow> csrInfo option"
  LoadX509KeyPair :: "string \<Rightarrow> string \<Rightarrow> ('d list \<times> privKey) option"
  marshalRSA :: "string \<Rightarrow> string option"
  sha1 :: "string \<Rightarrow> string"

text \<open>What one call draws: \<open>rsa.GenerateKey\<close>, \<open>rand.Int\<close> below \<open>2 ^ 128\<close>, \<open>time.Now\<close> in nanoseconds.\<close>

record draw =
  d_key :: "string option"
  d_serial :: "nat option"
  d_now :: int

record 'd tlsPair =
  tp_Leaf :: "x509 option"
  tp_Certificate :: "'d list"
  tp_PrivateKey :: "privKey option"

record 'd entity =
  e_Template :: "x509 option"
  e_PrivateKey :: "privKey option"
  e_PublicKey :: "pubKey option"
  e_Certificate :: "'d tlsPair option"

section \<open>Templates\<close>

definition emptyName :: pkixName where
  "emptyName = \<lparr>Country = [], Organization = [], OrganizationalUnit = [], Province = [], Locality = [], StreetAddress = [],
     PostalCode = [], CommonName = []\<rparr>"

definition zeroCertificate :: x509 where
  "zeroCertificate = \<lparr>x_Subject = emptyName, x_Issuer = emptyName, x_SubjectKeyId = [], x_AuthorityKeyId = [], x_SerialNumber = None,
     x_BasicConstraintsValid = False, x_IsCA = False, x_MaxPathLen = 0, x_MaxPathLenZero = False, x_KeyUsage = 0, x_ExtKeyUsage = [],
     x_NotBefore = 0, x_NotAfter = 0, x_SignatureAlgorithm = 0, x_PublicKeyAlgorithm = 0, x_PublicKey = None, x_Signature = [],
     x_Version = 0, x_DNSNames = [], x_EmailAddresses = [], x_IPAddresses = [], x_Extensions = [], x_ExtraExtensions = []\<rparr>"

definition hour :: int where "hour = 3600000000000"

definition certMaxPathLen :: int where "certMaxPathLen = 5"

definition certExpiration :: int where "certExpiration = 365 * 24 * hour"

definition Template :: "draw \<Rightarrow> string \<Rightarrow> x509" where
  "Template d cn = zeroCertificate
     \<lparr>x_BasicConstraintsValid := True,
      x_ExtKeyUsage := [ExtKeyUsageClientAuth, ExtKeyUsageServerAuth],
      x_KeyUsage := KeyUsageDigitalSignature OR KeyUsageKeyEncipherment,
      x_NotAfter := d_now d + 24 * 365 * hour,
      x_NotBefore := d_now d,
      x_SignatureAlgorithm := SHA256WithRSA,
      x_Subject := \<lparr>Country = [''NZ''], Organization = [''gNxI''], OrganizationalUnit = [''gNxI''], Province = [''gNxI''],
        Locality = [''gNxI''], StreetAddress = [''gNxI''], PostalCode = [], CommonName = cn\<rparr>\<rparr>"

definition TemplateCA :: "draw \<Rightarrow> string \<Rightarrow> x509" where
  "TemplateCA d cn = (Template d cn)
     \<lparr>x_KeyUsage := (KeyUsageDigitalSignature OR KeyUsageCertSign) OR KeyUsageCRLSign,
      x_IsCA := True, x_MaxPathLen := certMaxPathLen, x_MaxPathLenZero := True\<rparr>"

section \<open>Entities\<close>

definition keyID :: "'d x509lib \<Rightarrow> pubKey option \<Rightarrow> (string, string) result" where
  "keyID lib pub =
     (case pub of
        Some (RSAPublicKey k) \<Rightarrow>
          (case marshalRSA lib k of
             None \<Rightarrow> Failed ''failed to marshal public key''
           | Some pkBytes \<Rightarrow> Ok (sha1 lib pkBytes))
      | _ \<Rightarrow> Failed ''failed to parse public key'')"

text \<open>A key is generated even if one is given; a given key that is not an RSA key fails the type assertion.\<close>

definition NewEntity :: "'d x509lib \<Rightarrow> draw \<Rightarrow> x509 \<Rightarrow> privKey option \<Rightarrow> (string, 'd entity) result" where
  "NewEntity lib d template priv =
     (case d_key d of
        None \<Rightarrow> Failed ''failed to generate key''
      | Some gen \<Rightarrow>
          (case (case priv of None \<Rightarrow> Ok gen | Some (RSAPrivateKey k) \<Rightarrow> Ok k | Some (OtherPrivateKey k) \<Rightarrow> Panics TypeAssertion) of
             Inl e \<Rightarrow> Inl e
           | Inr k \<Rightarrow>
               (case keyID lib (Some (RSAPublicKey k)) of
                  Inl e \<Rightarrow> Failed ''failed to generate Subject Key ID''
                | Inr kid \<Rightarrow>
                    (case d_serial d of
                       None \<Rightarrow> Failed ''failed to randomize a big int''
                     | Some n \<Rightarrow>
                         Ok \<lparr>e_Template = Some (template\<lparr>x_SubjectKeyId := kid, x_SerialNumber := Some n\<rparr>),
                             e_PrivateKey = Some (RSAPrivateKey k), e_PublicKey = Some (RSAPublicKey k),
                             e_Certificate = None\<rparr>))))"

text \<open>The leaf of the certificate of an entity.\<close>

definition leafOf :: "'d entity \<Rightarrow> x509 option" where
  "leafOf e = (case e_Certificate e of None \<Rightarrow> None | Some c \<Rightarrow> tp_Leaf c)"

definition parentTemplate :: "'d entity \<Rightarrow> x509 option" where
  "parentTemplate parent = (case leafOf parent of None \<Rightarrow> e_Template parent | Some l \<Rightarrow> Some l)"

text \<open>
  \<open>SignWith\<close>; \<open>self\<close> says whether the parent is the entity itself. Then, without a certificate, the parent's template is the
  one that has just been changed. The second component is the error, the first the entity, which is changed also when
  an error is returned.
\<close>

definition SignWith :: "'d x509lib \<Rightarrow> bool \<Rightarrow> 'd entity \<Rightarrow> 'd entity \<Rightarrow> 'd entity \<times> (string, unit) result" where
  "SignWith lib self parent e =
     (case parentTemplate parent of
        None \<Rightarrow> (e, Failed ''no template found for signing the certificate'')
      | Some pt \<Rightarrow>
          (case e_Template e of
             None \<Rightarrow> (e, Panics NilDereference)
           | Some t0 \<Rightarrow>
               (let t = t0\<lparr>x_Issuer := x_Subject pt, x_AuthorityKeyId := x_SubjectKeyId pt\<rparr>;
                    pt' = (if self \<and> leafOf parent = None then t else pt);
                    e1 = e\<lparr>e_Template := Some t\<rparr> in
                case CreateCertificate lib t pt' (e_PublicKey e) (e_PrivateKey parent) of
                  None \<Rightarrow> (e1, Failed ''failed to create certificate'')
                | Some der \<Rightarrow>
                    (case ParseCertificate lib der of
                       None \<Rightarrow> (e1, Failed ''failed to parse the certificate'')
                     | Some lf \<Rightarrow>
                         (e1\<lparr>e_Certificate := Some \<lparr>tp_Leaf = Some lf, tp_Certificate = [der], tp_PrivateKey = e_PrivateKey e\<rparr>\<rparr>,
                          Ok ())))))"

definition CreateSelfSigned :: "'d x509lib \<Rightarrow> draw \<Rightarrow> string \<Rightarrow> privKey option \<Rightarrow> (string, 'd entity) result" where
  "CreateSelfSigned lib d cn priv =
     (case NewEntity lib d (TemplateCA d cn) priv of
        Inl (Panic p) \<Rightarrow> Panics p
      | Inl (Err _) \<Rightarrow> Failed ''failed to create a new Entity''
      | Inr ca \<Rightarrow>
          (case SignWith lib True ca ca of
             (_, Inl (Panic p)) \<Rightarrow> Panics p
           | (_, Inl (Err _)) \<Rightarrow> Failed ''failed to sign Entity''
           | (ca', Inr _) \<Rightarrow> Ok ca'))"

definition CreateSignedCA :: "'d x509lib \<Rightarrow> draw \<Rightarrow> string \<Rightarrow> privKey option \<Rightarrow> 'd entity \<Rightarrow> (string, 'd entity) result" where
  "CreateSignedCA lib d cn priv parent =
     (case NewEntity lib d (TemplateCA d cn) priv of
        Inl (Panic p) \<Rightarrow> Panics p
      | Inl (Err _) \<Rightarrow> Failed ''failed to create a new Entity''
      | Inr ca \<Rightarrow>
          (case SignWith lib False parent ca of
             (_, Inl (Panic p)) \<Rightarrow> Panics p
           | (_, Inl (Err _)) \<Rightarrow> Failed ''failed to sign Entity''
           | (ca', Inr _) \<Rightarrow> Ok ca'))"

definition CreateSigned :: "'d x509lib \<Rightarrow> draw \<Rightarrow> string \<Rightarrow> privKey option \<Rightarrow> 'd entity \<Rightarrow> (string, 'd entity) result" where
  "CreateSigned lib d cn priv parent =
     (case NewEntity lib d (Template d cn) priv of
        Inl (Panic p) \<Rightarrow> Panics p
      | Inl (Err _) \<Rightarrow> Failed ''failed to create a new Entity''
      | Inr ca \<Rightarrow>
          (case SignWith lib False parent ca of
             (_, Inl (Panic p)) \<Rightarrow> Panics p
           | (_, Inl (Err _)) \<Rightarrow> Failed ''failed to sign Entity''
           | (ca', Inr _) \<Rightarrow> Ok ca'))"

text \<open>An entity read from files has no template and no public key.\<close>

definition FromFile :: "'d x509lib \<Rightarrow> string \<Rightarrow> string \<Rightarrow> (string, 'd entity) result" where
  "FromFile lib certFile privKeyFile =
     (case LoadX509KeyPair lib certFile privKeyFile of
        None \<Rightarrow> Failed ''failed to load x509 key pair''
      | Some ([], _) \<Rightarrow> Panics IndexOutOfRange
      | Some (der # ders, key) \<Rightarrow>
          (case ParseCertificate lib der of
             None \<Rightarrow> Failed ''failed to parse certificate''
           | Some lf \<Rightarrow>
               Ok \<lparr>e_Template = None, e_PrivateKey = Some key, e_PublicKey = None,
                   e_Certificate = Some \<lparr>tp_Leaf = Some lf, tp_Certificate = der # ders, tp_PrivateKey = Some key\<rparr>\<rparr>))"

definition FromSigningRequest :: "'d x509lib \<Rightarrow> draw \<Rightarrow> csrInfo \<Rightarrow> (string, 'd entity) result" where
  "FromSigningRequest lib d csr =
     (let template = zeroCertificate
        \<lparr>x_BasicConstraintsValid := True, x_DNSNames := q_DNSNames csr,
         x_ExtKeyUsage := [ExtKeyUsageClientAuth, ExtKeyUsageServerAuth],
         x_KeyUsage := KeyUsageDigitalSignature OR KeyUsageKeyEncipherment,
         x_NotAfter := d_now d + certExpiration, x_NotBefore := d_now d,
         x_SignatureAlgorithm := q_SignatureAlgorithm csr, x_Subject := q_Subject csr, x_Signature := q_Signature csr,
         x_Extensions := q_Extensions csr, x_Version := q_Version csr, x_ExtraExtensions := q_ExtraExtensions csr,
         x_EmailAddresses := q_EmailAddresses csr, x_IPAddresses := q_IPAddresses csr,
         x_PublicKeyAlgorithm := q_PublicKeyAlgorithm csr\<rparr> in
      case keyID lib (q_PublicKey csr) of
        Inl e \<Rightarrow> Failed ''failed to generate Subject Key ID''
      | Inr kid \<Rightarrow>
          (case d_serial d of
             None \<Rightarrow> Failed ''failed to randomize a big int''
           | Some n \<Rightarrow>
               Ok \<lparr>e_Template = Some (template\<lparr>x_SubjectKeyId := kid, x_SerialNumber := Some n\<rparr>), e_PrivateKey = None,
                   e_PublicKey = q_PublicKey csr, e_Certificate = None\<rparr>))"

definition SigningRequest :: "'d x509lib \<Rightarrow> 'd entity \<Rightarrow> (string, 'd) result" where
  "SigningRequest lib e =
     (case e_Template e of
        None \<Rightarrow> Panics NilDereference
      | Some t \<Rightarrow>
          (case CreateCertificateRequest lib
              \<lparr>q_Subject = x_Subject t, q_PublicKey = None, q_PublicKeyAlgorithm = 0, q_SignatureAlgorithm = x_SignatureAlgorithm t,
               q_Signature = [], q_Version = 0, q_DNSNames = x_DNSNames t, q_EmailAddresses = x_EmailAddresses t,
               q_IPAddresses = x_IPAddresses t, q_Extensions = [], q_ExtraExtensions = x_ExtraExtensions t\<rparr> (e_PrivateKey e) of
             None \<Rightarrow> Failed ''create request''
           | Some der \<Rightarrow> Ok der))"

definition SignedBy :: "'d x509lib \<Rightarrow> 'd entity \<Rightarrow> 'd entity \<Rightarrow> (string, unit) result" where
  "SignedBy lib e parent =
     (case (leafOf e, leafOf parent) of
        (Some c, Some p) \<Rightarrow> if CheckSignatureFrom lib c p then Ok () else Failed ''signature''
      | _ \<Rightarrow> Panics NilDereference)"
section \<open>What the library promises\<close>

text \<open>\<open>CheckSignatureFrom\<close> accepts a parent only if it may sign certificates.\<close>

definition canSign :: "x509 \<Rightarrow> bool" where
  "canSign q =
     ((x_Version q = 3 \<longrightarrow> x_BasicConstraintsValid q) \<and> (x_BasicConstraintsValid q \<longrightarrow> x_IsCA q)
      \<and> (x_KeyUsage q = 0 \<or> x_KeyUsage q AND KeyUsageCertSign \<noteq> 0))"

text \<open>What \<open>CreateCertificate\<close> asks of its arguments for an RSA key.\<close>

definition signable :: "x509 \<Rightarrow> x509 \<Rightarrow> string \<Rightarrow> bool" where
  "signable t p k =
     (x_SerialNumber t \<noteq> None \<and> x_SignatureAlgorithm t = SHA256WithRSA \<and> (x_IsCA t \<or> x_MaxPathLen t = 0)
      \<and> (x_PublicKey p = None \<or> x_PublicKey p = Some (RSAPublicKey k)))"

text \<open>
  A certificate says what its template says, names its parent as issuer, and its signature is good for exactly the parents
  that may sign and have the public key that belongs to the signing key.
\<close>

definition certifies :: "'d x509lib \<Rightarrow> x509 \<Rightarrow> x509 \<Rightarrow> string \<Rightarrow> string \<Rightarrow> x509 \<Rightarrow> bool" where
  "certifies lib t p pk k c =
     (x_Subject c = x_Subject t \<and> x_Issuer c = x_Subject p \<and> x_SubjectKeyId c = x_SubjectKeyId t
      \<and> x_BasicConstraintsValid c = x_BasicConstraintsValid t \<and> x_IsCA c = x_IsCA t \<and> x_KeyUsage c = x_KeyUsage t
      \<and> x_Version c = 3 \<and> x_PublicKey c = Some (RSAPublicKey pk) \<and> (x_ExtraExtensions t = [] \<longrightarrow> x_DNSNames c = x_DNSNames t)
      \<and> (\<forall>q. CheckSignatureFrom lib c q \<longleftrightarrow> canSign q \<and> x_PublicKey q = Some (RSAPublicKey k)))"

definition x509Laws :: "'d x509lib \<Rightarrow> bool" where
  "x509Laws lib =
     ((\<forall>k. marshalRSA lib k \<noteq> None)
      \<and> (\<forall>t p pk k. signable t p k \<longrightarrow>
          (\<exists>der c. CreateCertificate lib t p (Some (RSAPublicKey pk)) (Some (RSAPrivateKey k)) = Some der
             \<and> ParseCertificate lib der = Some c \<and> certifies lib t p pk k c)))"

section \<open>Signing\<close>

text \<open>An entity with the key \<open>k\<close> and a certificate for it that the key \<open>sk\<close> has signed.\<close>

definition certified :: "'d x509lib \<Rightarrow> string \<Rightarrow> bool \<Rightarrow> string \<Rightarrow> 'd entity \<Rightarrow> bool" where
  "certified lib sk ca k e =
     (\<exists>c. leafOf e = Some c \<and> e_PrivateKey e = Some (RSAPrivateKey k) \<and> x_PublicKey c = Some (RSAPublicKey k)
       \<and> canSign c = ca \<and> (\<forall>q. CheckSignatureFrom lib c q \<longleftrightarrow> canSign q \<and> x_PublicKey q = Some (RSAPublicKey sk)))"

text \<open>The key of a new entity: the given one or else the generated one.\<close>

definition keyFor :: "draw \<Rightarrow> privKey option \<Rightarrow> string option" where
  "keyFor d priv =
     (case priv of None \<Rightarrow> d_key d | Some (RSAPrivateKey k) \<Rightarrow> Some k | Some (OtherPrivateKey k) \<Rightarrow> None)"

lemma keyID_ok: "x509Laws lib \<Longrightarrow> \<exists>kid. keyID lib (Some (RSAPublicKey k)) = Ok kid"
  by (auto simp: x509Laws_def keyID_def split: option.splits)

lemma NewEntity_ok:
  assumes "x509Laws lib" "d_key d \<noteq> None" "d_serial d \<noteq> None" "keyFor d priv = Some k"
  obtains kid n where "NewEntity lib d t priv = Ok \<lparr>e_Template = Some (t\<lparr>x_SubjectKeyId := kid, x_SerialNumber := Some n\<rparr>),
    e_PrivateKey = Some (RSAPrivateKey k), e_PublicKey = Some (RSAPublicKey k), e_Certificate = None\<rparr>"
  using assms keyID_ok [OF assms(1), of k]
  by (auto simp: NewEntity_def keyFor_def split: option.splits privKey.splits)

lemma NewEntity_Ok:
  assumes "NewEntity lib d t priv = Ok e"
  obtains kid n k where "keyFor d priv = Some k"
    "e = \<lparr>e_Template = Some (t\<lparr>x_SubjectKeyId := kid, x_SerialNumber := Some n\<rparr>),
      e_PrivateKey = Some (RSAPrivateKey k), e_PublicKey = Some (RSAPublicKey k), e_Certificate = None\<rparr>"
  using assms by (auto simp: NewEntity_def keyFor_def split: option.splits privKey.splits sum.splits)

text \<open>A parent that can give its key and, if it has a certificate, has the certificate of that key.\<close>

definition parent_ok :: "string \<Rightarrow> 'd entity \<Rightarrow> bool" where
  "parent_ok pk p =
     (e_PrivateKey p = Some (RSAPrivateKey pk)
      \<and> (\<exists>pt. parentTemplate p = Some pt \<and> (x_PublicKey pt = None \<or> x_PublicKey pt = Some (RSAPublicKey pk))))"

lemma certified_parent: "certified lib sk ca k e \<Longrightarrow> parent_ok k e"
  by (auto simp: certified_def parent_ok_def parentTemplate_def)

lemma SignWith_certifies:
  assumes "x509Laws lib" "parent_ok pk p" "e_Template e = Some t" "e_PublicKey e = Some (RSAPublicKey k)"
    and "x_SerialNumber t \<noteq> None" "x_SignatureAlgorithm t = SHA256WithRSA" "x_IsCA t \<or> x_MaxPathLen t = 0"
    and "self \<longrightarrow> x_PublicKey t = None"
  obtains e' c t' where "SignWith lib self p e = (e', Ok ())" "leafOf e' = Some c" "e_PrivateKey e' = e_PrivateKey e"
    "certifies lib t t' k pk c" "\<exists>der. ParseCertificate lib der = Some c"
proof -
  obtain pt where pt: "parentTemplate p = Some pt" "x_PublicKey pt = None \<or> x_PublicKey pt = Some (RSAPublicKey pk)"
    and key: "e_PrivateKey p = Some (RSAPrivateKey pk)" using assms(2) by (auto simp: parent_ok_def)
  let ?t = "t\<lparr>x_Issuer := x_Subject pt, x_AuthorityKeyId := x_SubjectKeyId pt\<rparr>"
  let ?pt = "if self \<and> leafOf p = None then ?t else pt"
  have "signable ?t ?pt pk" using assms(5-8) pt(2) by (simp add: signable_def)
  then obtain der c where c: "CreateCertificate lib ?t ?pt (Some (RSAPublicKey k)) (Some (RSAPrivateKey pk)) = Some der"
    "ParseCertificate lib der = Some c" "certifies lib ?t ?pt k pk c"
    using assms(1) unfolding x509Laws_def by blast
  let ?e = "e\<lparr>e_Template := Some ?t, e_Certificate := Some \<lparr>tp_Leaf = Some c, tp_Certificate = [der], tp_PrivateKey = e_PrivateKey e\<rparr>\<rparr>"
  show thesis
  proof (rule that [of ?e c ?pt])
    show "SignWith lib self p e = (?e, Ok ())" using pt(1) key assms(3,4) c by (simp add: SignWith_def Let_def)
    show "certifies lib t ?pt k pk c" using c(3) by (simp add: certifies_def)
    show "\<exists>der. ParseCertificate lib der = Some c" using c(2) by blast
  qed (simp_all add: leafOf_def)
qed

lemma certifies_certified:
  assumes "certifies lib t p k sk c" "leafOf e = Some c" "e_PrivateKey e = Some (RSAPrivateKey k)" "x_BasicConstraintsValid t"
  shows "certified lib sk (x_IsCA t \<and> (x_KeyUsage t = 0 \<or> x_KeyUsage t AND KeyUsageCertSign \<noteq> 0)) k e"
  using assms by (auto simp: certifies_def certified_def canSign_def)

lemma templates:
  "x_SignatureAlgorithm (Template d cn) = SHA256WithRSA" "x_SignatureAlgorithm (TemplateCA d cn) = SHA256WithRSA"
  "x_PublicKey (Template d cn) = None" "x_PublicKey (TemplateCA d cn) = None"
  "x_BasicConstraintsValid (Template d cn)" "x_BasicConstraintsValid (TemplateCA d cn)"
  "x_MaxPathLen (Template d cn) = 0" "\<not> x_IsCA (Template d cn)" "x_IsCA (TemplateCA d cn)"
  "x_KeyUsage (TemplateCA d cn) AND KeyUsageCertSign \<noteq> 0"
  by (simp_all add: TemplateCA_def Template_def zeroCertificate_def x509_constants)

text \<open>The part that the three constructors share: a new entity is its own parent, and signing it succeeds.\<close>

lemma NewEntity_parent:
  assumes "NewEntity lib d t priv = Ok e" "x_PublicKey t = None" "keyFor d priv = Some k"
  shows "parent_ok k e"
  using assms by (auto elim!: NewEntity_Ok simp: parent_ok_def parentTemplate_def leafOf_def)

lemma SignWith_new:
  assumes "x509Laws lib" "parent_ok pk p" "NewEntity lib d t priv = Ok e" "keyFor d priv = Some k"
    and "x_SignatureAlgorithm t = SHA256WithRSA" "x_IsCA t \<or> x_MaxPathLen t = 0" "x_BasicConstraintsValid t" "x_PublicKey t = None"
  obtains e' where "SignWith lib self p e = (e', Ok ())"
    "certified lib pk (x_IsCA t \<and> (x_KeyUsage t = 0 \<or> x_KeyUsage t AND KeyUsageCertSign \<noteq> 0)) k e'"
proof -
  obtain kid n where e: "e = \<lparr>e_Template = Some (t\<lparr>x_SubjectKeyId := kid, x_SerialNumber := Some n\<rparr>),
      e_PrivateKey = Some (RSAPrivateKey k), e_PublicKey = Some (RSAPublicKey k), e_Certificate = None\<rparr>"
    using NewEntity_Ok [OF assms(3)] assms(4) by (metis option.inject)
  let ?t = "t\<lparr>x_SubjectKeyId := kid, x_SerialNumber := Some n\<rparr>"
  have "e_Template e = Some ?t" "e_PublicKey e = Some (RSAPublicKey k)" "x_SerialNumber ?t \<noteq> None"
    "x_SignatureAlgorithm ?t = SHA256WithRSA" "x_IsCA ?t \<or> x_MaxPathLen ?t = 0" "self \<longrightarrow> x_PublicKey ?t = None"
    using assms(5,6,8) by (simp_all add: e)
  from SignWith_certifies [OF assms(1,2) this] obtain e' c t' where
    *: "SignWith lib self p e = (e', Ok ())" "leafOf e' = Some c" "e_PrivateKey e' = e_PrivateKey e" "certifies lib ?t t' k pk c"
    by blast
  then show thesis
    using that [OF *(1)] certifies_certified [OF *(4,2)] assms(7) by (simp add: e)
qed

lemmas new_CA = SignWith_new [OF _ _ _ _ templates(2) disjI1 [OF templates(9)] templates(6,4)]
lemmas new_signed = SignWith_new [OF _ _ _ _ templates(1) disjI2 [OF templates(7)] templates(5,3)]

lemma created_ok:
  assumes "x509Laws lib" "d_key d \<noteq> None" "d_serial d \<noteq> None" "keyFor d priv = Some k"
  shows CreateSelfSigned_ok: "\<exists>e. CreateSelfSigned lib d cn priv = Ok e \<and> certified lib k True k e"
    and CreateSignedCA_ok: "parent_ok pk p \<Longrightarrow> \<exists>e. CreateSignedCA lib d cn priv p = Ok e \<and> certified lib pk True k e"
    and CreateSigned_ok: "parent_ok pk p \<Longrightarrow> \<exists>e. CreateSigned lib d cn priv p = Ok e \<and> certified lib pk False k e"
proof -
  obtain e where e: "NewEntity lib d (TemplateCA d cn) priv = Ok e" using NewEntity_ok [OF assms] by metis
  obtain f where f: "NewEntity lib d (Template d cn) priv = Ok f" using NewEntity_ok [OF assms] by metis
  have ca: "x_IsCA (TemplateCA d cn) \<and> (x_KeyUsage (TemplateCA d cn) = 0 \<or> x_KeyUsage (TemplateCA d cn) AND KeyUsageCertSign \<noteq> 0) \<longleftrightarrow> True"
    and leaf: "x_IsCA (Template d cn) \<and> (x_KeyUsage (Template d cn) = 0 \<or> x_KeyUsage (Template d cn) AND KeyUsageCertSign \<noteq> 0) \<longleftrightarrow> False"
    using templates by blast+
  obtain e1 where "SignWith lib True e e = (e1, Ok ())" "certified lib k True k e1"
    by (rule new_CA [OF assms(1) NewEntity_parent [OF e templates(4) assms(4)] e assms(4), unfolded ca])
  then show "\<exists>e. CreateSelfSigned lib d cn priv = Ok e \<and> certified lib k True k e"
    by (intro exI [of _ e1]) (simp add: CreateSelfSigned_def e)
  show "\<exists>e. CreateSignedCA lib d cn priv p = Ok e \<and> certified lib pk True k e" if par: "parent_ok pk p"
  proof -
    obtain e1 where "SignWith lib False p e = (e1, Ok ())" "certified lib pk True k e1"
      by (rule new_CA [OF assms(1) par e assms(4), unfolded ca])
    then show ?thesis by (intro exI [of _ e1]) (simp add: CreateSignedCA_def e)
  qed
  show "\<exists>e. CreateSigned lib d cn priv p = Ok e \<and> certified lib pk False k e" if par: "parent_ok pk p"
  proof -
    obtain e1 where "SignWith lib False p f = (e1, Ok ())" "certified lib pk False k e1"
      by (rule new_signed [OF assms(1) par f assms(4), unfolded leaf])
    then show ?thesis by (intro exI [of _ e1]) (simp add: CreateSigned_def f)
  qed
qed

section \<open>Hierarchies\<close>

text \<open>
  The entities that the constructors make: \<open>created lib sk ca k e\<close> if \<open>e\<close> has the key \<open>k\<close>, was made as a CA or not, and
  its parent has the key \<open>sk\<close>.
\<close>

inductive created :: "'d x509lib \<Rightarrow> string \<Rightarrow> bool \<Rightarrow> string \<Rightarrow> 'd entity \<Rightarrow> bool" for lib where
  self_signed: "CreateSelfSigned lib d cn priv = Ok e \<Longrightarrow> keyFor d priv = Some k \<Longrightarrow> created lib k True k e"
| signed_ca: "created lib sk ca pk p \<Longrightarrow> CreateSignedCA lib d cn priv p = Ok e \<Longrightarrow> keyFor d priv = Some k \<Longrightarrow> created lib pk True k e"
| signed: "created lib sk ca pk p \<Longrightarrow> CreateSigned lib d cn priv p = Ok e \<Longrightarrow> keyFor d priv = Some k \<Longrightarrow> created lib pk False k e"

lemma NewEntity_draws: "NewEntity lib d t priv = Ok e \<Longrightarrow> d_key d \<noteq> None \<and> d_serial d \<noteq> None"
  by (auto simp: NewEntity_def split: option.splits sum.splits)

lemma constructor_draws:
  "CreateSelfSigned lib d cn priv = Ok e \<Longrightarrow> d_key d \<noteq> None \<and> d_serial d \<noteq> None"
  "CreateSignedCA lib d cn priv p = Ok e \<Longrightarrow> d_key d \<noteq> None \<and> d_serial d \<noteq> None"
  "CreateSigned lib d cn priv p = Ok e \<Longrightarrow> d_key d \<noteq> None \<and> d_serial d \<noteq> None"
  using NewEntity_draws
  by (fastforce simp: CreateSelfSigned_def CreateSignedCA_def CreateSigned_def split: sum.splits exn.splits)+

lemma created_certified:
  assumes "x509Laws lib" "created lib sk ca k e"
  shows "certified lib sk ca k e"
  using assms(2)
proof (induction rule: created.induct)
  case (self_signed d cn priv e k)
  with CreateSelfSigned_ok [OF assms(1), of d priv k cn] constructor_draws(1) show ?case by fastforce
next
  case (signed_ca sk ca pk p d cn priv e k)
  with CreateSignedCA_ok [OF assms(1), of d priv k pk p cn] constructor_draws(2) certified_parent show ?case by fastforce
next
  case (signed sk ca pk p d cn priv e k)
  with CreateSigned_ok [OF assms(1), of d priv k pk p cn] constructor_draws(3) certified_parent show ?case by fastforce
qed

lemma SignedBy_certified:
  "certified lib sk ca k e \<Longrightarrow> certified lib sk' ca' k' e' \<Longrightarrow> SignedBy lib e e' = Ok () \<longleftrightarrow> ca' \<and> k' = sk"
  by (auto simp: certified_def SignedBy_def split: if_splits)

section \<open>A symbolic library\<close>

text \<open>For the examples: the bytes of a certificate or request are its record, and a signature is the name of the key.\<close>

datatype derBytes = DerCert x509 | DerCSR csrInfo

definition sampleCreate :: "x509 \<Rightarrow> x509 \<Rightarrow> pubKey option \<Rightarrow> privKey option \<Rightarrow> derBytes option" where
  "sampleCreate t p pub priv =
     (case (pub, priv) of
        (Some (RSAPublicKey pk), Some (RSAPrivateKey k)) \<Rightarrow>
          if signable t p k then
            Some (DerCert (t\<lparr>x_Issuer := x_Subject p, x_Version := 3, x_PublicKey := Some (RSAPublicKey pk), x_Signature := k\<rparr>))
          else None
      | _ \<Rightarrow> None)"

definition sampleLib :: "derBytes x509lib" where
  "sampleLib =
     \<lparr>CreateCertificate = sampleCreate,
      ParseCertificate = (\<lambda>d. case d of DerCert c \<Rightarrow> Some c | DerCSR q \<Rightarrow> None),
      CheckSignatureFrom = (\<lambda>c q. canSign q \<and> x_PublicKey q = Some (RSAPublicKey (x_Signature c))),
      CreateCertificateRequest = (\<lambda>q priv. case priv of
          Some (RSAPrivateKey k) \<Rightarrow> Some (DerCSR (q\<lparr>q_PublicKey := Some (RSAPublicKey k)\<rparr>))
        | _ \<Rightarrow> None),
      ParseCertificateRequest = (\<lambda>d. case d of DerCert c \<Rightarrow> None | DerCSR q \<Rightarrow> Some q),
      LoadX509KeyPair = (\<lambda>cf kf. Some ([DerCert ((TemplateCA \<lparr>d_key = None, d_serial = None, d_now = 0\<rparr> ''ca'')
          \<lparr>x_Version := 3, x_PublicKey := Some (RSAPublicKey ''cakey'')\<rparr>)], RSAPrivateKey ''cakey'')),
      marshalRSA = Some,
      sha1 = (\<lambda>s. s)\<rparr>"

lemma sampleLib_laws: "x509Laws sampleLib"
  by (simp add: x509Laws_def sampleLib_def sampleCreate_def certifies_def)

definition sampleDraw :: "string \<Rightarrow> draw" where
  "sampleDraw k = \<lparr>d_key = Some k, d_serial = Some 1, d_now = 0\<rparr>"

section \<open>Properties\<close>

text \<open>C26: In a hierarchy of self-signed CAs, CAs and leaf entities made by the three constructors, an entity passes as signed
  by another exactly if that other one is a CA and has the key of the parent the entity was made with.\<close>

theorem signed_by_parent_only:
  assumes "x509Laws lib" "created lib sk ca k e" "created lib sk' ca' k' e'"
  shows "SignedBy lib e e' = Ok () \<longleftrightarrow> ca' \<and> k' = sk"
  using SignedBy_certified created_certified [OF assms(1)] assms(2,3) by blast

theorem signed_by_parent_only_witness:
  "\<exists>root client. CreateSelfSigned sampleLib (sampleDraw ''r'') ''root'' None = Ok root
     \<and> CreateSigned sampleLib (sampleDraw ''c'') ''client'' None root = Ok client
     \<and> SignedBy sampleLib client root = Ok () \<and> SignedBy sampleLib root client \<noteq> Ok ()"
proof -
  have d: "d_key (sampleDraw k) \<noteq> None" "d_serial (sampleDraw k) \<noteq> None" "keyFor (sampleDraw k) None = Some k" for k
    by (simp_all add: sampleDraw_def keyFor_def)
  obtain root where r: "CreateSelfSigned sampleLib (sampleDraw ''r'') ''root'' None = Ok root"
      "certified sampleLib ''r'' True ''r'' root"
    using CreateSelfSigned_ok [OF sampleLib_laws d] by blast
  obtain client where c: "CreateSigned sampleLib (sampleDraw ''c'') ''client'' None root = Ok client"
    using CreateSigned_ok [OF sampleLib_laws d certified_parent [OF r(2)]] by blast
  have cr: "created sampleLib ''r'' True ''r'' root" by (rule self_signed [OF r(1) d(3)])
  have "created sampleLib ''r'' False ''c'' client" by (rule signed [OF cr c d(3)])
  with signed_by_parent_only [OF sampleLib_laws] cr r(1) c show ?thesis by blast
qed

end
