(* ===== verification/Target.thy ===== *)
theory Target
  imports CertManager
begin

text \<open>
  The gNOI target: \<open>gnoi/gnoi.go\<close>, which prepares gRPC servers for the certificate management service, and
  \<open>gnoi_target/gnoi_target.go\<close>, which restarts the server in another mode when the certificate manager reports
  that credentials have come or gone.
\<close>

section \<open>The gNOI server\<close>

datatype mode = Encrypted | Authenticated

datatype clientAuth = RequireAnyClientCert | RequireAndVerifyClientCert

text \<open>A gRPC server: its mode, whether the certificate service is registered, and whether \<open>GracefulStop\<close> was called.\<close>

record grpcServer =
  gs_mode :: mode
  gs_registered :: bool
  gs_stopped :: bool

record 'x gnoiServer =
  certManager :: "'x manager"
  defaultCertificate :: "'x tlsCertificate"

text \<open>
  \<open>NewServer\<close>: without a default certificate a self-signed one is made, for the given key or a new one. \<open>generateKey\<close> and
  \<open>selfSigned\<close> are \<open>rsa.GenerateKey\<close> and \<open>entity.CreateSelfSigned\<close>.
\<close>

definition NewServer ::
    "string option \<Rightarrow> (string \<Rightarrow> string \<Rightarrow> 'x tlsCertificate option) \<Rightarrow> string option \<Rightarrow> 'x tlsCertificate option
     \<Rightarrow> (string, 'x gnoiServer) result" where
  "NewServer generateKey selfSigned priv dflt =
     (let mk = (\<lambda>c. \<lparr>certManager = NewManager (tlsKey c), defaultCertificate = c\<rparr>) in
      case dflt of
        Some c \<Rightarrow> Ok (mk c)
      | None \<Rightarrow>
          (case (case priv of Some k \<Rightarrow> Some k | None \<Rightarrow> generateKey) of
             None \<Rightarrow> Failed ''failed to generate private key''
           | Some k \<Rightarrow>
               (case selfSigned ''gNOI server'' k of
                  None \<Rightarrow> Failed ''failed to create self signed certificate''
                | Some c \<Rightarrow> Ok (mk c))))"

definition PrepareEncrypted :: grpcServer where
  "PrepareEncrypted = \<lparr>gs_mode = Encrypted, gs_registered = False, gs_stopped = False\<rparr>"

definition PrepareAuthenticated :: grpcServer where
  "PrepareAuthenticated = \<lparr>gs_mode = Authenticated, gs_registered = False, gs_stopped = False\<rparr>"

definition RegCertificateManagement :: "grpcServer \<Rightarrow> grpcServer" where
  "RegCertificateManagement g = g\<lparr>gs_registered := True\<rparr>"

text \<open>
  The TLS configuration of a handshake. In authenticated mode it is computed for every handshake from what the manager
  holds at that time; a pool of \<open>None\<close> is the nil \<open>ClientCAs\<close>.
\<close>

definition handshake ::
    "'x gnoiServer \<Rightarrow> mode \<Rightarrow> ('e, clientAuth \<times> 'x tlsCertificate list \<times> 'x set option) result" where
  "handshake s md =
     (case md of
        Encrypted \<Rightarrow> Ok (RequireAnyClientCert, [defaultCertificate s], None)
      | Authenticated \<Rightarrow>
          (case TLSCertificates (certManager s) of
             Inl e \<Rightarrow> Inl e
           | Inr (certs, pool) \<Rightarrow> Ok (RequireAndVerifyClientCert, certs, Some pool)))"

definition gnoi_RegisterNotifier :: "nat \<Rightarrow> 'x gnoiServer \<Rightarrow> 'x gnoiServer" where
  "gnoi_RegisterNotifier f s = s\<lparr>certManager := RegisterNotifier f (certManager s)\<rparr>"

text \<open>However the manager of a new server is called, a handshake never fails, in either mode.\<close>

lemma handshake_total:
  assumes "NewServer gk ss priv dflt = Ok s"
  shows "\<exists>auth certs pool. handshake (s\<lparr>certManager := fst (run decode ops (certManager s, []))\<rparr>) md = Ok (auth, certs, pool)"
proof -
  obtain key where "certManager s = NewManager key"
    using assms by (auto simp: NewServer_def Let_def split: option.splits)
  then show ?thesis
    by (cases md) (simp_all add: handshake_def TLSCertificates_total [unfolded Let_def])
qed

section \<open>The target\<close>

text \<open>
  The servers made so far, the last one being the variable \<open>grpcServer\<close>; the server that the holder of \<open>muServe\<close> runs;
  and the number of \<open>serve\<close> goroutines that wait for \<open>muServe\<close>.
\<close>

record target =
  servers :: "grpcServer list"
  bootstrapping :: bool
  serving :: "nat option"
  waiting :: nat

definition initialTarget :: target where
  "initialTarget = \<lparr>servers = [], bootstrapping = False, serving = None, waiting = 0\<rparr>"

definition GracefulStop :: "grpcServer list \<Rightarrow> grpcServer list" where
  "GracefulStop gs = (if gs = [] then [] else butlast gs @ [(last gs)\<lparr>gs_stopped := True\<rparr>])"

text \<open>\<open>grpcServer.GracefulStop()\<close> of a nil server, in the first branch, is a panic; the second branch tests for nil.\<close>

definition target_notify :: "nat \<Rightarrow> nat \<Rightarrow> target \<Rightarrow> (unit, target) result" where
  "target_notify certs caCerts tg =
     (let hasCredentials = (certs \<noteq> 0 \<and> caCerts \<noteq> 0) in
      if bootstrapping tg = (\<not> hasCredentials) then Ok tg
      else if bootstrapping tg then
        (if servers tg = [] then Panics NilDereference
         else Ok (tg\<lparr>servers := GracefulStop (servers tg) @ [RegCertificateManagement PrepareAuthenticated],
                     bootstrapping := False, waiting := Suc (waiting tg)\<rparr>))
      else
        Ok (tg\<lparr>servers := GracefulStop (servers tg) @ [RegCertificateManagement PrepareEncrypted],
               bootstrapping := True, waiting := Suc (waiting tg)\<rparr>))"

text \<open>
  The start of \<open>main\<close>. A failed \<open>NewServer\<close> ends the process with a message only when the log level is 6 or more;
  otherwise the nil server is used.
\<close>

definition target_main :: "bool \<Rightarrow> (string, 'x gnoiServer) result \<Rightarrow> (unit, 'x gnoiServer \<times> target) result" where
  "target_main v6 newServer =
     (case newServer of
        Inl (Panic p) \<Rightarrow> Panics p
      | Inl (Err e) \<Rightarrow> if v6 then Failed () else Panics NilDereference
      | Inr s \<Rightarrow>
          (case target_notify 0 0 initialTarget of
             Inl e \<Rightarrow> Inl e
           | Inr tg \<Rightarrow> Ok (gnoi_RegisterNotifier 0 s, tg)))"

text \<open>
  \<open>serve\<close>: a goroutine that gets \<open>muServe\<close> serves what \<open>grpcServer\<close> is then, until that server is stopped.
\<close>

inductive target_step :: "target \<Rightarrow> target \<Rightarrow> bool" where
  notified: "target_notify certs caCerts tg = Ok tg' \<Longrightarrow> target_step tg tg'"
| serve_begins: "waiting tg = Suc n \<Longrightarrow> serving tg = None \<Longrightarrow> servers tg \<noteq> [] \<Longrightarrow>
    target_step tg (tg\<lparr>waiting := n, serving := Some (length (servers tg) - 1)\<rparr>)"
| serve_ends: "serving tg = Some i \<Longrightarrow> i < length (servers tg) \<Longrightarrow> gs_stopped (servers tg ! i) \<Longrightarrow>
    target_step tg (tg\<lparr>serving := None\<rparr>)"

inductive_cases target_stepE: "target_step tg tg'"

text \<open>\<open>main\<close> calls \<open>notify(0, 0)\<close> first.\<close>

inductive target_reachable :: "target \<Rightarrow> bool" where
  started: "target_notify 0 0 initialTarget = Ok tg \<Longrightarrow> target_reachable tg"
| steps: "target_reachable tg \<Longrightarrow> target_step tg tg' \<Longrightarrow> target_reachable tg'"

section \<open>The invariant\<close>

definition modeFor :: "bool \<Rightarrow> mode" where
  "modeFor b = (if b then Encrypted else Authenticated)"

definition served :: "target \<Rightarrow> bool" where
  "served tg =
     (case serving tg of
        None \<Rightarrow> 0 < waiting tg
      | Some i \<Rightarrow> i < length (servers tg) \<and> (i = length (servers tg) - 1 \<or> 0 < waiting tg))"

definition target_ok :: "target \<Rightarrow> bool" where
  "target_ok tg =
     (servers tg \<noteq> [] \<and> list_all gs_stopped (butlast (servers tg)) \<and> \<not> gs_stopped (last (servers tg))
      \<and> gs_registered (last (servers tg)) \<and> gs_mode (last (servers tg)) = modeFor (bootstrapping tg) \<and> served tg)"

lemma GracefulStop_stopped: "list_all gs_stopped (butlast gs) \<Longrightarrow> list_all gs_stopped (GracefulStop gs)"
  by (simp add: GracefulStop_def)

lemma length_GracefulStop [simp]: "length (GracefulStop gs) = length gs"
  by (simp add: GracefulStop_def)

lemma target_notify_started:
  "target_notify 0 0 initialTarget = Ok \<lparr>servers = [RegCertificateManagement PrepareEncrypted], bootstrapping = True, serving = None, waiting = 1\<rparr>"
  by (simp add: target_notify_def initialTarget_def GracefulStop_def Let_def)

lemmas server_defs = RegCertificateManagement_def PrepareAuthenticated_def PrepareEncrypted_def modeFor_def

lemma target_notify_ok:
  assumes "target_ok tg"
  shows "\<exists>tg'. target_notify c a tg = Ok tg' \<and> target_ok tg' \<and> bootstrapping tg' = (\<not> (c \<noteq> 0 \<and> a \<noteq> 0))"
proof (cases "bootstrapping tg = (\<not> (c \<noteq> 0 \<and> a \<noteq> 0))")
  case True
  with assms show ?thesis by (auto simp: target_notify_def Let_def)
next
  case False
  have "servers tg \<noteq> []" "list_all gs_stopped (butlast (servers tg))" using assms by (auto simp: target_ok_def)
  moreover have "served (tg\<lparr>servers := GracefulStop (servers tg) @ [g], bootstrapping := b, waiting := Suc (waiting tg)\<rparr>)" for g b
    using assms by (auto simp: target_ok_def served_def split: option.splits)
  ultimately show ?thesis
    using False GracefulStop_stopped by (auto simp: target_notify_def Let_def target_ok_def server_defs)
qed

lemma target_step_ok: "target_step tg tg' \<Longrightarrow> target_ok tg \<Longrightarrow> target_ok tg'"
proof (induction rule: target_step.induct)
  case (notified certs caCerts tg tg')
  with target_notify_ok [of tg certs caCerts] show ?case by auto
next
  case (serve_ends tg i)
  then have "i \<noteq> length (servers tg) - 1"
    by (auto simp: target_ok_def last_conv_nth)
  with serve_ends show ?case by (auto simp: target_ok_def served_def)
qed (auto simp: target_ok_def served_def)

lemma target_reachable_ok: "target_reachable tg \<Longrightarrow> target_ok tg"
proof (induction rule: target_reachable.induct)
  case (started tg)
  then show ?case
    by (auto simp: target_notify_started target_ok_def served_def server_defs)
qed (rule target_step_ok)

text \<open>A target that starts is registered with an empty manager and in a good state.\<close>

lemma target_main_ok:
  assumes "target_main v6 (NewServer gk ss priv dflt) = Ok (s, tg)"
  shows "target_reachable tg \<and> bootstrapping tg \<and> (\<exists>key. certManager s = RegisterNotifier 0 (NewManager key))"
  using assms started [OF target_notify_started]
  by (auto simp: target_main_def NewServer_def Let_def gnoi_RegisterNotifier_def target_notify_started split: option.splits if_splits)

section \<open>The target as a notifier\<close>

text \<open>The calls that one notifier gets from the manager, one after the other.\<close>

fun notifyAll :: "(nat \<times> nat) list \<Rightarrow> target \<Rightarrow> (unit, target) result" where
  "notifyAll [] tg = Ok tg"
| "notifyAll ((c, a) # ns) tg = (case target_notify c a tg of Inl e \<Rightarrow> Inl e | Inr tg' \<Rightarrow> notifyAll ns tg')"

lemma notifyAll_mode:
  assumes "target_ok tg"
  shows "\<exists>tg'. notifyAll ns tg = Ok tg' \<and> target_ok tg'
    \<and> bootstrapping tg' = (if ns = [] then bootstrapping tg else \<not> (fst (last ns) \<noteq> 0 \<and> snd (last ns) \<noteq> 0))"
  using assms
proof (induction ns arbitrary: tg)
  case (Cons n ns)
  obtain c a where n: "n = (c, a)" by (cases n)
  from target_notify_ok [OF Cons.prems, of c a] obtain tg1 where
    1: "target_notify c a tg = Ok tg1" "target_ok tg1" "bootstrapping tg1 = (\<not> (c \<noteq> 0 \<and> a \<noteq> 0))" by blast
  from Cons.IH [OF 1(2)] obtain tg2 where "notifyAll ns tg1 = Ok tg2" "target_ok tg2"
    "bootstrapping tg2 = (if ns = [] then bootstrapping tg1 else \<not> (fst (last ns) \<noteq> 0 \<and> snd (last ns) \<noteq> 0))" by blast
  with 1 show ?case by (intro exI [of _ tg2]) (simp add: n)
qed simp

definition callsOf :: "nat \<Rightarrow> 'x manager \<Rightarrow> (nat \<times> nat) list" where
  "callsOf f cm = map snd (filter (\<lambda>c. fst c = f) (calls cm))"

lemma map_of_rev_filter:
  "map_of (rev xs) f = (let ys = map snd (filter (\<lambda>c. fst c = f) xs) in if ys = [] then None else Some (last ys))"
  by (induction xs rule: rev_induct) (auto simp: Let_def map_add_def)

lemma lastCall_callsOf: "lastCall f cm = (if callsOf f cm = [] then None else Some (last (callsOf f cm)))"
  by (simp add: lastCall_def callsOf_def map_of_rev_filter Let_def)

text \<open>What a notifier knows that has been told at its start that there are no credentials.\<close>

definition lastSeen :: "nat \<Rightarrow> 'x manager \<Rightarrow> nat \<times> nat" where
  "lastSeen f cm = (case lastCall f cm of None \<Rightarrow> (0, 0) | Some n \<Rightarrow> n)"

definition seen_ok :: "nat \<Rightarrow> 'x manager \<Rightarrow> bool" where
  "seen_ok f cm =
     (f \<in> set (notifiers cm)
      \<and> (pendingNotify cm = 0 \<longrightarrow> lastSeen f cm = (length (certInfo cm), length (caBundle cm))))"

lemma seen_ok_locks: "seen_ok f (cm\<lparr>locks := l\<rparr>) = seen_ok f cm"
  by (simp add: seen_ok_def lastSeen_def lastCall_def)

lemma seen_ok_goNotify: "seen_ok f (goNotify cm) \<longleftrightarrow> f \<in> set (notifiers cm)"
  by (simp add: seen_ok_def goNotify_def)

lemma seen_ok_notify: "seen_ok f cm \<Longrightarrow> seen_ok f (notify cm)"
  by (simp add: seen_ok_def lastSeen_def lastCall_notify) (simp add: notify_def)

lemma seen_ok_update:
  assumes "seen_ok f cm" "list_all (\<lambda>p. decode p \<noteq> None) cas"
  shows "seen_ok f (fst (update decode now req cid c cas cm))"
  using assms(1) decodeBundle_ok [OF assms(2), of "[]"]
  by (auto simp: update_def Let_def seen_ok_goNotify seen_ok_locks split: option.splits) (simp_all add: seen_ok_def)

lemma seen_ok_exec:
  assumes "seen_ok f (fst s)" "bundle_ok decode opn"
  shows "seen_ok f (fst (exec decode opn s))"
proof (cases s)
  case (Pair cm P)
  show ?thesis
  proof (cases opn)
    case (OpInstall now cid c cas)
    with assms Pair seen_ok_update [of f cm decode cas now False cid c] show ?thesis
      by (auto simp: fst_Install seen_ok_locks split: prod.splits sum.splits)
  next
    case (OpRotate now cid c cas)
    with assms Pair seen_ok_update [of f cm decode cas now True cid c] show ?thesis
      by (auto simp: Rotate_def split: prod.splits sum.splits)
  next
    case (OpRegister g)
    with assms Pair show ?thesis
      by (simp add: RegisterNotifier_def seen_ok_def lastSeen_def lastCall_def)
  next
    case (OpRollback cid)
    with assms Pair show ?thesis by (cases "outstanding cid P") (simp_all add: rollback_def seen_ok_def goNotify_def)
  next
    case (OpAccept cid)
    with assms Pair show ?thesis by (cases "outstanding cid P") (simp_all add: accept_def seen_ok_locks)
  next
    case (OpRevoke ids)
    with assms Pair show ?thesis by (simp add: seen_ok_def Revoke_certInfo)
  next
    case OpNotify
    with assms Pair show ?thesis by (simp add: seen_ok_notify)
  qed
qed

lemma seen_ok_run:
  assumes "\<forall>opn \<in> set ops. bundle_ok decode opn"
  shows "seen_ok f (fst (run decode (OpRegister f # ops) (NewManager key, [])))"
proof -
  have "seen_ok f (fst (exec decode (OpRegister f) (NewManager key, [])))"
    by (simp add: NewManager_def RegisterNotifier_def seen_ok_def lastSeen_def lastCall_def)
  moreover have "seen_ok f (fst (run decode ops s))" if "seen_ok f (fst s)" for s
    using that run_invariant [where I = "\<lambda>s. seen_ok f (fst s)"] seen_ok_exec assms by metis
  ultimately show ?thesis by simp
qed

section \<open>Stopping a server inside a notification\<close>

text \<open>
  \<open>update\<close> starts the \<open>notify\<close> goroutine and gives the mutex back; \<open>Install\<close> then takes the mutex again for its \<open>accept\<close>.
  \<open>notify\<close> holds the mutex for reading while the target stops its server, and \<open>GracefulStop\<close> waits for the calls that
  run on that server, the Install call among them. These are the program points of the call and of the goroutine.
\<close>

datatype installPoint = BeforeUpdate | BeforeAccept | AfterAccept | Returned

datatype notifyPoint = NotStarted | Runnable | InGracefulStop | Notified

inductive install_step :: "installPoint \<times> notifyPoint \<Rightarrow> installPoint \<times> notifyPoint \<Rightarrow> bool" where
  update_done: "install_step (BeforeUpdate, NotStarted) (BeforeAccept, Runnable)"
| notify_locks: "install_step (i, Runnable) (i, InGracefulStop)"
| accept_done: "n \<noteq> InGracefulStop \<Longrightarrow> install_step (BeforeAccept, n) (AfterAccept, n)"
| call_returns: "install_step (AfterAccept, n) (Returned, n)"
| stop_returns: "install_step (Returned, InGracefulStop) (Returned, Notified)"

inductive_simps install_stuck: "install_step (Returned, Notified) s" "install_step (BeforeAccept, InGracefulStop) s"

inductive install_reachable :: "installPoint \<times> notifyPoint \<Rightarrow> bool" where
  install_started: "install_reachable (BeforeUpdate, NotStarted)"
| install_steps: "install_reachable s \<Longrightarrow> install_step s s' \<Longrightarrow> install_reachable s'"

definition installStates :: "(installPoint \<times> notifyPoint) set" where
  "installStates = {(BeforeUpdate, NotStarted), (BeforeAccept, Runnable), (BeforeAccept, InGracefulStop), (AfterAccept, Runnable),
     (AfterAccept, InGracefulStop), (Returned, Runnable), (Returned, InGracefulStop), (Returned, Notified)}"

lemma install_reachable_states: "install_reachable s \<Longrightarrow> s \<in> installStates"
proof (induction rule: install_reachable.induct)
  case (install_steps s s')
  from install_steps(2,3) show ?case by cases (auto simp: installStates_def)
qed (simp add: installStates_def)

lemma install_reaches:
  "install_reachable (BeforeAccept, InGracefulStop)" "install_reachable (Returned, Notified)"
proof -
  have 1: "install_reachable (BeforeAccept, Runnable)"
    by (rule install_steps [OF install_started update_done])
  show "install_reachable (BeforeAccept, InGracefulStop)" by (rule install_steps [OF 1 notify_locks])
  have "install_reachable (AfterAccept, Runnable)" by (rule install_steps [OF 1 accept_done]) simp
  then have "install_reachable (Returned, Runnable)" by (rule install_steps [OF _ call_returns])
  then have "install_reachable (Returned, InGracefulStop)" by (rule install_steps [OF _ notify_locks])
  then show "install_reachable (Returned, Notified)" by (rule install_steps [OF _ stop_returns])
qed

section \<open>Properties\<close>

text \<open>In every state that the target reaches, exactly the last of its servers has not been stopped; it has the
  certificate service, the mode that goes with \<open>bootstrapping\<close>, and it is being served or a goroutine waits to serve it.\<close>

lemma target_invariant:
  assumes "target_reachable tg"
  shows "target_ok tg"
  using assms by (rule target_reachable_ok)

lemma target_invariant_witness:
  "target_ok \<lparr>servers = [(RegCertificateManagement PrepareEncrypted)\<lparr>gs_stopped := True\<rparr>, RegCertificateManagement PrepareAuthenticated],
      bootstrapping = False, serving = Some 0, waiting = 1\<rparr>"
proof (rule target_invariant)
  let ?s = "RegCertificateManagement PrepareEncrypted"
  have "target_reachable \<lparr>servers = [?s], bootstrapping = True, serving = None, waiting = 1\<rparr>"
    by (rule started [OF target_notify_started])
  then have "target_reachable \<lparr>servers = [?s], bootstrapping = True, serving = Some 0, waiting = 0\<rparr>"
    by (rule steps) (use serve_begins [of "\<lparr>servers = [?s], bootstrapping = True, serving = None, waiting = 1\<rparr>" 0] in simp)
  then show "target_reachable \<lparr>servers = [?s\<lparr>gs_stopped := True\<rparr>, RegCertificateManagement PrepareAuthenticated],
      bootstrapping = False, serving = Some 0, waiting = 1\<rparr>"
    by (rule steps) (rule notified [of 1 1], simp add: target_notify_def GracefulStop_def)
qed




end
