(* ===== verification/Provision.thy ===== *)
theory Provision
  imports GoStrings Entity Target
begin

text \<open>
  The command \<open>gnoi_cert/gnoi_cert.go\<close>, which provisions a target, and its run against the service of a target: the client
  signs with an entity, the target's manager keeps the certificate and the target changes its mode.
\<close>

section \<open>The command\<close>

record certFlags =
  f_certID :: string
  f_certIDs :: string
  f_op :: string
  f_ca :: string
  f_key :: string
  f_targetCN :: string
  f_minKeySize :: "32 word"
  f_country :: string
  f_state :: string
  f_org :: string
  f_orgUnit :: string
  f_ipAddress :: string

datatype command = CmdProvision | CmdInstall | CmdRotate | CmdRevoke "string list" | CmdCheck | CmdGet

text \<open>\<open>strings.FieldsFunc\<close> at commas: the parts between commas that are not empty.\<close>

definition fieldsAtCommas :: "string \<Rightarrow> string list" where
  "fieldsAtCommas s = filter (\<lambda>f. f \<noteq> []) (SplitByte s CHR '','')"

definition revokeIDs :: "certFlags \<Rightarrow> (string, string list) result" where
  "revokeIDs fl =
     (if f_certIDs fl \<noteq> [] then
        (let ids = fieldsAtCommas (f_certIDs fl) in
         if ids = [] then Failed ''Must specify comma separated certificate IDs when using -cert_ids'' else Ok ids)
      else if f_certID fl = [] then
        Failed ''Must set a certificate ID with -cert_id or set multiple IDs with -cert_ids''
      else Ok [f_certID fl])"

definition certIDCheck :: "certFlags \<Rightarrow> command \<Rightarrow> (string, command) result" where
  "certIDCheck fl c = (if f_certID fl = [] then Failed ''Must set a certificate ID with -cert_id.'' else Ok c)"

text \<open>\<open>main\<close> up to the call of the operation; \<open>log.Exit\<close> is \<open>Failed\<close>.\<close>

definition cert_main :: "'d x509lib \<Rightarrow> certFlags \<Rightarrow> (string, 'd entity \<times> command) result" where
  "cert_main lib fl =
     (if f_ca fl = [] \<or> f_key fl = [] then Failed ''-ca and -key must be set with file locations''
      else if f_targetCN fl = [] then Failed ''Must set a Common Name ID with -targetCN.''
      else
        (case FromFile lib (f_ca fl) (f_key fl) of
           Inl (Panic p) \<Rightarrow> Panics p
         | Inl (Err e) \<Rightarrow> Failed ''Failed to load certificate and key from file''
         | Inr caEnt \<Rightarrow>
             (case (if f_op fl = ''provision'' then certIDCheck fl CmdProvision
                    else if f_op fl = ''install'' then certIDCheck fl CmdInstall
                    else if f_op fl = ''rotate'' then certIDCheck fl CmdRotate
                    else if f_op fl = ''revoke'' then
                      (case revokeIDs fl of Inl e \<Rightarrow> Inl e | Inr ids \<Rightarrow> Ok (CmdRevoke ids))
                    else if f_op fl = ''check'' then Ok CmdCheck
                    else if f_op fl = ''get'' then Ok CmdGet
                    else Failed ''Unknown operation'') of
                Inl e \<Rightarrow> Inl e
              | Inr c \<Rightarrow> Ok (caEnt, c))))"

definition pkiName :: "certFlags \<Rightarrow> pkixName" where
  "pkiName fl = emptyName\<lparr>CommonName := f_targetCN fl, Organization := [f_org fl], OrganizationalUnit := [f_orgUnit fl],
     Country := [f_country fl], Province := [f_state fl]\<rparr>"

definition signer :: "'d x509lib \<Rightarrow> draw \<Rightarrow> 'd entity \<Rightarrow> csrInfo \<Rightarrow> (string, x509) result" where
  "signer lib d caEnt csr =
     (case FromSigningRequest lib d csr of
        Inl (Panic p) \<Rightarrow> Panics p
      | Inl (Err e) \<Rightarrow> Failed ''failed generating a cert from a CSR''
      | Inr e \<Rightarrow>
          (case SignWith lib False caEnt e of
             (_, Inl (Panic p)) \<Rightarrow> Panics p
           | (_, Inl (Err _)) \<Rightarrow> Failed ''failed to sign the certificate''
           | (e', Inr _) \<Rightarrow> (case leafOf e' of None \<Rightarrow> Panics NilDereference | Some c \<Rightarrow> Ok c)))"

text \<open>The PEM text of a certificate or request, and \<open>Raw\<close>, the bytes that a certificate was parsed from.\<close>

record ('b, 'd) pemlib =
  pemEncode :: "'d \<Rightarrow> 'b"
  pemDecode :: "'b \<Rightarrow> 'd option"
  raw :: "x509 \<Rightarrow> 'd"

definition parseCSR :: "('b, 'd) pemlib \<Rightarrow> 'd x509lib \<Rightarrow> 'b \<Rightarrow> client_error + csrInfo" where
  "parseCSR pl lib b =
     (case pemDecode pl b of
        None \<Rightarrow> Inl C_CSRNotPEM
      | Some der \<Rightarrow> (case ParseCertificateRequest lib der of None \<Rightarrow> Inl C_CSRNotParsed | Some csr \<Rightarrow> Inr csr))"

definition certOps :: "('b, 'd) pemlib \<Rightarrow> 'd x509lib \<Rightarrow> draw \<Rightarrow> 'd entity \<Rightarrow> ('b, x509, csrInfo) clientOps" where
  "certOps pl lib d caEnt =
     \<lparr>co_parseCSR = parseCSR pl lib,
      co_sign = (\<lambda>csr. case signer lib d caEnt csr of Inl e \<Rightarrow> None | Inr c \<Rightarrow> Some c),
      co_encode = x509toPEM (pemEncode pl) (raw pl)\<rparr>"

text \<open>
  The calls of \<open>provision\<close> and \<open>install\<close>, which differ in the connection that they use, and of \<open>rotate\<close>. The CA's certificate
  is dereferenced for the bundle; \<open>FromFile\<close> has set it.
\<close>

definition installCall ::
    "('b, 'd) pemlib \<Rightarrow> 'd x509lib \<Rightarrow> draw \<Rightarrow> 'd entity \<Rightarrow> certFlags
     \<Rightarrow> ('b response, 'b request, unit, (client_error, unit) result) proc" where
  "installCall pl lib d caEnt fl =
     (case leafOf caEnt of
        None \<Rightarrow> Done (Panics NilDereference)
      | Some l \<Rightarrow> Client_Install (certOps pl lib d caEnt) (f_certID fl) (f_minKeySize fl) (pkiName fl) (f_ipAddress fl) [l])"

definition rotateCall ::
    "('b, 'd) pemlib \<Rightarrow> 'd x509lib \<Rightarrow> draw \<Rightarrow> 'd entity \<Rightarrow> certFlags
     \<Rightarrow> ('b response, 'b request, unit, (client_error, unit) result) proc" where
  "rotateCall pl lib d caEnt fl =
     (case leafOf caEnt of
        None \<Rightarrow> Done (Panics NilDereference)
      | Some l \<Rightarrow> Client_Rotate (certOps pl lib d caEnt) (f_certID fl) (f_minKeySize fl) (pkiName fl) (f_ipAddress fl) [l] True)"

text \<open>The TLS configurations: what the client presents, and whether it verifies the target, by which name and certificate.\<close>

record 'd clientTLS =
  ct_ServerName :: string
  ct_InsecureSkipVerify :: bool
  ct_Certificate :: "'d tlsPair"
  ct_RootCA :: "x509 option"

definition gnoiEncrypted :: "'d tlsPair \<Rightarrow> 'd clientTLS" where
  "gnoiEncrypted c = \<lparr>ct_ServerName = [], ct_InsecureSkipVerify = True, ct_Certificate = c, ct_RootCA = None\<rparr>"

definition gnoiAuthenticated :: "'d x509lib \<Rightarrow> draw \<Rightarrow> 'd entity \<Rightarrow> string \<Rightarrow> (string, 'd clientTLS) result" where
  "gnoiAuthenticated lib d caEnt targetName =
     (case CreateSigned lib d ''client'' None caEnt of
        Inl (Panic p) \<Rightarrow> Panics p
      | Inl (Err e) \<Rightarrow> Failed ''Failed to create a signed entity''
      | Inr clientEnt \<Rightarrow>
          (case (leafOf caEnt, e_Certificate clientEnt) of
             (Some l, Some c) \<Rightarrow>
               Ok \<lparr>ct_ServerName = targetName, ct_InsecureSkipVerify = False, ct_Certificate = c, ct_RootCA = Some l\<rparr>
           | _ \<Rightarrow> Panics NilDereference))"

section \<open>What the library promises for requests, key pairs and PEM\<close>

definition requestTemplate :: "pkixName \<Rightarrow> csrInfo" where
  "requestTemplate subject = \<lparr>q_Subject = subject, q_PublicKey = None, q_PublicKeyAlgorithm = 0, q_SignatureAlgorithm = SHA256WithRSA,
     q_Signature = [], q_Version = 0, q_DNSNames = [], q_EmailAddresses = [], q_IPAddresses = [], q_Extensions = [], q_ExtraExtensions = []\<rparr>"

text \<open>\<open>GenCSR\<close> of the manager over this library.\<close>

definition targetCSR :: "('b, 'd) pemlib \<Rightarrow> 'd x509lib \<Rightarrow> pkixName \<Rightarrow> x509 manager \<Rightarrow> (cert_error, 'b) result" where
  "targetCSR pl lib subject cm =
     GenCSR (\<lambda>subject key. CreateCertificateRequest lib (requestTemplate subject) (Some (RSAPrivateKey key))) (pemEncode pl) subject cm"

text \<open>
  A request has the subject and the names it is made for and the public key of its signer; a loaded pair of files has a certificate
  for its key; PEM texts and the raw bytes of a certificate decode.
\<close>

definition requestLaws :: "'d x509lib \<Rightarrow> bool" where
  "requestLaws lib =
     (\<forall>subject k. \<exists>der csr. CreateCertificateRequest lib (requestTemplate subject) (Some (RSAPrivateKey k)) = Some der
        \<and> ParseCertificateRequest lib der = Some csr \<and> q_Subject csr = subject \<and> q_PublicKey csr = Some (RSAPublicKey k)
        \<and> q_SignatureAlgorithm csr = SHA256WithRSA \<and> q_DNSNames csr = [] \<and> q_ExtraExtensions csr = [])"

definition pairLaws :: "'d x509lib \<Rightarrow> bool" where
  "pairLaws lib =
     (\<forall>cf kf der ders k c. LoadX509KeyPair lib cf kf = Some (der # ders, RSAPrivateKey k) \<longrightarrow> ParseCertificate lib der = Some c
        \<longrightarrow> x_PublicKey c = Some (RSAPublicKey k))"

definition pemLaws :: "('b, 'd) pemlib \<Rightarrow> 'd x509lib \<Rightarrow> bool" where
  "pemLaws pl lib =
     ((\<forall>der. pemDecode pl (pemEncode pl der) = Some der)
      \<and> (\<forall>der c. ParseCertificate lib der = Some c \<longrightarrow> ParseCertificate lib (raw pl c) = Some c))"

section \<open>Signing a request\<close>

text \<open>A CA that was read from files, with its key and certificate.\<close>

definition loadedCA :: "'d x509lib \<Rightarrow> 'd entity \<Rightarrow> string \<Rightarrow> x509 \<Rightarrow> bool" where
  "loadedCA lib ca cak l =
     (leafOf ca = Some l \<and> (\<exists>der. ParseCertificate lib der = Some l) \<and> e_PrivateKey ca = Some (RSAPrivateKey cak)
      \<and> x_PublicKey l = Some (RSAPublicKey cak))"

lemma FromFile_loaded:
  assumes "pairLaws lib" "FromFile lib cf kf = Ok ca" "e_PrivateKey ca = Some (RSAPrivateKey cak)"
  obtains l where "loadedCA lib ca cak l"
  using assms unfolding FromFile_def pairLaws_def loadedCA_def leafOf_def
  by (fastforce split: option.splits prod.splits list.splits)

lemma FromSigningRequest_Ok:
  assumes "keyID lib (Some (RSAPublicKey k)) = Ok kid" "d_serial d = Some n"
    and "q_PublicKey csr = Some (RSAPublicKey k)" "q_SignatureAlgorithm csr = SHA256WithRSA"
  shows "\<exists>t. FromSigningRequest lib d csr =
      Ok \<lparr>e_Template = Some t, e_PrivateKey = None, e_PublicKey = Some (RSAPublicKey k), e_Certificate = None\<rparr>
    \<and> x_SerialNumber t \<noteq> None \<and> x_SignatureAlgorithm t = SHA256WithRSA \<and> x_MaxPathLen t = 0 \<and> \<not> x_IsCA t
    \<and> x_BasicConstraintsValid t \<and> x_Subject t = q_Subject csr
    \<and> x_DNSNames t = q_DNSNames csr \<and> x_ExtraExtensions t = q_ExtraExtensions csr"
  using assms by (simp add: FromSigningRequest_def Let_def zeroCertificate_def)

lemma signer_signs:
  assumes "x509Laws lib" "loadedCA lib ca cak l" "d_serial d \<noteq> None"
    and "q_PublicKey csr = Some (RSAPublicKey k)" "q_SignatureAlgorithm csr = SHA256WithRSA"
  obtains c where "signer lib d ca csr = Ok c" "x_Subject c = q_Subject csr" "x_PublicKey c = Some (RSAPublicKey k)"
    "\<not> canSign c" "CheckSignatureFrom lib c l \<longleftrightarrow> canSign l" "\<exists>der. ParseCertificate lib der = Some c"
    "q_ExtraExtensions csr = [] \<Longrightarrow> x_DNSNames c = q_DNSNames csr"
proof -
  obtain kid where kid: "keyID lib (Some (RSAPublicKey k)) = Ok kid" using keyID_ok [OF assms(1)] by blast
  obtain n where n: "d_serial d = Some n" using assms(3) by blast
  obtain t where F: "FromSigningRequest lib d csr =
      Ok \<lparr>e_Template = Some t, e_PrivateKey = None, e_PublicKey = Some (RSAPublicKey k), e_Certificate = None\<rparr>"
    and t: "x_SerialNumber t \<noteq> None" "x_SignatureAlgorithm t = SHA256WithRSA" "x_MaxPathLen t = 0" "\<not> x_IsCA t"
      "x_BasicConstraintsValid t" "x_Subject t = q_Subject csr" "x_DNSNames t = q_DNSNames csr" "x_ExtraExtensions t = q_ExtraExtensions csr"
    using FromSigningRequest_Ok [OF kid n assms(4,5)] by (elim exE conjE) (rule that)
  define e :: "'a entity" where "e = \<lparr>e_Template = Some t, e_PrivateKey = None, e_PublicKey = Some (RSAPublicKey k), e_Certificate = None\<rparr>"
  have e: "FromSigningRequest lib d csr = Ok e" "e_Template e = Some t" "e_PublicKey e = Some (RSAPublicKey k)"
    using F by (simp_all add: e_def)
  have par: "parent_ok cak ca" using assms(2) by (simp add: loadedCA_def parent_ok_def parentTemplate_def)
  obtain e' c t' where s: "SignWith lib False ca e = (e', Ok ())" "leafOf e' = Some c" "certifies lib t t' k cak c"
    and parsed: "\<exists>der. ParseCertificate lib der = Some c"
    by (rule SignWith_certifies [OF assms(1) par e(2,3) t(1,2) disjI2 [OF t(3)], where self = False]) simp
  show thesis
  proof (rule that [of c])
    show "signer lib d ca csr = Ok c" using s e by (simp add: signer_def)
    show "x_Subject c = q_Subject csr" "x_PublicKey c = Some (RSAPublicKey k)" "\<not> canSign c"
      using s(3) t by (auto simp: certifies_def canSign_def)
    show "CheckSignatureFrom lib c l \<longleftrightarrow> canSign l"
      using s(3) assms(2) by (simp add: certifies_def loadedCA_def)
    show "\<exists>der. ParseCertificate lib der = Some c" by (rule parsed)
    show "x_DNSNames c = q_DNSNames csr" if "q_ExtraExtensions csr = []"
      using s(3) t(7,8) that by (simp add: certifies_def)
  qed
qed

section \<open>Provisioning\<close>

text \<open>The client and the service of one installation, linked.\<close>

lemma install_link:
  fixes n :: pkixName
  assumes "clientParams ks n ip = Ok p" "csr_Type p = CT_X509" "csr_KeyType p = KT_RSA"
    and "genCSR (csrSubject p) cm = Ok pem" "co_parseCSR ops pem = Inr csr" "co_sign ops csr = Some x"
    and "Install decode now cid (co_encode ops x) (map (co_encode ops) cas) cm = (cm', Ok ())"
  shows "link 20 (Client_Install ops cid ks n ip cas) (Server_Install (managerOf decode now genCSR)) [] [] (cm, P)
    = Some ((cm', P), Ok (), Ok ())"
  using assms
  by (simp add: Client_Install_def clientSession_def Server_Install_def csrPhase_def loadPhase_def eval_nat_numeral
      managerOf_def caCertificates_map)

definition provisioned :: "x509 manager \<Rightarrow> nat \<Rightarrow> string \<Rightarrow> x509 \<Rightarrow> x509 \<Rightarrow> x509 manager" where
  "provisioned cm now cid c l = cm\<lparr>certInfo := [(cid, Some \<lparr>certID = cid, cert = c, updated = now\<rparr>)], caBundle := [l],
     pendingNotify := Suc (pendingNotify cm)\<rparr>"

lemma Install_empty:
  assumes "certInfo cm = []" "locks cm = []" "decode pc = Some c" "decode pl = Some l"
  shows "Install decode now cid pc [pl] cm = (provisioned cm now cid c l, Ok ())"
  using assms by (simp add: Install_def update_def accept_def goNotify_def provisioned_def)

lemma provisioned_target:
  assumes "certInfo cm = []" "locks cm = []" "calls cm = []" "notifiers cm = [0]"
  shows "\<exists>tg tg'. target_notify 0 0 initialTarget = Ok tg \<and> notifyAll (callsOf 0 (notify (provisioned cm now cid c l))) tg = Ok tg'
    \<and> target_ok tg' \<and> gs_mode (last (servers tg')) = Authenticated"
proof -
  have "target_ok \<lparr>servers = [RegCertificateManagement PrepareEncrypted], bootstrapping = True, serving = None, waiting = 1\<rparr>"
    by (rule target_reachable_ok [OF started [OF target_notify_started]])
  from notifyAll_mode [OF this, of "[(1, 1)]"] obtain tg' where
    "notifyAll [(1, 1)] \<lparr>servers = [RegCertificateManagement PrepareEncrypted], bootstrapping = True, serving = None, waiting = 1\<rparr> = Ok tg'"
    "target_ok tg'" "\<not> bootstrapping tg'" by auto
  moreover have "callsOf 0 (notify (provisioned cm now cid c l)) = [(1, 1)]"
    using assms by (simp add: callsOf_def notify_def provisioned_def)
  ultimately show ?thesis using target_notify_started by (auto simp: target_ok_def modeFor_def)
qed

text \<open>What client and target agree on before a certificate is loaded: the parameters, the target's request, and the signed certificate.\<close>

lemma signed_for_target:
  assumes "x509Laws lib" "requestLaws lib" "pemLaws pl lib" "loadedCA lib ca cak l" "d_serial d \<noteq> None"
  obtains p pem csr c where "clientParams (f_minKeySize fl) (pkiName fl) (f_ipAddress fl) = Ok p" "csr_Type p = CT_X509" "csr_KeyType p = KT_RSA"
    "targetCSR pl lib (csrSubject p) cm = Ok pem" "co_parseCSR (certOps pl lib d ca) pem = Inr csr" "co_sign (certOps pl lib d ca) csr = Some c"
    "CommonName (x_Subject c) = f_targetCN fl" "x_PublicKey c = Some (RSAPublicKey (privateKey cm))"
    "CheckSignatureFrom lib c l \<longleftrightarrow> canSign l" "\<exists>der. ParseCertificate lib der = Some c" "x_DNSNames c = []"
proof -
  obtain p where p: "clientParams (f_minKeySize fl) (pkiName fl) (f_ipAddress fl) = Ok p" "csr_Type p = CT_X509" "csr_KeyType p = KT_RSA"
      "CommonName (csrSubject p) = f_targetCN fl"
    by (rule clientParams_ok [of "pkiName fl" "f_minKeySize fl" "f_ipAddress fl"]) (simp_all add: pkiName_def)
  obtain der csr where csr: "CreateCertificateRequest lib (requestTemplate (csrSubject p)) (Some (RSAPrivateKey (privateKey cm))) = Some der"
      "ParseCertificateRequest lib der = Some csr" "q_Subject csr = csrSubject p" "q_PublicKey csr = Some (RSAPublicKey (privateKey cm))"
      "q_SignatureAlgorithm csr = SHA256WithRSA" "q_DNSNames csr = []" "q_ExtraExtensions csr = []"
    using assms(2) unfolding requestLaws_def by blast
  obtain c where c: "signer lib d ca csr = Ok c" "x_Subject c = csrSubject p" "x_PublicKey c = Some (RSAPublicKey (privateKey cm))"
      "CheckSignatureFrom lib c l \<longleftrightarrow> canSign l" "\<exists>der. ParseCertificate lib der = Some c" "x_DNSNames c = []"
    using signer_signs [OF assms(1,4,5) csr(4,5)] csr(3,6,7) by metis
  show thesis
  proof (rule that [OF p(1-3), of "pemEncode pl der" csr c])
    show "targetCSR pl lib (csrSubject p) cm = Ok (pemEncode pl der)" using csr(1) by (simp add: targetCSR_def GenCSR_def createCSR_def)
    show "co_parseCSR (certOps pl lib d ca) (pemEncode pl der) = Inr csr" using csr(2) assms(3) by (simp add: certOps_def parseCSR_def pemLaws_def)
    show "co_sign (certOps pl lib d ca) csr = Some c" using c(1) by (simp add: certOps_def)
  qed (use c p(4) in simp_all)
qed

lemma decode_encoded:
  assumes "pemLaws pl lib" "\<exists>der. ParseCertificate lib der = Some y"
  shows "PEMtox509 (pemDecode pl) (ParseCertificate lib) (x509toPEM (pemEncode pl) (raw pl) y) = Some y"
  using assms by (auto simp: PEMtox509_def x509toPEM_def pemLaws_def)

section \<open>Properties\<close>


definition samplePem :: "(derBytes, derBytes) pemlib" where
  "samplePem = \<lparr>pemEncode = (\<lambda>d. d), pemDecode = Some, raw = DerCert\<rparr>"

definition sampleFlags :: certFlags where
  "sampleFlags = \<lparr>f_certID = ''id'', f_certIDs = [], f_op = ''provision'', f_ca = ''ca.crt'', f_key = ''ca.key'', f_targetCN = ''target'',
     f_minKeySize = 128, f_country = ''US'', f_state = ''CA'', f_org = [], f_orgUnit = [], f_ipAddress = ''127.0.0.1''\<rparr>"

lemma sample_provision_laws: "requestLaws sampleLib" "pairLaws sampleLib" "pemLaws samplePem sampleLib"
  by (auto simp: requestLaws_def pairLaws_def pemLaws_def sampleLib_def samplePem_def requestTemplate_def split: derBytes.splits)


end
