(* ===== verification/CertCommand.thy ===== *)
theory CertCommand
  imports Provision
begin

text \<open>
  The operations of the command \<open>gnoi_cert/gnoi_cert.go\<close> over a connection, and the life of a certificate: a target is
  provisioned, asked, given a new certificate and stripped of it by one client.
\<close>

section \<open>The operations\<close>

text \<open>What the command prints at its end.\<close>

datatype cmdOutput =
    Success
  | RevokedCerts "(string, revoke_error) gomap"
  | CanGenerate bool
  | Certificates "(string, x509) gomap"

text \<open>
  A target as its clients see it: dialling, and the calls over a connection with a TLS configuration. The two streams run
  a client process to its end. \<open>None\<close> is the failure of a call.
\<close>

record ('s, 'b, 'd) certService =
  cs_dial :: "'d clientTLS \<Rightarrow> bool"
  cs_Install :: "'d clientTLS \<Rightarrow> ('b response, 'b request, unit, (client_error, unit) result) proc \<Rightarrow> 's \<Rightarrow> 's \<times> (client_error, unit) result"
  cs_Rotate :: "'d clientTLS \<Rightarrow> ('b response, 'b request, unit, (client_error, unit) result) proc \<Rightarrow> 's \<Rightarrow> 's \<times> (client_error, unit) result"
  cs_RevokeCertificates :: "'d clientTLS \<Rightarrow> string list \<Rightarrow> 's \<Rightarrow> 's \<times> (string \<times> revoke_error) list option"
  cs_CanGenerateCSR :: "'d clientTLS \<Rightarrow> 's \<Rightarrow> int \<Rightarrow> int \<Rightarrow> 32 word \<Rightarrow> bool option"
  cs_GetCertificates :: "'d clientTLS \<Rightarrow> 's \<Rightarrow> 'b certificateInfo list option"

definition dialled ::
    "('s, 'b, 'd) certService \<Rightarrow> (string, 'd clientTLS) result \<Rightarrow> ('d clientTLS \<Rightarrow> 's \<Rightarrow> 's \<times> (string, 'o) result) \<Rightarrow> 's
     \<Rightarrow> 's \<times> (string, 'o) result" where
  "dialled sv config k s =
     (case config of
        Inl e \<Rightarrow> (s, Inl e)
      | Inr ct \<Rightarrow> if cs_dial sv ct then k ct s else (s, Failed ''Failed dial to target''))"

text \<open>\<open>log.Exit\<close> with the text, or the output.\<close>

definition ended :: "string \<Rightarrow> ('a \<Rightarrow> cmdOutput) \<Rightarrow> (client_error, 'a) result \<Rightarrow> (string, cmdOutput) result" where
  "ended msg out r =
     (case r of
        Inl (Panic p) \<Rightarrow> Panics p
      | Inl (Err e) \<Rightarrow> Failed msg
      | Inr v \<Rightarrow> Ok (out v))"

text \<open>The signer draws from \<open>d\<close>, the entity of the client from \<open>d'\<close>.\<close>

definition provision ::
    "('b, 'd) pemlib \<Rightarrow> 'd x509lib \<Rightarrow> draw \<Rightarrow> 'd entity \<Rightarrow> certFlags \<Rightarrow> ('s, 'b, 'd) certService \<Rightarrow> 's \<Rightarrow> 's \<times> (string, cmdOutput) result" where
  "provision pl lib d ca fl sv =
     dialled sv (case e_Certificate ca of None \<Rightarrow> Panics NilDereference | Some c \<Rightarrow> Ok (gnoiEncrypted c))
       (\<lambda>ct s. case cs_Install sv ct (installCall pl lib d ca fl) s of
          (s', r) \<Rightarrow> (s', ended ''Failed Install:'' (\<lambda>_. Success) r))"

definition install_cmd ::
    "('b, 'd) pemlib \<Rightarrow> 'd x509lib \<Rightarrow> draw \<Rightarrow> draw \<Rightarrow> 'd entity \<Rightarrow> certFlags \<Rightarrow> ('s, 'b, 'd) certService \<Rightarrow> 's
     \<Rightarrow> 's \<times> (string, cmdOutput) result" where
  "install_cmd pl lib d d' ca fl sv =
     dialled sv (gnoiAuthenticated lib d' ca (f_targetCN fl))
       (\<lambda>ct s. case cs_Install sv ct (installCall pl lib d ca fl) s of
          (s', r) \<Rightarrow> (s', ended ''Failed Install:'' (\<lambda>_. Success) r))"

definition rotate_cmd ::
    "('b, 'd) pemlib \<Rightarrow> 'd x509lib \<Rightarrow> draw \<Rightarrow> draw \<Rightarrow> 'd entity \<Rightarrow> certFlags \<Rightarrow> ('s, 'b, 'd) certService \<Rightarrow> 's
     \<Rightarrow> 's \<times> (string, cmdOutput) result" where
  "rotate_cmd pl lib d d' ca fl sv =
     dialled sv (gnoiAuthenticated lib d' ca (f_targetCN fl))
       (\<lambda>ct s. case cs_Rotate sv ct (rotateCall pl lib d ca fl) s of
          (s', r) \<Rightarrow> (s', ended ''Failed Rotate:'' (\<lambda>_. Success) r))"

text \<open>\<open>main\<close> has evaluated \<open>revokeIDs\<close>, before the connection is made.\<close>

definition revoke_cmd ::
    "'d x509lib \<Rightarrow> draw \<Rightarrow> 'd entity \<Rightarrow> certFlags \<Rightarrow> string list \<Rightarrow> ('s, 'b, 'd) certService \<Rightarrow> 's \<Rightarrow> 's \<times> (string, cmdOutput) result" where
  "revoke_cmd lib d' ca fl revokeCertIDs sv =
     dialled sv (gnoiAuthenticated lib d' ca (f_targetCN fl))
       (\<lambda>ct s. case cs_RevokeCertificates sv ct revokeCertIDs s of
          (s', out) \<Rightarrow> (s', ended ''Failed RevokeCertificates:'' RevokedCerts (Client_RevokeCertificates out)))"

definition check_cmd ::
    "'d x509lib \<Rightarrow> draw \<Rightarrow> 'd entity \<Rightarrow> certFlags \<Rightarrow> ('s, 'b, 'd) certService \<Rightarrow> 's \<Rightarrow> 's \<times> (string, cmdOutput) result" where
  "check_cmd lib d' ca fl sv =
     dialled sv (gnoiAuthenticated lib d' ca (f_targetCN fl))
       (\<lambda>ct s. (s, ended ''Failed CanGenerateCSR:'' CanGenerate (Client_CanGenerateCSR (cs_CanGenerateCSR sv ct s))))"

definition get_cmd ::
    "('b, 'd) pemlib \<Rightarrow> 'd x509lib \<Rightarrow> draw \<Rightarrow> 'd entity \<Rightarrow> certFlags \<Rightarrow> ('s, 'b, 'd) certService \<Rightarrow> 's \<Rightarrow> 's \<times> (string, cmdOutput) result" where
  "get_cmd pl lib d' ca fl sv =
     dialled sv (gnoiAuthenticated lib d' ca (f_targetCN fl))
       (\<lambda>ct s. (s, ended ''Failed GetCertificates:'' Certificates
          (Client_GetCertificates (PEMtox509 (pemDecode pl) (ParseCertificate lib)) (cs_GetCertificates sv ct s))))"

definition cert_command ::
    "('b, 'd) pemlib \<Rightarrow> 'd x509lib \<Rightarrow> draw \<Rightarrow> draw \<Rightarrow> certFlags \<Rightarrow> ('s, 'b, 'd) certService \<Rightarrow> 's \<Rightarrow> 's \<times> (string, cmdOutput) result" where
  "cert_command pl lib d d' fl sv s =
     (case cert_main lib fl of
        Inl e \<Rightarrow> (s, Inl e)
      | Inr (ca, c) \<Rightarrow>
          (case c of
             CmdProvision \<Rightarrow> provision pl lib d ca fl sv s
           | CmdInstall \<Rightarrow> install_cmd pl lib d d' ca fl sv s
           | CmdRotate \<Rightarrow> rotate_cmd pl lib d d' ca fl sv s
           | CmdRevoke ids \<Rightarrow> revoke_cmd lib d' ca fl ids sv s
           | CmdCheck \<Rightarrow> check_cmd lib d' ca fl sv s
           | CmdGet \<Rightarrow> get_cmd pl lib d' ca fl sv s))"

section \<open>The service of a target\<close>

text \<open>
  The handlers over a manager, behind the TLS configuration of the target's mode. \<open>tls\<close> says whether a handshake of a client
  with a server succeeds; \<open>default\<close> is the certificate of a target without credentials.
\<close>

definition admits ::
    "('d clientTLS \<Rightarrow> clientAuth \<times> x509 tlsCertificate list \<times> x509 set option \<Rightarrow> bool) \<Rightarrow> x509 tlsCertificate \<Rightarrow> mode
     \<Rightarrow> 'd clientTLS \<Rightarrow> x509 sys \<Rightarrow> bool" where
  "admits tls selfCert md ct s =
     (case handshake \<lparr>certManager = fst s, defaultCertificate = selfCert\<rparr> md of
        Inl (e :: unit exn) \<Rightarrow> False
      | Inr config \<Rightarrow> tls ct config)"

definition streamCall ::
    "bool \<Rightarrow> ('b response, 'b request, unit, (client_error, unit) result) proc
     \<Rightarrow> ('b request, 'b response, 's, (service_error, unit) result) proc \<Rightarrow> 's \<Rightarrow> 's \<times> (client_error, unit) result" where
  "streamCall ok cl sv s =
     (if \<not> ok then (s, Failed StreamFailed)
      else (case link 20 cl sv [] [] s of None \<Rightarrow> (s, Failed StreamFailed) | Some (s', a, b) \<Rightarrow> (s', a)))"

definition targetManager ::
    "('b, 'd) pemlib \<Rightarrow> 'd x509lib \<Rightarrow> nat \<Rightarrow> (x509 sys, 'b, x509, x509 closure) managerInterface" where
  "targetManager pl lib now = managerOf (PEMtox509 (pemDecode pl) (ParseCertificate lib)) now (targetCSR pl lib)"

definition targetService ::
    "('b, 'd) pemlib \<Rightarrow> 'd x509lib \<Rightarrow> ('d clientTLS \<Rightarrow> clientAuth \<times> x509 tlsCertificate list \<times> x509 set option \<Rightarrow> bool)
     \<Rightarrow> x509 tlsCertificate \<Rightarrow> nat \<Rightarrow> mode \<Rightarrow> (x509 sys, 'b, 'd) certService" where
  "targetService pl lib tls selfCert now md =
     (let ok = admits tls selfCert md; mi = targetManager pl lib now in
      \<lparr>cs_dial = (\<lambda>ct. True),
       cs_Install = (\<lambda>ct cl s. streamCall (ok ct s) cl (Server_Install mi) s),
       cs_Rotate = (\<lambda>ct cl s. streamCall (ok ct s) cl (Server_Rotate mi) s),
       cs_RevokeCertificates = (\<lambda>ct ids s.
          if ok ct s then (case RevokeCertificates mi ids s of (s', revoked, errs) \<Rightarrow> (s', Some errs)) else (s, None)),
       cs_CanGenerateCSR = (\<lambda>ct s kt ty n. if ok ct s then Some (CanGenerateCSR kt ty n) else None),
       cs_GetCertificates = (\<lambda>ct s.
          if ok ct s then (case GetCertificates (x509toPEM (pemEncode pl) (raw pl)) mi s of Inl e \<Rightarrow> None | Inr r \<Rightarrow> Some r) else None)\<rparr>)"

text \<open>
  What \<open>crypto/tls\<close> promises for these configurations. An unverified target is accepted as it is. A verified one needs a
  certificate for its key, signed by the root and for the name, which up to Go 1.14 may be the common name if the certificate
  has no other; a client needs one for its key that a certificate of the pool has signed.
\<close>

definition tlsLaws :: "'d x509lib \<Rightarrow> ('d clientTLS \<Rightarrow> clientAuth \<times> x509 tlsCertificate list \<times> x509 set option \<Rightarrow> bool) \<Rightarrow> bool" where
  "tlsLaws lib tls \<longleftrightarrow>
     (\<forall>ct c. ct_InsecureSkipVerify ct \<longrightarrow> tls ct (RequireAnyClientCert, [c], None))
     \<and> (\<forall>ct c lf root k pool.
          ct_RootCA ct = Some root \<longrightarrow> CheckSignatureFrom lib (leaf c) root \<longrightarrow> x_PublicKey (leaf c) = Some (RSAPublicKey (tlsKey c))
          \<longrightarrow> x_DNSNames (leaf c) = [] \<longrightarrow> CommonName (x_Subject (leaf c)) = ct_ServerName ct
          \<longrightarrow> tp_Leaf (ct_Certificate ct) = Some lf \<longrightarrow> tp_PrivateKey (ct_Certificate ct) = Some (RSAPrivateKey k)
          \<longrightarrow> x_PublicKey lf = Some (RSAPublicKey k) \<longrightarrow> (\<exists>q \<in> pool. CheckSignatureFrom lib lf q)
          \<longrightarrow> tls ct (RequireAndVerifyClientCert, [c], Some pool))"

section \<open>Connections\<close>

lemma CreateSigned_pair:
  "CreateSigned lib d cn priv p = Ok e \<Longrightarrow> leafOf e = Some c \<Longrightarrow>
     \<exists>tp. e_Certificate e = Some tp \<and> tp_Leaf tp = Some c \<and> tp_PrivateKey tp = e_PrivateKey e"
  by (auto simp: CreateSigned_def SignWith_def leafOf_def Let_def split: sum.splits exn.splits prod.splits option.splits if_splits)

text \<open>The client of a CA presents a certificate for its key that the CA has signed, and trusts the CA only.\<close>

lemma gnoiAuthenticated_ok:
  assumes "x509Laws lib" "loadedCA lib ca cak l" "canSign l" "d_key d' \<noteq> None" "d_serial d' \<noteq> None"
  obtains ct lf k where "gnoiAuthenticated lib d' ca name = Ok ct" "ct_ServerName ct = name" "ct_RootCA ct = Some l"
    "tp_Leaf (ct_Certificate ct) = Some lf" "tp_PrivateKey (ct_Certificate ct) = Some (RSAPrivateKey k)"
    "x_PublicKey lf = Some (RSAPublicKey k)" "CheckSignatureFrom lib lf l"
proof -
  have par: "parent_ok cak ca" using assms(2) by (simp add: loadedCA_def parent_ok_def parentTemplate_def)
  obtain k where k: "keyFor d' None = Some k" using assms(4) by (auto simp: keyFor_def)
  from CreateSigned_ok [OF assms(1,4,5) k par, of "''client''"] obtain e where
    e: "CreateSigned lib d' ''client'' None ca = Ok e" "certified lib cak False k e" by blast
  then obtain lf where lf: "leafOf e = Some lf" "e_PrivateKey e = Some (RSAPrivateKey k)" "x_PublicKey lf = Some (RSAPublicKey k)"
      "CheckSignatureFrom lib lf l"
    using assms(2,3) by (auto simp: certified_def loadedCA_def)
  from CreateSigned_pair [OF e(1) lf(1)] obtain tp where
    tp: "e_Certificate e = Some tp" "tp_Leaf tp = Some lf" "tp_PrivateKey tp = e_PrivateKey e" by blast
  show thesis
    by (rule that [where ct = "\<lparr>ct_ServerName = name, ct_InsecureSkipVerify = False, ct_Certificate = tp, ct_RootCA = Some l\<rparr>" and lf = lf and k = k])
      (use e(1) lf tp assms(2) in \<open>simp_all add: gnoiAuthenticated_def loadedCA_def\<close>)
qed

text \<open>A manager that holds one certificate of a CA, and the bundle of that CA.\<close>

definition holds_one :: "'d x509lib \<Rightarrow> string \<Rightarrow> string \<Rightarrow> string \<Rightarrow> x509 \<Rightarrow> x509 \<Rightarrow> x509 manager \<Rightarrow> bool" where
  "holds_one lib cid key name c l cm \<longleftrightarrow>
     (\<exists>now. certInfo cm = [(cid, Some \<lparr>certID = cid, cert = c, updated = now\<rparr>)]) \<and> caBundle cm = [l] \<and> locks cm = [] \<and> privateKey cm = key
     \<and> notifiers cm = [0] \<and> CheckSignatureFrom lib c l \<and> x_PublicKey c = Some (RSAPublicKey key) \<and> x_DNSNames c = []
     \<and> CommonName (x_Subject c) = name \<and> (\<exists>der. ParseCertificate lib der = Some c)"

lemma admits_authenticated:
  assumes "tlsLaws lib tls" "holds_one lib cid key name c l (fst s)"
    and "ct_ServerName ct = name" "ct_RootCA ct = Some l" "tp_Leaf (ct_Certificate ct) = Some lf"
      "tp_PrivateKey (ct_Certificate ct) = Some (RSAPrivateKey k)" "x_PublicKey lf = Some (RSAPublicKey k)" "CheckSignatureFrom lib lf l"
  shows "admits tls selfCert Authenticated ct s"
proof -
  have "tls ct (RequireAndVerifyClientCert, [\<lparr>leaf = c, tlsKey = key\<rparr>], Some {l})"
    using assms unfolding tlsLaws_def holds_one_def by auto
  then show ?thesis using assms(2) by (auto simp: admits_def handshake_def TLSCertificates_def holds_one_def)
qed

lemma admits_encrypted: "tlsLaws lib tls \<Longrightarrow> admits tls selfCert Encrypted (gnoiEncrypted c) s"
  by (simp add: admits_def handshake_def tlsLaws_def gnoiEncrypted_def)

section \<open>One rotation\<close>

lemma rotate_link:
  fixes n :: pkixName
  assumes "clientParams ks n ip = Ok p" "csr_Type p = CT_X509" "csr_KeyType p = KT_RSA"
    and "genCSR (csrSubject p) cm = Ok pem" "co_parseCSR ops pem = Inr csr" "co_sign ops csr = Some x"
    and "Rotate decode now cid (co_encode ops x) (map (co_encode ops) cas) cm = (cm', Ok cl)" "c_certID cl = cid"
  shows "link 20 (Client_Rotate ops cid ks n ip cas True) (Server_Rotate (managerOf decode now genCSR)) [] [] (cm, P)
    = Some ((accept cl cm', finished cid P), Ok (), Ok ())"
  using assms
  by (simp add: Client_Rotate_def Server_Rotate_def protocol_defs managerOf_def outstanding_Cons finished_def)

lemma Rotate_single:
  assumes "certInfo cm = [(cid, Some ci)]" "locks cm = []" "decode pc = Some c" "decode pl = Some l"
  shows "\<exists>cm' cl. Rotate decode now cid pc [pl] cm = (cm', Ok cl) \<and> c_certID cl = cid \<and> accept cl cm' = provisioned cm now cid c l"
  using assms by (simp add: Rotate_def update_def accept_def goNotify_def provisioned_def)

section \<open>The operations on a target\<close>

lemma holds_one_provisioned:
  assumes "privateKey cm = key" "notifiers cm = [0]" "locks cm = []" "CheckSignatureFrom lib c l" "x_PublicKey c = Some (RSAPublicKey key)"
    "x_DNSNames c = []" "CommonName (x_Subject c) = name" "\<exists>der. ParseCertificate lib der = Some c"
  shows "holds_one lib cid key name c l (provisioned cm now cid c l)"
  using assms by (simp add: holds_one_def provisioned_def)

lemma holds_one_notify [simp]: "holds_one lib cid key name c l (notify cm) = holds_one lib cid key name c l cm"
  by (simp add: holds_one_def notify_def)

lemma provision_runs:
  assumes "x509Laws lib" "requestLaws lib" "pemLaws pl lib" "tlsLaws lib tls" "loadedCA lib ca cak l" "canSign l" "d_serial d \<noteq> None"
    and "certInfo cm = []" "locks cm = []" "notifiers cm = [0]"
  obtains c where "provision pl lib d ca fl (targetService pl lib tls selfCert now Encrypted) (cm, [])
      = ((provisioned cm now (f_certID fl) c l, []), Ok Success)"
    "holds_one lib (f_certID fl) (privateKey cm) (f_targetCN fl) c l (provisioned cm now (f_certID fl) c l)"
proof -
  obtain p pem csr c where p: "clientParams (f_minKeySize fl) (pkiName fl) (f_ipAddress fl) = Ok p" "csr_Type p = CT_X509" "csr_KeyType p = KT_RSA"
    "targetCSR pl lib (csrSubject p) cm = Ok pem" "co_parseCSR (certOps pl lib d ca) pem = Inr csr" "co_sign (certOps pl lib d ca) csr = Some c"
    and c: "CommonName (x_Subject c) = f_targetCN fl" "x_PublicKey c = Some (RSAPublicKey (privateKey cm))"
    "CheckSignatureFrom lib c l \<longleftrightarrow> canSign l" "\<exists>der. ParseCertificate lib der = Some c" "x_DNSNames c = []"
    by (rule signed_for_target [OF assms(1-3,5,7), of fl cm])
  have inst: "Install (PEMtox509 (pemDecode pl) (ParseCertificate lib)) now (f_certID fl) (co_encode (certOps pl lib d ca) c)
      (map (co_encode (certOps pl lib d ca)) [l]) cm = (provisioned cm now (f_certID fl) c l, Ok ())"
    using assms(5) c(4) unfolding list.map certOps_def clientOps.simps
    by (intro Install_empty assms(8,9) decode_encoded [OF assms(3)]) (auto simp: loadedCA_def)
  obtain tp where tp: "e_Certificate ca = Some tp" using assms(5) by (auto simp: loadedCA_def leafOf_def split: option.splits)
  have "installCall pl lib d ca fl = Client_Install (certOps pl lib d ca) (f_certID fl) (f_minKeySize fl) (pkiName fl) (f_ipAddress fl) [l]"
    using assms(5) by (simp add: installCall_def loadedCA_def)
  then have "provision pl lib d ca fl (targetService pl lib tls selfCert now Encrypted) (cm, [])
      = ((provisioned cm now (f_certID fl) c l, []), Ok Success)"
    using install_link [where genCSR = "targetCSR pl lib" and P = "[]", OF p inst] admits_encrypted [OF assms(4)] tp
    by (simp add: provision_def dialled_def targetService_def Let_def streamCall_def targetManager_def ended_def)
  then show thesis using that holds_one_provisioned [of cm, OF refl assms(10,9) _ c(2,5,1,4)] c(3) assms(6) by blast
qed

lemma rotate_runs:
  assumes "x509Laws lib" "requestLaws lib" "pemLaws pl lib" "tlsLaws lib tls" "loadedCA lib ca cak l" "canSign l" "d_serial d \<noteq> None"
    and "d_key d' \<noteq> None" "d_serial d' \<noteq> None" "holds_one lib (f_certID fl) key (f_targetCN fl) c0 l cm"
  obtains c where "rotate_cmd pl lib d d' ca fl (targetService pl lib tls selfCert now Authenticated) (cm, [])
      = ((provisioned cm now (f_certID fl) c l, []), Ok Success)"
    "holds_one lib (f_certID fl) key (f_targetCN fl) c l (provisioned cm now (f_certID fl) c l)"
proof -
  have cm: "\<exists>ci. certInfo cm = [(f_certID fl, Some ci)]" "locks cm = []" "notifiers cm = [0]" "privateKey cm = key"
    using assms(10) by (auto simp: holds_one_def)
  obtain p pem csr c where p: "clientParams (f_minKeySize fl) (pkiName fl) (f_ipAddress fl) = Ok p" "csr_Type p = CT_X509" "csr_KeyType p = KT_RSA"
    "targetCSR pl lib (csrSubject p) cm = Ok pem" "co_parseCSR (certOps pl lib d ca) pem = Inr csr" "co_sign (certOps pl lib d ca) csr = Some c"
    and c: "CommonName (x_Subject c) = f_targetCN fl" "x_PublicKey c = Some (RSAPublicKey (privateKey cm))"
    "CheckSignatureFrom lib c l \<longleftrightarrow> canSign l" "\<exists>der. ParseCertificate lib der = Some c" "x_DNSNames c = []"
    by (rule signed_for_target [OF assms(1-3,5,7), of fl cm])
  have parsed: "\<exists>der. ParseCertificate lib der = Some l" using assms(5) by (simp add: loadedCA_def)
  obtain ci where ci: "certInfo cm = [(f_certID fl, Some ci)]" using cm(1) by blast
  obtain cm' cl where ro: "Rotate (PEMtox509 (pemDecode pl) (ParseCertificate lib)) now (f_certID fl) (co_encode (certOps pl lib d ca) c)
      (map (co_encode (certOps pl lib d ca)) [l]) cm = (cm', Ok cl)" "c_certID cl = f_certID fl" "accept cl cm' = provisioned cm now (f_certID fl) c l"
    using Rotate_single [where decode = "PEMtox509 (pemDecode pl) (ParseCertificate lib)" and now = now,
        OF ci cm(2) decode_encoded [OF assms(3) c(4)] decode_encoded [OF assms(3) parsed]]
    unfolding list.map certOps_def clientOps.simps by blast
  obtain ct lf k where ct: "gnoiAuthenticated lib d' ca (f_targetCN fl) = Ok ct" and tls: "ct_ServerName ct = f_targetCN fl" "ct_RootCA ct = Some l"
    "tp_Leaf (ct_Certificate ct) = Some lf" "tp_PrivateKey (ct_Certificate ct) = Some (RSAPrivateKey k)"
    "x_PublicKey lf = Some (RSAPublicKey k)" "CheckSignatureFrom lib lf l"
    by (rule gnoiAuthenticated_ok [OF assms(1,5,6,8,9)])
  have "admits tls selfCert Authenticated ct (cm, [])"
    by (rule admits_authenticated [OF assms(4) _ tls, where s = "(cm, [])", unfolded fst_conv, OF assms(10)])
  moreover have "rotateCall pl lib d ca fl = Client_Rotate (certOps pl lib d ca) (f_certID fl) (f_minKeySize fl) (pkiName fl) (f_ipAddress fl) [l] True"
    using assms(5) by (simp add: rotateCall_def loadedCA_def)
  ultimately have "rotate_cmd pl lib d d' ca fl (targetService pl lib tls selfCert now Authenticated) (cm, [])
      = ((provisioned cm now (f_certID fl) c l, []), Ok Success)"
    using rotate_link [where genCSR = "targetCSR pl lib" and P = "[]", OF p ro(1,2)] ro(3) ct
    by (simp add: rotate_cmd_def dialled_def targetService_def Let_def streamCall_def targetManager_def ended_def finished_def)
  then show thesis using that holds_one_provisioned [OF cm(4,3,2) _ _ c(5,1,4)] c(2,3) assms(6) cm(4) by blast
qed

lemma queries_run:
  assumes "x509Laws lib" "pemLaws pl lib" "tlsLaws lib tls" "loadedCA lib ca cak l" "canSign l"
    and "d_key d' \<noteq> None" "d_serial d' \<noteq> None" "holds_one lib cid key (f_targetCN fl) c l cm"
  shows "check_cmd lib d' ca fl (targetService pl lib tls selfCert now Authenticated) (cm, []) = ((cm, []), Ok (CanGenerate True))"
    "get_cmd pl lib d' ca fl (targetService pl lib tls selfCert now Authenticated) (cm, []) = ((cm, []), Ok (Certificates [(cid, c)]))"
    "revoke_cmd lib d' ca fl [cid] (targetService pl lib tls selfCert now Authenticated) (cm, [])
      = ((goNotify (cm\<lparr>certInfo := []\<rparr>), []), Ok (RevokedCerts []))"
proof -
  obtain ct lf k where ct: "gnoiAuthenticated lib d' ca (f_targetCN fl) = Ok ct" and tls: "ct_ServerName ct = f_targetCN fl" "ct_RootCA ct = Some l"
    "tp_Leaf (ct_Certificate ct) = Some lf" "tp_PrivateKey (ct_Certificate ct) = Some (RSAPrivateKey k)"
    "x_PublicKey lf = Some (RSAPublicKey k)" "CheckSignatureFrom lib lf l"
    by (rule gnoiAuthenticated_ok [OF assms(1,4-7)])
  have ok: "admits tls selfCert Authenticated ct (cm, [])"
    by (rule admits_authenticated [OF assms(3) _ tls, where s = "(cm, [])", unfolded fst_conv, OF assms(8)])
  obtain t where cm: "certInfo cm = [(cid, Some \<lparr>certID = cid, cert = c, updated = t\<rparr>)]" "locks cm = []" "\<exists>der. ParseCertificate lib der = Some c"
    using assms(8) by (auto simp: holds_one_def)
  note defs = dialled_def targetService_def Let_def targetManager_def ended_def managerOf_def ct ok cm(1,2)
  show "check_cmd lib d' ca fl (targetService pl lib tls selfCert now Authenticated) (cm, []) = ((cm, []), Ok (CanGenerate True))"
    by (simp add: check_cmd_def defs Client_CanGenerateCSR_def CanGenerateCSR_def)
  show "get_cmd pl lib d' ca fl (targetService pl lib tls selfCert now Authenticated) (cm, []) = ((cm, []), Ok (Certificates [(cid, c)]))"
    using decode_encoded [OF assms(2) cm(3)]
    by (simp add: get_cmd_def defs Client_GetCertificates_def GetCertificates_def GetCertInfo_def)
  show "revoke_cmd lib d' ca fl [cid] (targetService pl lib tls selfCert now Authenticated) (cm, [])
      = ((goNotify (cm\<lparr>certInfo := []\<rparr>), []), Ok (RevokedCerts []))"
    by (simp add: revoke_cmd_def defs RevokeCertificates_def Client_RevokeCertificates_def Revoke_def)
qed

section \<open>Commands one after the other\<close>

text \<open>
  The mode that the target is in after what the manager has told it so far; and a command against the target in its mode, after
  which the waiting notification runs. A call of the command has its flags, draws and time.
\<close>

definition targetMode :: "x509 manager \<Rightarrow> mode option" where
  "targetMode cm =
     (case target_notify 0 0 initialTarget of
        Inl e \<Rightarrow> None
      | Inr tg \<Rightarrow> (case notifyAll (callsOf 0 cm) tg of Inl e \<Rightarrow> None | Inr tg' \<Rightarrow> Some (gs_mode (last (servers tg')))))"

definition settle :: "x509 sys \<Rightarrow> x509 sys" where
  "settle s = ((if pendingNotify (fst s) = 0 then fst s else notify (fst s)), snd s)"

type_synonym commandCall = "certFlags \<times> draw \<times> draw \<times> nat"

definition onTarget ::
    "('b, 'd) pemlib \<Rightarrow> 'd x509lib \<Rightarrow> ('d clientTLS \<Rightarrow> clientAuth \<times> x509 tlsCertificate list \<times> x509 set option \<Rightarrow> bool)
     \<Rightarrow> x509 tlsCertificate \<Rightarrow> commandCall \<Rightarrow> x509 sys \<Rightarrow> x509 sys \<times> (string, cmdOutput) result" where
  "onTarget pl lib tls selfCert call s =
     (case call of (fl, d, d', now) \<Rightarrow>
        (case targetMode (fst s) of
           None \<Rightarrow> (s, Failed ''no target'')
         | Some md \<Rightarrow>
             (case cert_command pl lib d d' fl (targetService pl lib tls selfCert now md) s of
                (s', r) \<Rightarrow> (settle s', r))))"

fun commandsOn ::
    "('b, 'd) pemlib \<Rightarrow> 'd x509lib \<Rightarrow> ('d clientTLS \<Rightarrow> clientAuth \<times> x509 tlsCertificate list \<times> x509 set option \<Rightarrow> bool)
     \<Rightarrow> x509 tlsCertificate \<Rightarrow> commandCall list \<Rightarrow> x509 sys \<Rightarrow> x509 sys \<times> (string, cmdOutput) result list" where
  "commandsOn pl lib tls selfCert [] s = (s, [])"
| "commandsOn pl lib tls selfCert (call # more_calls) s =
     (case onTarget pl lib tls selfCert call s of
        (s', r) \<Rightarrow> (case commandsOn pl lib tls selfCert more_calls s' of (s'', rs) \<Rightarrow> (s'', r # rs)))"

definition operation :: "certFlags \<Rightarrow> string \<Rightarrow> certFlags" where
  "operation fl opn = fl\<lparr>f_op := opn, f_certIDs := []\<rparr>"

lemma targetMode_eq:
  "targetMode cm = Some (if callsOf 0 cm = [] \<or> fst (last (callsOf 0 cm)) = 0 \<or> snd (last (callsOf 0 cm)) = 0 then Encrypted else Authenticated)"
proof -
  obtain tg where tg: "target_notify 0 0 initialTarget = Ok tg" "target_ok tg" "bootstrapping tg"
    using target_notify_started target_reachable_ok [OF started [OF target_notify_started]] by auto
  with notifyAll_mode [OF tg(2), of "callsOf 0 cm"] show ?thesis
    by (auto simp: targetMode_def target_ok_def modeFor_def split: if_splits)
qed

lemma callsOf_notify: "notifiers cm = [0] \<Longrightarrow> callsOf 0 (notify cm) = callsOf 0 cm @ [(length (certInfo cm), length (caBundle cm))]"
  by (simp add: callsOf_def notify_def)

lemma cert_main_operations:
  assumes "cert_main lib fl = Ok (ca, CmdProvision)"
  shows "cert_main lib (operation fl ''check'') = Ok (ca, CmdCheck)" "cert_main lib (operation fl ''get'') = Ok (ca, CmdGet)"
    "cert_main lib (operation fl ''rotate'') = Ok (ca, CmdRotate)" "cert_main lib (operation fl ''revoke'') = Ok (ca, CmdRevoke [f_certID fl])"
  using assms by (auto simp: cert_main_def operation_def certIDCheck_def revokeIDs_def split: if_splits sum.splits exn.splits)

text \<open>A target at rest that has one certificate of the CA and is in authenticated mode.\<close>

definition ready :: "'d x509lib \<Rightarrow> string \<Rightarrow> string \<Rightarrow> string \<Rightarrow> x509 \<Rightarrow> x509 \<Rightarrow> x509 sys \<Rightarrow> bool" where
  "ready lib cid key name c l s \<longleftrightarrow>
     holds_one lib cid key name c l (fst s) \<and> snd s = [] \<and> pendingNotify (fst s) = 0 \<and> targetMode (fst s) = Some Authenticated"

lemma settle_provisioned:
  assumes "holds_one lib cid key name c l (provisioned cm now cid c l)" "pendingNotify cm = 0"
  shows "ready lib cid key name c l (settle (provisioned cm now cid c l, []))"
proof -
  let ?p = "provisioned cm now cid c l"
  have "notifiers ?p = [0]" "certInfo ?p \<noteq> []" "caBundle ?p \<noteq> []" "pendingNotify ?p = 1"
    using assms by (auto simp: holds_one_def) (simp add: provisioned_def)
  then show ?thesis using assms(1) callsOf_notify [of ?p] by (simp add: ready_def settle_def targetMode_eq) (simp add: notify_def)
qed

lemma ready_idle: "ready lib cid key name c l s \<Longrightarrow> settle s = s"
  by (cases s) (simp add: ready_def settle_def)

text \<open>
  What the properties of a life suppose of the libraries and of the CA of the client. A call of the command draws a key and two
  serial numbers.
\<close>

definition clientOf :: "('b, 'd) pemlib \<Rightarrow> 'd x509lib \<Rightarrow> certFlags \<Rightarrow> 'd entity \<Rightarrow> string \<Rightarrow> x509 \<Rightarrow> bool" where
  "clientOf pl lib fl ca cak l \<longleftrightarrow>
     x509Laws lib \<and> requestLaws lib \<and> pairLaws lib \<and> pemLaws pl lib \<and> cert_main lib fl = Ok (ca, CmdProvision)
     \<and> e_PrivateKey ca = Some (RSAPrivateKey cak) \<and> leafOf ca = Some l \<and> canSign l"

definition draws :: "draw \<Rightarrow> draw \<Rightarrow> bool" where
  "draws d d' \<longleftrightarrow> d_serial d \<noteq> None \<and> d_key d' \<noteq> None \<and> d_serial d' \<noteq> None"

lemma clientOf_loaded: "clientOf pl lib fl ca cak l \<Longrightarrow> loadedCA lib ca cak l"
proof -
  assume *: "clientOf pl lib fl ca cak l"
  then have "FromFile lib (f_ca fl) (f_key fl) = Ok ca"
    by (simp add: clientOf_def cert_main_def split: if_splits sum.splits exn.splits)
  with * obtain l' where "loadedCA lib ca cak l'" unfolding clientOf_def by (metis FromFile_loaded)
  with * show ?thesis by (simp add: clientOf_def loadedCA_def)
qed

lemma operation_fields [simp]:
  "f_certID (operation fl opn) = f_certID fl" "f_targetCN (operation fl opn) = f_targetCN fl"
  by (simp_all add: operation_def)

lemma fresh_provisioned:
  assumes "clientOf pl lib fl ca cak l" "tlsLaws lib tls" "draws d d'"
  obtains c s where "onTarget pl lib tls selfCert (fl, d, d', now) (RegisterNotifier 0 (NewManager key), []) = (s, Ok Success)"
    "ready lib (f_certID fl) key (f_targetCN fl) c l s"
proof -
  let ?cm = "RegisterNotifier 0 (NewManager key) :: x509 manager"
  have cm: "certInfo ?cm = []" "locks ?cm = []" "notifiers ?cm = [0]" "privateKey ?cm = key" "pendingNotify ?cm = 0"
    "targetMode ?cm = Some Encrypted"
    by (simp_all add: RegisterNotifier_def NewManager_def targetMode_eq callsOf_def)
  have laws: "x509Laws lib" "requestLaws lib" "pemLaws pl lib" "canSign l" "cert_main lib fl = Ok (ca, CmdProvision)" "d_serial d \<noteq> None"
    using assms(1,3) by (simp_all add: clientOf_def draws_def)
  obtain c where c: "provision pl lib d ca fl (targetService pl lib tls selfCert now Encrypted) (?cm, [])
      = ((provisioned ?cm now (f_certID fl) c l, []), Ok Success)"
    "holds_one lib (f_certID fl) key (f_targetCN fl) c l (provisioned ?cm now (f_certID fl) c l)"
    using provision_runs [OF laws(1-3) assms(2) clientOf_loaded [OF assms(1)] laws(4,6) cm(1-3)] cm(4) by metis
  show thesis
    by (rule that [OF _ settle_provisioned [OF c(2) cm(5)]]) (simp add: onTarget_def cm(6) cert_command_def laws(5) c(1))
qed

lemma ready_commands:
  assumes "clientOf pl lib fl ca cak l" "tlsLaws lib tls" "draws d d'" "ready lib (f_certID fl) key (f_targetCN fl) c l s"
  shows "onTarget pl lib tls selfCert (operation fl ''check'', d, d', now) s = (s, Ok (CanGenerate True))"
    "onTarget pl lib tls selfCert (operation fl ''get'', d, d', now) s = (s, Ok (Certificates [(f_certID fl, c)]))"
    "\<exists>c' s'. onTarget pl lib tls selfCert (operation fl ''rotate'', d, d', now) s = (s', Ok Success)
       \<and> ready lib (f_certID fl) key (f_targetCN fl) c' l s'"
    "\<exists>s'. onTarget pl lib tls selfCert (operation fl ''revoke'', d, d', now) s = (s', Ok (RevokedCerts []))
       \<and> GetCertInfo (fst s') = [] \<and> targetMode (fst s') = Some Encrypted"
proof -
  obtain cm where s: "s = (cm, [])" and cm: "pendingNotify cm = 0" "targetMode cm = Some Authenticated"
    and one: "holds_one lib (f_certID fl) key (f_targetCN fl) c l cm"
    using assms(4) by (cases s) (auto simp: ready_def)
  have laws: "x509Laws lib" "requestLaws lib" "pemLaws pl lib" "canSign l" "cert_main lib fl = Ok (ca, CmdProvision)"
      "d_serial d \<noteq> None" "d_key d' \<noteq> None" "d_serial d' \<noteq> None"
    using assms(1,3) by (simp_all add: clientOf_def draws_def)
  note ops = cert_main_operations [OF laws(5)] and idle = ready_idle [OF assms(4), unfolded s]
  note runs = queries_run [where fl = "operation fl opn" and cid = "f_certID fl" for opn, OF laws(1,3) assms(2) clientOf_loaded [OF assms(1)] laws(4,7,8),
      unfolded operation_fields, OF one]
  note defs = onTarget_def s cm(2) cert_command_def ops idle
  show "onTarget pl lib tls selfCert (operation fl ''check'', d, d', now) s = (s, Ok (CanGenerate True))" by (simp add: defs runs)
  show "onTarget pl lib tls selfCert (operation fl ''get'', d, d', now) s = (s, Ok (Certificates [(f_certID fl, c)]))" by (simp add: defs runs)
  obtain c' where c': "rotate_cmd pl lib d d' ca (operation fl ''rotate'') (targetService pl lib tls selfCert now Authenticated) (cm, [])
      = ((provisioned cm now (f_certID fl) c' l, []), Ok Success)"
    "holds_one lib (f_certID fl) key (f_targetCN fl) c' l (provisioned cm now (f_certID fl) c' l)"
    using rotate_runs [where fl = "operation fl ''rotate''", OF laws(1-3) assms(2) clientOf_loaded [OF assms(1)] laws(4,6-8), unfolded operation_fields, OF one]
    by metis
  show "\<exists>c' s'. onTarget pl lib tls selfCert (operation fl ''rotate'', d, d', now) s = (s', Ok Success)
       \<and> ready lib (f_certID fl) key (f_targetCN fl) c' l s'"
    using settle_provisioned [OF c'(2) cm(1)] by (intro exI conjI) (simp_all add: defs c'(1))
  let ?r = "goNotify (cm\<lparr>certInfo := []\<rparr>)"
  have "notifiers ?r = [0]" "pendingNotify ?r = 1" "certInfo ?r = []" using one cm(1) by (simp_all add: holds_one_def goNotify_def)
  with callsOf_notify [of ?r] have "GetCertInfo (fst (settle (?r, []))) = [] \<and> targetMode (fst (settle (?r, []))) = Some Encrypted"
    by (simp add: settle_def targetMode_eq GetCertInfo_def) (simp add: notify_def)
  then show "\<exists>s'. onTarget pl lib tls selfCert (operation fl ''revoke'', d, d', now) s = (s', Ok (RevokedCerts []))
       \<and> GetCertInfo (fst s') = [] \<and> targetMode (fst s') = Some Encrypted"
    by (intro exI [of _ "settle (?r, [])"] conjI) (simp_all add: defs runs)
qed

section \<open>Properties\<close>


text \<open>The laws hold for the symbolic library and the handshake that they describe.\<close>

definition sampleTLS :: "derBytes clientTLS \<Rightarrow> clientAuth \<times> x509 tlsCertificate list \<times> x509 set option \<Rightarrow> bool" where
  "sampleTLS ct config =
     (case config of
        (RequireAnyClientCert, certs, pool) \<Rightarrow> ct_InsecureSkipVerify ct
      | (RequireAndVerifyClientCert, certs, pool) \<Rightarrow>
          (case (certs, pool, ct_RootCA ct, tp_Leaf (ct_Certificate ct)) of
             ([c], Some qs, Some root, Some lf) \<Rightarrow>
               CheckSignatureFrom sampleLib (leaf c) root \<and> CommonName (x_Subject (leaf c)) = ct_ServerName ct
               \<and> (\<exists>q \<in> qs. CheckSignatureFrom sampleLib lf q)
           | _ \<Rightarrow> False))"

lemma sampleTLS_laws: "tlsLaws sampleLib sampleTLS"
  by (simp add: tlsLaws_def sampleTLS_def)


end
