(* ===== verification/Subsystem.thy ===== *)
theory Subsystem
  imports Session
begin

text \<open>
  The subsystem of the daemon, \<open>gnmid/subsystem/main.go\<close>: it reads the output of \<open>ifconfig\<close> and syslog messages and writes
  them, as YAML texts, to a ydb channel. The outputs of the command are arguments; what is written to the channel is a
  list of events.
\<close>

section \<open>Text\<close>

definition trimChars :: "char list \<Rightarrow> string \<Rightarrow> string" where
  "trimChars cs s = rev (dropWhile (\<lambda>c. c \<in> set cs) (rev (dropWhile (\<lambda>c. c \<in> set cs) s)))"

definition newline :: char where "newline = CHR 0x0A"

text \<open>\<open>split\<close>: the words of a line.\<close>

definition splitWords :: "string \<Rightarrow> string list" where
  "splitWords s = filter (\<lambda>e. e \<noteq> []) (map (trimChars [CHR '' '', newline]) (SplitByte s CHR '' ''))"

text \<open>\<open>strings.Split\<close> at a pair of characters.\<close>

fun splitPair :: "char \<Rightarrow> char \<Rightarrow> string \<Rightarrow> string list" where
  "splitPair a b [] = [[]]"
| "splitPair a b [x] = [[x]]"
| "splitPair a b (x # y # r) =
     (if x = a \<and> y = b then [] # splitPair a b r
      else (case splitPair a b (y # r) of [] \<Rightarrow> [[x]] | z # zs \<Rightarrow> (x # z) # zs))"

section \<open>Interface statistics\<close>

record ifStats =
  if_Name :: string
  if_Type :: string
  if_Mtu :: "16 word"
  if_Enabled :: string
  if_InetAddr :: string
  if_Netmask :: string
  if_Inet6Addr :: string
  if_Inet6Prefixlen :: int
  if_Broadcast :: string
  if_Ether :: string
  if_RxPacket :: "64 word"
  if_RxBytes :: "64 word"
  if_RxError :: "64 word"
  if_RxDrop :: "64 word"
  if_RxOverruns :: "64 word"
  if_RxFrame :: "64 word"
  if_TxPacket :: "64 word"
  if_TxBytes :: "64 word"
  if_TxError :: "64 word"
  if_TxDrop :: "64 word"
  if_TxOverruns :: "64 word"
  if_TxCarrier :: "64 word"
  if_TxCollisions :: "64 word"

definition noStats :: "string \<Rightarrow> ifStats" where
  "noStats name = \<lparr>if_Name = name, if_Type = [], if_Mtu = 0, if_Enabled = [], if_InetAddr = [], if_Netmask = [], if_Inet6Addr = [],
     if_Inet6Prefixlen = 0, if_Broadcast = [], if_Ether = [], if_RxPacket = 0, if_RxBytes = 0, if_RxError = 0, if_RxDrop = 0,
     if_RxOverruns = 0, if_RxFrame = 0, if_TxPacket = 0, if_TxBytes = 0, if_TxError = 0, if_TxDrop = 0, if_TxOverruns = 0,
     if_TxCarrier = 0, if_TxCollisions = 0\<rparr>"

definition counter :: "string \<Rightarrow> 64 word" where
  "counter s = word_of_nat (ParseUint (2 ^ 64 - 1) s)"

text \<open>\<open>strconv.Atoi\<close> without its error: 0 for a syntax error, the nearest number for one out of range.\<close>

definition Atoi :: "string \<Rightarrow> int" where
  "Atoi s =
     (let digits = (case s of c # r \<Rightarrow> if c = CHR ''-'' \<or> c = CHR ''+'' then r else s | [] \<Rightarrow> []);
          neg = (s \<noteq> [] \<and> hd s = CHR ''-'') in
      if digits = [] \<or> CHR ''_'' \<in> set digits then 0
      else
        (case parseDigits 10 (if neg then 2 ^ 63 else 2 ^ 63 - 1) digits 0 of
           SyntaxError \<Rightarrow> 0
         | RangeError \<Rightarrow> (if neg then - (2 ^ 63) else 2 ^ 63 - 1)
         | Value n \<Rightarrow> (if neg then - int n else int n)))"

text \<open>
  One line. \<open>None\<close> is an index out of range, which the deferred \<open>recover\<close> turns into a nil result of \<open>newIfStats\<close>; the
  structure it has filled so far is lost.
\<close>

definition readLine :: "string list \<Rightarrow> ifStats \<Rightarrow> ifStats option" where
  "readLine item ifs =
     (if item = [] then Some ifs
      else if item ! 0 = ''inet'' then
        (if length item \<le> 3 then None else Some (ifs\<lparr>if_InetAddr := item ! 1, if_Netmask := item ! 3\<rparr>))
      else if item ! 0 = ''inet6'' then
        (if length item \<le> 3 then None else Some (ifs\<lparr>if_Inet6Addr := item ! 1, if_Inet6Prefixlen := Atoi (item ! 3)\<rparr>))
      else if item ! 0 = ''ether'' then
        (if length item \<le> 1 then None else Some (ifs\<lparr>if_Ether := item ! 1\<rparr>))
      else if item ! 0 = ''RX'' then
        (if length item \<le> 1 then None
         else if item ! 1 = ''packets'' then
           (if length item \<le> 4 then None
            else Some (ifs\<lparr>if_RxPacket := counter (item ! 2), if_RxBytes := counter (item ! 4)\<rparr>))
         else if length item \<le> 8 then None
         else Some (ifs\<lparr>if_RxError := counter (item ! 2), if_RxDrop := counter (item ! 4),
           if_RxOverruns := counter (item ! 6), if_RxFrame := counter (item ! 8)\<rparr>))
      else if item ! 0 = ''TX'' then
        (if length item \<le> 1 then None
         else if item ! 1 = ''packets'' then
           (if length item \<le> 4 then None
            else Some (ifs\<lparr>if_TxPacket := counter (item ! 2), if_TxBytes := counter (item ! 4)\<rparr>))
         else if length item \<le> 10 then None
         else Some (ifs\<lparr>if_TxError := counter (item ! 2), if_TxDrop := counter (item ! 4), if_TxOverruns := counter (item ! 6),
           if_TxCarrier := counter (item ! 8), if_TxCollisions := counter (item ! 10)\<rparr>))
      else Some ifs)"

fun readLines :: "string list \<Rightarrow> ifStats \<Rightarrow> ifStats option" where
  "readLines [] ifs = Some ifs"
| "readLines (s # ss) ifs = (case readLine (splitWords s) ifs of None \<Rightarrow> None | Some ifs' \<Rightarrow> readLines ss ifs')"

text \<open>The text before the first \<open>": "\<close>; without one the index is -1 and the slice panics.\<close>

definition nameOf :: "string \<Rightarrow> string option" where
  "nameOf s = (case splitPair CHR '':'' CHR '' '' s of [] \<Rightarrow> None | [x] \<Rightarrow> None | x # y # r \<Rightarrow> Some x)"

definition newIfStats :: "string \<Rightarrow> ifStats option" where
  "newIfStats ifinfo =
     (if ifinfo = [] then None
      else
        (let info = trimChars [CHR '' ''] ifinfo in
         case nameOf info of
           None \<Rightarrow> None
         | Some name \<Rightarrow> readLines (tl (SplitByte info newline)) (noStats name)))"

text \<open>\<open>ifconfig\<close> gives the output of the command, for all interfaces or for one.\<close>

datatype statsError = CommandFailed | NoEntry | NotFound string

definition collectStats :: "(string option \<Rightarrow> string option) \<Rightarrow> string \<Rightarrow> (statsError, ifStats list) result" where
  "collectStats ifconfig name =
     (if name = [] then
        (case ifconfig None of
           None \<Rightarrow> Failed CommandFailed
         | Some output \<Rightarrow>
             (let ifstats = List.map_filter newIfStats (splitPair newline newline output) in
              if ifstats \<noteq> [] then Ok ifstats else Failed NoEntry))
      else
        (case ifconfig (Some name) of
           None \<Rightarrow> Failed CommandFailed
         | Some ifentry \<Rightarrow>
             (case newIfStats ifentry of None \<Rightarrow> Failed (NotFound name) | Some e \<Rightarrow> Ok [e])))"

definition line :: "string \<Rightarrow> string" where "line s = s @ [newline]"

definition marshal :: "ifStats \<Rightarrow> string" where
  "marshal s = line [] @ line ''interfaces:'' @ line (''  interface[name='' @ if_Name s @ '']:'')
     @ line (''    name: '' @ if_Name s) @ line ''    state:'' @ line (''      name: '' @ if_Name s) @ line ''      counters:''
     @ line (''        in-pkts: '' @ show_nat (unat (if_RxPacket s))) @ line (''        in-octets: '' @ show_nat (unat (if_RxBytes s)))
     @ line (''        in-errors: '' @ show_nat (unat (if_RxError s))) @ line (''        in-discards: '' @ show_nat (unat (if_RxDrop s)))
     @ line (''        out-pkts: '' @ show_nat (unat (if_TxPacket s))) @ line (''        out-octets: '' @ show_nat (unat (if_TxBytes s)))
     @ line (''        out-errors: '' @ show_nat (unat (if_TxError s))) @ line (''        out-discards: '' @ show_nat (unat (if_TxDrop s)))"

section \<open>The channel\<close>

datatype dbEvent = AddSyncResponse string | Write string

text \<open>The table of the last statistics that were collected when a sync request or the start of polling asked for them.\<close>

type_synonym ifInfo = "(string, ifStats) gomap"

definition SyncResponse ::
    "(string \<Rightarrow> (string \<times> (string, string) gomap) option) \<Rightarrow> (string option \<Rightarrow> string option) \<Rightarrow> string
     \<Rightarrow> ifInfo \<Rightarrow> ifInfo \<times> string option" where
  "SyncResponse extractKey ifconfig key sinfo =
     (case extractKey key of
        None \<Rightarrow> (sinfo, None)
      | Some (sname, klist) \<Rightarrow>
          if sname \<noteq> ''interface'' then (sinfo, None)
          else
            (case map_get klist ''name'' of
               None \<Rightarrow> (sinfo, None)
             | Some kvalue \<Rightarrow>
                 (case collectStats ifconfig kvalue of
                    Inr (n # ns) \<Rightarrow> (map_put kvalue n sinfo, Some (marshal n))
                  | _ \<Rightarrow> (sinfo, None))))"

text \<open>An error leaves the list of statistics nil.\<close>

definition statsOf :: "(string option \<Rightarrow> string option) \<Rightarrow> string \<Rightarrow> ifStats list" where
  "statsOf ifconfig name = (case collectStats ifconfig name of Inl e \<Rightarrow> [] | Inr ns \<Rightarrow> ns)"

definition syncPath :: "string \<Rightarrow> string" where
  "syncPath name = ''/interfaces/interface[name='' @ name @ '']''"

definition pollStart :: "(string option \<Rightarrow> string option) \<Rightarrow> ifInfo \<Rightarrow> ifInfo \<times> dbEvent list" where
  "pollStart ifconfig sinfo =
     (fold (\<lambda>s. map_put (if_Name s) s) (statsOf ifconfig []) sinfo,
      map (\<lambda>s. AddSyncResponse (syncPath (if_Name s))) (statsOf ifconfig []))"

definition pollTick :: "(string option \<Rightarrow> string option) \<Rightarrow> dbEvent list" where
  "pollTick ifconfig = map (\<lambda>s. Write (marshal s)) (statsOf ifconfig [])"

definition syncStats :: "(string option \<Rightarrow> string option) \<Rightarrow> string \<Rightarrow> dbEvent list" where
  "syncStats ifconfig name = map (\<lambda>s. Write (marshal s)) (statsOf ifconfig name)"

text \<open>
  A syslog message; its content is \<open>None\<close> where the value of the key \<open>content\<close> is not a string, and priority and tag are the
  texts that \<open>%d\<close> and \<open>%s\<close> make of their values.
\<close>

definition SendMessage :: "string option \<Rightarrow> string \<Rightarrow> string \<Rightarrow> ('e, dbEvent) result" where
  "SendMessage content priority tag =
     (case content of
        None \<Rightarrow> Panics TypeAssertion
      | Some c \<Rightarrow>
          (let msg = ReplaceAll c [CHR 0x22] [CHR 0x5C, CHR 0x22] in
           Ok (Write (line [] @ line ''messages:'' @ line ''  state:'' @ line ''    message:''
             @ line (''      msg: '' @ [CHR 0x22] @ msg @ [CHR 0x22]) @ line (''      priority: '' @ priority)
             @ line (''      app-name: '' @ tag) @ line ''      msgid: ''))))"

text \<open>
  The goroutine of \<open>initSyslog\<close> sends each message that arrives at its channel; a panic in it ends the process. With the
  events written before.
\<close>

fun forwardLogs :: "(string option \<times> string \<times> string) list \<Rightarrow> dbEvent list \<times> ('e, unit) result" where
  "forwardLogs [] = ([], Ok ())"
| "forwardLogs ((content, priority, tag) # channel) =
     (case SendMessage content priority tag of
        Inl e \<Rightarrow> ([], Inl e)
      | Inr ev \<Rightarrow> (case forwardLogs channel of (evs, r) \<Rightarrow> (ev # evs, r)))"

lemma forwardLogs_length: "length (fst (forwardLogs logs :: _ \<times> ('e, unit) result)) = length (takeWhile (\<lambda>l. fst l \<noteq> None) logs)"
  by (induction logs rule: forwardLogs.induct) (auto simp: SendMessage_def Let_def split: option.split prod.split)

section \<open>The process\<close>

text \<open>
  The syslog server of \<open>initSyslog\<close>, as it is configured. Its errors of listening and booting are ignored.
\<close>

record syslogServer =
  sl_format :: string
  sl_udp :: string
  sl_tcp :: string

definition initSyslog :: syslogServer where
  "initSyslog = \<lparr>sl_format = ''Automatic'', sl_udp = ''0.0.0.0:11514'', sl_tcp = ''0.0.0.0:11514''\<rparr>"

text \<open>
  The goroutines of the process take turns in any order: the start and the ticks of \<open>pollStats\<close>, each with the outputs of
  \<open>ifconfig\<close> at that time, the requests that \<open>ydb\<close> passes to \<open>SyncResponse\<close>, and the syslog messages. A panic ends the process.
\<close>

datatype subsystemInput =
    PollStart "string option \<Rightarrow> string option"
  | PollTick "string option \<Rightarrow> string option"
  | Requested "string option \<Rightarrow> string option" string
  | LogPart "string option" string string

record subsystem =
  su_info :: ifInfo
  su_events :: "dbEvent list"
  su_replies :: "string option list"
  su_syslog :: syslogServer
  su_crashed :: bool

definition subsystem_main :: "string option \<Rightarrow> (string, subsystem) result" where
  "subsystem_main connect =
     (case connect of
        Some e \<Rightarrow> Failed e
      | None \<Rightarrow> Ok \<lparr>su_info = [], su_events = [], su_replies = [], su_syslog = initSyslog, su_crashed = False\<rparr>)"

definition subsystem_step ::
    "(string \<Rightarrow> (string \<times> (string, string) gomap) option) \<Rightarrow> subsystemInput \<Rightarrow> subsystem \<Rightarrow> subsystem" where
  "subsystem_step extractKey inp s =
     (if su_crashed s then s
      else (case inp of
          PollStart ifconfig \<Rightarrow>
            (case pollStart ifconfig (su_info s) of
               (info, evs) \<Rightarrow> s\<lparr>su_info := info, su_events := su_events s @ evs\<rparr>)
        | PollTick ifconfig \<Rightarrow> s\<lparr>su_events := su_events s @ pollTick ifconfig\<rparr>
        | Requested ifconfig key \<Rightarrow>
            (case SyncResponse extractKey ifconfig key (su_info s) of
               (info, r) \<Rightarrow> s\<lparr>su_info := info, su_replies := su_replies s @ [r]\<rparr>)
        | LogPart content priority tag \<Rightarrow>
            (case (SendMessage content priority tag :: (unit, _) result) of
               Inl e \<Rightarrow> s\<lparr>su_crashed := True\<rparr>
             | Inr ev \<Rightarrow> s\<lparr>su_events := su_events s @ [ev]\<rparr>)))"

definition textPart :: "subsystemInput \<Rightarrow> bool" where
  "textPart inp = (case inp of LogPart None _ _ \<Rightarrow> False | _ \<Rightarrow> True)"

text \<open>The process stays up exactly as long as every syslog message has a text.\<close>

lemma subsystem_step_crashed: "su_crashed (subsystem_step ek inp s) \<longleftrightarrow> su_crashed s \<or> \<not> textPart inp"
  by (auto simp: subsystem_step_def textPart_def SendMessage_def Let_def split: subsystemInput.split option.split prod.split)

lemma subsystem_stays_up:
  assumes "subsystem_main connect = Ok s"
  shows "su_crashed (fold (subsystem_step ek) inps s) \<longleftrightarrow> \<not> list_all textPart inps"
proof -
  have "su_crashed (fold (subsystem_step ek) inps s) \<longleftrightarrow> su_crashed s \<or> \<not> list_all textPart inps" for s
    by (induction inps arbitrary: s) (auto simp: subsystem_step_crashed)
  moreover have "\<not> su_crashed s" using assms by (auto simp: subsystem_main_def split: option.splits)
  ultimately show ?thesis by simp
qed

section \<open>Reading the lines\<close>

text \<open>How many words a line must have that starts with the first of these words.\<close>

definition needed :: "string list \<Rightarrow> nat" where
  "needed item =
     (if item = [] then 0
      else if item ! 0 = ''inet'' \<or> item ! 0 = ''inet6'' then 4
      else if item ! 0 = ''ether'' then 2
      else if item ! 0 = ''RX'' then (if length item \<le> 1 then 2 else if item ! 1 = ''packets'' then 5 else 9)
      else if item ! 0 = ''TX'' then (if length item \<le> 1 then 2 else if item ! 1 = ''packets'' then 5 else 11)
      else 0)"

lemma readLine_None: "readLine item ifs = None \<longleftrightarrow> length item < needed item"
  by (simp add: readLine_def needed_def)

lemma readLines_None: "readLines ss ifs = None \<longleftrightarrow> list_ex (\<lambda>s. length (splitWords s) < needed (splitWords s)) ss"
proof (induction ss arbitrary: ifs)
  case (Cons s ss)
  then show ?case
    using readLine_None [of "splitWords s" ifs] by (cases "readLine (splitWords s) ifs") auto
qed simp

definition plainWord :: "string \<Rightarrow> bool" where
  "plainWord w = (w \<noteq> [] \<and> CHR '' '' \<notin> set w \<and> newline \<notin> set w)"

lemma SplitByte_word: "c \<notin> set w \<Longrightarrow> SplitByte (w @ c # r) c = w # SplitByte r c"
  by (induction w) auto

lemma dropWhile_none: "set w \<inter> A = {} \<Longrightarrow> dropWhile (\<lambda>c. c \<in> A) w = w"
  by (cases w) auto

lemma trimChars_none: "set w \<inter> set cs = {} \<Longrightarrow> trimChars cs w = w"
  using dropWhile_none [of w "set cs"] dropWhile_none [of "rev w" "set cs"] by (simp add: trimChars_def)

lemma trimChars_word: "plainWord w \<Longrightarrow> trimChars [CHR '' '', newline] w = w"
  by (rule trimChars_none) (auto simp: plainWord_def)

lemma splitWords_empty: "splitWords [] = []"
  by (simp add: splitWords_def trimChars_def)

lemma splitWords_space: "splitWords (CHR '' '' # r) = splitWords r"
  by (simp add: splitWords_def trimChars_def)

lemma splitWords_word: "plainWord w \<Longrightarrow> splitWords w = [w]"
  using trimChars_word [of w] by (simp add: splitWords_def SplitByte_absent plainWord_def)

lemma splitWords_word_space: "plainWord w \<Longrightarrow> splitWords (w @ CHR '' '' # r) = w # splitWords r"
  using trimChars_word [of w] by (simp add: splitWords_def SplitByte_word plainWord_def)

lemmas splitWords_simps = splitWords_empty splitWords_space splitWords_word splitWords_word_space

lemma plainWord_show: "plainWord (show_nat n)"
  by (simp add: plainWord_def newline_def show_nat_no_char)

lemma counter_show: "n < 2 ^ 64 \<Longrightarrow> unat (counter (show_nat n)) = n"
  by (simp add: counter_def ParseUint_show unsigned_of_nat take_bit_nat_eq_self)

section \<open>Properties\<close>

text \<open>The text of an interface is rejected exactly if it is empty, has no colon and space after the name, or one of its
  lines has fewer words than its kind of line needs; nothing else, no number out of range included, rejects it.\<close>

lemma newIfStats_rejects:
  "newIfStats ifinfo = None \<longleftrightarrow>
     ifinfo = [] \<or> nameOf (trimChars [CHR '' ''] ifinfo) = None
     \<or> list_ex (\<lambda>s. length (splitWords s) < needed (splitWords s)) (tl (SplitByte (trimChars [CHR '' ''] ifinfo) newline))"
  by (auto simp: newIfStats_def Let_def readLines_None split: option.splits)

text \<open>A line of counters in the words of \<open>ifconfig\<close>, indented and with more words after them.\<close>

definition packetLine :: "string \<Rightarrow> nat \<Rightarrow> nat \<Rightarrow> string \<Rightarrow> string" where
  "packetLine dir packets bytes r =
     ''        '' @ dir @ '' packets '' @ show_nat packets @ ''  bytes '' @ show_nat bytes @ CHR '' '' # r"

lemma splitWords_packetLine:
  assumes "plainWord dir"
  shows "splitWords (packetLine dir n m r) = [dir, ''packets'', show_nat n, ''bytes'', show_nat m] @ splitWords r"
proof -
  have w: "plainWord ''packets''" "plainWord ''bytes''" by (simp_all add: plainWord_def newline_def)
  have "packetLine dir n m r = CHR '' '' # CHR '' '' # CHR '' '' # CHR '' '' # CHR '' '' # CHR '' '' # CHR '' '' # CHR '' '' #
      dir @ CHR '' '' # ''packets'' @ CHR '' '' # show_nat n @ CHR '' '' # CHR '' '' # ''bytes'' @ CHR '' '' # show_nat m @ CHR '' '' # r"
    by (simp add: packetLine_def)
  then show ?thesis
    by (simp only: splitWords_space splitWords_word_space [OF assms] splitWords_word_space [OF plainWord_show]
        splitWords_word_space [OF w(1), unfolded append.simps] splitWords_word_space [OF w(2), unfolded append.simps] append.simps)
qed

lemma readLine_RX:
  "readLine ([''RX'', ''packets'', show_nat n, w, show_nat m] @ r) ifs
    = Some (ifs\<lparr>if_RxPacket := counter (show_nat n), if_RxBytes := counter (show_nat m)\<rparr>)"
  by (simp add: readLine_def)

lemma readLine_TX:
  "readLine ([''TX'', ''packets'', show_nat n, w, show_nat m] @ r) ifs
    = Some (ifs\<lparr>if_TxPacket := counter (show_nat n), if_TxBytes := counter (show_nat m)\<rparr>)"
  by (simp add: readLine_def)

lemma splitPair_nonempty: "splitPair a b s \<noteq> []"
  by (induction a b s rule: splitPair.induct) (auto split: list.splits)

lemma splitPair_name: "CHR '':'' \<notin> set name \<Longrightarrow> \<exists>y r. splitPair CHR '':'' CHR '' '' (name @ CHR '':'' # CHR '' '' # s) = name # y # r"
proof (induction name)
  case Nil
  show ?case
    using splitPair_nonempty [of "CHR '':''" "CHR '' ''" s] by (cases "splitPair CHR '':'' CHR '' '' s") auto
next
  case (Cons x xs)
  then obtain y r where "splitPair CHR '':'' CHR '' '' (xs @ CHR '':'' # CHR '' '' # s) = xs # y # r" by auto
  with Cons.prems show ?case by (cases xs) auto
qed

lemma dropWhile_hd: "s \<noteq> [] \<Longrightarrow> \<not> P (hd s) \<Longrightarrow> dropWhile P s = s"
  by (cases s) auto

lemma trimChars_ends: "s \<noteq> [] \<Longrightarrow> hd s \<notin> set cs \<Longrightarrow> last s \<notin> set cs \<Longrightarrow> trimChars cs s = s"
  by (simp add: trimChars_def dropWhile_hd hd_rev)

lemma newline_packetLine: "newline \<notin> set dir \<Longrightarrow> newline \<notin> set r \<Longrightarrow> newline \<notin> set (packetLine dir n m r)"
  by (simp add: packetLine_def show_nat_no_char newline_def)

lemma Contains_append: "Contains (a @ p @ b) p"
  unfolding Contains_infix by blast



text \<open>A quote is escaped by a backslash, a backslash is not: after a backslash the quote ends the text.\<close>

lemma backslash_not_escaped:
  "ReplaceAll [CHR 0x5C, CHR 0x22] [CHR 0x22] [CHR 0x5C, CHR 0x22] = [CHR 0x5C, CHR 0x5C, CHR 0x22]"
  by (simp add: HasPrefix_def)

end
