(* ===== verification/SmallUtilities.thy ===== *)
theory SmallUtilities
  imports Subsystem "HOL-Library.Multiset"
begin

text \<open>
  \<open>GetFlag\<close> of \<open>utilities/flag.go\<close> and the helpers of the tests in \<open>utilities/test/test.go\<close>: \<open>IsEqualList\<close> and \<open>LoadTestFile\<close>.
\<close>

section \<open>Flags\<close>

text \<open>
  The value of a flag, seen through \<open>reflect\<close>: an interface or a pointer around a value of a basic kind, or something else.
  Signed and unsigned numbers of all widths are converted to \<open>int\<close> and \<open>uint\<close>.
\<close>

datatype 'f flagValue =
    FIface "'f flagValue"
  | FPtr "'f flagValue"
  | FBool bool
  | FString string
  | FInt int
  | FUint nat
  | FFloat 'f
  | FOther

fun stripIface :: "'f flagValue \<Rightarrow> 'f flagValue" where
  "stripIface (FIface v) = v"
| "stripIface v = v"

fun stripPtr :: "'f flagValue \<Rightarrow> 'f flagValue" where
  "stripPtr (FPtr v) = v"
| "stripPtr v = v"

definition basic :: "'f flagValue \<Rightarrow> bool" where
  "basic v = (case v of FIface _ \<Rightarrow> False | FPtr _ \<Rightarrow> False | FOther \<Rightarrow> False | _ \<Rightarrow> True)"

definition GetFlag :: "(string \<Rightarrow> 'f flagValue option) \<Rightarrow> string \<Rightarrow> 'f flagValue \<Rightarrow> 'f flagValue" where
  "GetFlag flagLookup name defValue =
     (case flagLookup name of
        None \<Rightarrow> defValue
      | Some f \<Rightarrow> (let v = stripPtr (stripIface f) in if basic v then v else defValue))"

text \<open>A flag of the package \<open>flag\<close>, a pointer to a basic value, is read; the default is taken only where there is none.\<close>

lemma GetFlag_pointer:
  assumes "flagLookup name = Some (FPtr v)" "basic v"
  shows "GetFlag flagLookup name d = v"
  using assms by (simp add: GetFlag_def)

section \<open>Lists in any order\<close>

text \<open>
  What \<open>IsEqualList\<close> is given: a slice, a string, whose elements are its bytes, or a value of another kind, whose
  length \<open>reflect\<close> panics on. \<open>DeepEqual\<close> compares elements; \<open>AOther\<close> has the number of its kind.
\<close>

datatype 'a listArg = ASlice "'a list" | AString string | AOther nat

definition sameKind :: "'a listArg \<Rightarrow> 'a listArg \<Rightarrow> bool" where
  "sameKind a b =
     (case (a, b) of
        (ASlice _, ASlice _) \<Rightarrow> True
      | (AString _, AString _) \<Rightarrow> True
      | (AOther i, AOther j) \<Rightarrow> i = j
      | _ \<Rightarrow> False)"

definition elemsOf :: "(char \<Rightarrow> 'a) \<Rightarrow> 'a listArg \<Rightarrow> ('e, 'a list) result" where
  "elemsOf byte a = (case a of ASlice xs \<Rightarrow> Ok xs | AString s \<Rightarrow> Ok (map byte s) | AOther _ \<Rightarrow> Panics TypeAssertion)"

text \<open>The kinds are compared only if the first value is no slice.\<close>

definition IsEqualList :: "(char \<Rightarrow> 'a) \<Rightarrow> ('a \<Rightarrow> 'a \<Rightarrow> bool) \<Rightarrow> 'a listArg \<Rightarrow> 'a listArg \<Rightarrow> ('e, bool) result" where
  "IsEqualList byte DeepEqual d1 d2 =
     (if (case d1 of ASlice _ \<Rightarrow> False | _ \<Rightarrow> True) \<and> \<not> sameKind d1 d2 then Ok False
      else
        (case elemsOf byte d1 of
           Inl e \<Rightarrow> Inl e
         | Inr v1 \<Rightarrow>
             (case elemsOf byte d2 of
                Inl e \<Rightarrow> Inl e
              | Inr v2 \<Rightarrow>
                  if length v1 \<noteq> length v2 then Ok False
                  else Ok (list_all (\<lambda>x. list_ex (\<lambda>y. DeepEqual x y) v2) v1))))"

text \<open>It is an inclusion of sets with a comparison of lengths, which agrees with equality up to order only without repetitions.\<close>

lemma IsEqualList_slices:
  "IsEqualList byte (=) (ASlice xs) (ASlice ys) = Ok (length xs = length ys \<and> set xs \<subseteq> set ys)"
  by (auto simp: IsEqualList_def elemsOf_def list_all_iff list_ex_iff)

lemma IsEqualList_distinct:
  assumes "distinct xs"
  shows "IsEqualList byte (=) (ASlice xs) (ASlice ys) = Ok (mset xs = mset ys)"
proof -
  have "length xs = length ys \<and> set xs \<subseteq> set ys \<longleftrightarrow> mset xs = mset ys"
  proof
    assume incl: "length xs = length ys \<and> set xs \<subseteq> set ys"
    have "card (set ys) \<le> length ys" by (rule card_length)
    then have "set xs = set ys"
      using incl distinct_card [OF assms] by (metis card_seteq finite_set)
    moreover from this have "distinct ys" using incl distinct_card [OF assms] by (simp add: card_distinct)
    ultimately show "mset xs = mset ys" using assms by (simp add: set_eq_iff_mset_eq_distinct)
  qed (auto dest: mset_eq_length mset_eq_setD)
  then show ?thesis by (simp add: IsEqualList_slices)
qed

lemma IsEqualList_repetition:
  "IsEqualList byte (=) (ASlice [a, a]) (ASlice [a, b]) = Ok True"
  by (simp add: IsEqualList_slices)

lemma IsEqualList_not_slice:
  "IsEqualList byte eq (ASlice xs) (AOther k) = Panics TypeAssertion"
  by (simp add: IsEqualList_def elemsOf_def)

section \<open>Test files\<close>

record testObject =
  to_Name :: string
  to_Text :: string

text \<open>\<open>reg\<close> gives the start and the end of each header in the text; an object goes to the next header, the last one to the end.\<close>

definition slice_of :: "string \<Rightarrow> nat \<Rightarrow> nat \<Rightarrow> string" where
  "slice_of s b e = take (e - b) (drop b s)"

definition trimText :: "string \<Rightarrow> string" where
  "trimText s = trimChars [CHR '' '', newline, CHR 0x09] s"

fun testObjects :: "string \<Rightarrow> (nat \<times> nat) list \<Rightarrow> testObject list" where
  "testObjects dat [] = []"
| "testObjects dat [(b, e)] = [\<lparr>to_Name = trimText (slice_of dat b e), to_Text = trimText (drop b dat)\<rparr>]"
| "testObjects dat ((b, e) # (b', e') # rest) =
     \<lparr>to_Name = trimText (slice_of dat b e), to_Text = trimText (slice_of dat b b')\<rparr> # testObjects dat ((b', e') # rest)"

definition LoadTestFile ::
    "(string \<Rightarrow> string + string) \<Rightarrow> (string \<Rightarrow> (nat \<times> nat) list) \<Rightarrow> string \<Rightarrow> (string, testObject list) result" where
  "LoadTestFile ReadFile reg file =
     (case ReadFile file of
        Inl err \<Rightarrow> Failed err
      | Inr dat \<Rightarrow> (if reg dat = [] then Failed ''test object not found'' else Ok (testObjects dat (reg dat))))"

lemma length_testObjects: "length (testObjects dat hs) = length hs"
  by (induction dat hs rule: testObjects.induct) auto

end
