(* ===== verification/Spec2Isabelle.thy ===== *)
theory Spec2Isabelle
  imports DataNodes CertServer Aliases ChangeDelivery Daemon CertCommand SmallUtilities
begin

text \<open>
  A verification library for \<open>gnxi\<close>, a gNMI server and a gNOI certificate management service in Go.

  \<^bold>\<open>The program.\<close> A gNMI client reads (\<open>Get\<close>), writes (\<open>Set\<close>) and subscribes to (\<open>Subscribe\<close>) a data tree whose shape
  a YANG schema gives. \<open>gnmi/server\<close> has the calls, the sessions and the subscriptions; it names nodes by gNMI paths
  (\<open>utilities/xpath\<close>), asks \<open>gnmi/model\<close> to validate, find and write nodes, and gets back the changes of the tree, which
  its telemetry control block turns into events for the subscriptions. \<open>gnoi\<close> has the certificate manager, the two
  stream protocols over it and a target that changes its mode when certificates come and go. Errors are values of
  \<open>utilities/status\<close>, users are checked by \<open>utilities/server/login\<close>.

  \<^bold>\<open>Conventions.\<close> Each Go function is one definition with its name. A Go struct is a record, an interface or a
  tagged union a datatype, a Go map an association list without duplicate keys (\<open>gomap\<close>, in \<open>Prelude\<close>). A function that can
  fail has the type \<open>('e, 'a) result\<close>: \<open>Ok\<close>, \<open>Failed e\<close> for a returned error, \<open>Panics p\<close> for a run-time panic (nil
  dereference, index out of range, type assertion), so that every crash of the source is a value of the model. Functions
  that change a heap of nodes are in the monad \<open>actM\<close> of \<open>TreeWrite\<close>. Code outside the repository is an argument: schema
  entries and Go values as the datatypes that \<open>goyang\<close> and \<open>reflect\<close> show of them, the functions of \<open>ygot\<close>, \<open>ydb\<close>, the
  crypto libraries, the clock. Logging is left out. Where the source iterates over a Go map, the order is that of the
  list, and a property that depends on it says so.

  \<^bold>\<open>Theories.\<close>
  \<^item> \<open>Prelude\<close>, \<open>GoStrings\<close>: results, maps, the string functions of the Go library.
  \<^item> \<open>XPath\<close>, \<open>GnmiPath\<close>: \<open>utilities/xpath/xpath.go\<close> and \<open>path.go\<close>. The parsing loops run over byte indices. A printed path
    parses to itself; no string makes the parser panic; when merging paths panics.
  \<^item> \<open>Status\<close>: \<open>utilities/status/status.go\<close>. What tagged errors carry and lose.
  \<^item> \<open>CertManager\<close>, \<open>CertServer\<close>: \<open>gnoi/cert\<close>. Each call of the manager is one step, since it holds the mutex; the accept and
    rollback closures are records of what they capture. Runs are sequences of such steps: isolation and restoration of a
    rotation, the lock that an undecodable certificate leaves for ever. The handlers and the client are processes
    that exchange messages; the locale \<open>manager_contract\<close> is what the handlers need of the manager; it is
    interpreted on the manager.
  \<^item> \<open>Target\<close>: \<open>gnoi/gnoi.go\<close> and \<open>gnoi_target\<close>. The target as a step relation with its invariant; its mode follows the
    manager; the deadlock of a call that makes its own server stop.
  \<^item> \<open>Aliases\<close>, \<open>Session\<close>: \<open>gnmi/server/aliases.go\<close>, \<open>session.go\<close>, \<open>utilities/netsession\<close>, \<open>utilities/grpc.go\<close>. Aliases translate
    back and forth; the locale \<open>connection_observer\<close>, interpreted on the session table, gives that the sessions
    are those of the open connections.
  \<^item> \<open>Schema\<close>, \<open>DataTree\<close>, \<open>TreeWrite\<close>: \<open>gnmi/model/model.go\<close>, \<open>mo.go\<close>, \<open>utilities.go\<close>. Validation and the searches of schema paths
    agree; lookup by string agrees with lookup by path; listing a tree; writing internal JSON.
  \<^item> \<open>DataNodes\<close>: the searches of \<open>utilities.go\<close> over values and types without paths, as instances of one partial function.
    The locale \<open>node_search\<close> is the contract of a provider of children under which a search ends; it is interpreted on the
    functions of the source that list the children of a type. The searches with and without paths find the same.
  \<^item> \<open>TypeUpdate\<close>: the annotation of the schema with Go types. It fails exactly where an entry has no type.
  \<^item> \<open>ModelObject\<close>: the accessors, encodings and exports of \<open>mo.go\<close> and the construction of a model.
  \<^item> \<open>ModelSet\<close>, \<open>SetLaws\<close>: \<open>gnmi/model/set.go\<close> and the start-up data. The transaction keeps a backup of every path it
    touches; rolling back restores every leaf. The laws that the tree obeys are gathered in \<open>leafLaws\<close> and shown for a device.
  \<^item> \<open>ModelUpdate\<close>: the \<open>StateUpdate\<close> side of \<open>model.go\<close>. The locale \<open>change_log\<close> says what a receiver of changes sees in a
    round; it is interpreted on the telemetry control block, which is a refinement of it.
  \<^item> \<open>Telemetry\<close>, \<open>Responses\<close>, \<open>Subscription\<close>, \<open>StateSync\<close>, \<open>SubSession\<close>: \<open>gnmi/server/subscribe.go\<close>, \<open>message.go\<close>, \<open>internal.go\<close>,
    \<open>gnmi/model/get.go\<close>. Registration, the events of a round, the messages sent, the goroutine of a subscription
    as a step relation, the whole \<open>Subscribe\<close> call.
  \<^item> \<open>Forwarding\<close>: the channel of responses with its bound and the goroutine of \<open>Subscribe\<close> that reads it, as a step relation.
    Responses keep their order and reach the client; for the senders it refines the drained channel of the theories above.
  \<^item> \<open>ChangeDelivery\<close>: across these, the way of a change from the telemetry control block to the client, against a specification
    of what the client is told that has neither tries nor queues.
  \<^item> \<open>Server\<close>: \<open>gnmi/server/server.go\<close>. Options, \<open>Capabilities\<close>, \<open>Set\<close>: every operation is answered once, and a failed call
    restores the model.
  \<^item> \<open>Login\<close>: \<open>utilities/server/login\<close>. Who is let in.
  \<^item> \<open>Daemon\<close>: \<open>gnmid/main.go\<close> and the credentials of client and server. Across the components: which clients of the
    credentials package the interceptors let in, given what gRPC documents (\<open>grpcSends\<close>).
  \<^item> \<open>Entity\<close>: \<open>utilities/entity/entity.go\<close>. Keys are names and certificates records; \<open>x509Laws\<close> is what the source relies on of
    \<open>crypto/x509\<close>, and a symbolic library satisfies it. In a hierarchy of entities only the parent's key verifies.
  \<^item> \<open>Provision\<close>: \<open>gnoi_cert/gnoi_cert.go\<close> and, across the components, its run against the service, the manager and the
    target: what a fresh target is after it has been provisioned.
  \<^item> \<open>CertCommand\<close>: the other operations of the command, and the life of a certificate over the components: commands run
    against a target whose mode follows its manager, given what \<open>crypto/tls\<close> promises (\<open>tlsLaws\<close>).
  \<^item> \<open>Subsystem\<close>: \<open>gnmid/subsystem/main.go\<close>. Which texts of \<open>ifconfig\<close> are read, that counters pass through
    unchanged, and when the process ends.
  \<^item> \<open>SmallUtilities\<close>: \<open>utilities/flag.go\<close> and \<open>utilities/test\<close>. What the comparison of lists in the tests accepts.

  \<^bold>\<open>Termination and bounds.\<close> The loops over byte indices and the walks over schema entries, Go types and Go values have
  measures, so that their functions are total. Two are not. \<open>searchNodes\<close> in \<open>DataNodes\<close> goes down the children that \<open>ydb\<close>
  lists, of which the source promises nothing: it is a partial function, which ends if children are smaller than their
  parents and does not end if a node lists itself. \<open>link\<close> in \<open>CertServer\<close> runs a client and a handler against each other and
  takes fuel, since two processes may wait for each other; 20 steps are enough for both protocols, whatever either side does.
  The goroutines that do not end are step relations. Intervals of subscriptions and key sizes are words of their width;
  the parser of port numbers has the bound of 16 bits.

  \<^bold>\<open>Not modelled.\<close> Generated code (\<open>gostruct\<close>, \<open>cert.pb.go\<close>), which the definitions take as arguments, and printing.
  The races of calls that the source does not synchronise: calls are interleaved as whole steps, except that
  \<open>Subscription\<close> interleaves the steps of a goroutine with those of its session, \<open>Forwarding\<close> the senders of responses
  with the goroutine that forwards them, and \<open>Target\<close> an installation with its notification.
\<close>

end
